(* ===== verification/Prelude.thy ===== *)
theory Prelude
  imports Main "HOL-Library.Word" "HOL-Library.Sublist"
begin

text \<open>
  Shared vocabulary of the development: byte strings, little-endian integers, decimal
  numerals, substring search and 64-bit unsigned arithmetic, with the lemmas the component
  theories use.

  A C++ \<^verbatim>\<open>std::string\<close> is a \<^typ>\<open>string\<close>: a HOL character is one byte. Counters of the
  program (terms, log indices, sizes, milliseconds) are \<^typ>\<open>nat\<close>; wherever the C++ code can
  wrap around (a subtraction below zero, a decimal accumulator, a shift) the wrap-around at
  \<open>2 ^ 64\<close> or \<open>2 ^ 32\<close> is written out with the operations of this theory or the value is a
  machine word.
\<close>

unbundle bit_operations_syntax

named_theorems codec_simps \<open>round-trip and length equations of encoders\<close>
named_theorems frame_simps \<open>state components an operation leaves alone\<close>
named_theorems op_defs \<open>definitions of operations, for case analysis over all branches\<close>

section \<open>Lists and options\<close>

lemma last_index_conv [simp]: "xs \<noteq> [] \<Longrightarrow> xs ! (length xs - Suc 0) = last xs"
  by (simp add: last_conv_nth)

lemma nth_append_right [simp]: "(xs @ ys) ! (length xs + i) = ys ! i"
  by (simp add: nth_append)

lemma nth_append_first [simp]: "(xs @ y # ys) ! length xs = y"
  by simp

lemma take_length_append [simp]: "take (length xs) (xs @ ys) = xs"
  by simp

lemma drop_length_append [simp]: "drop (length xs) (xs @ ys) = ys"
  by simp

lemma drop_length_plus [simp]: "drop (length xs + n) (xs @ ys) = drop n ys"
  by (simp add: drop_append)

text \<open>Association lists with one entry per key: insertion replaces in place or adds at the end.\<close>

primrec alist_put :: "'k \<Rightarrow> 'v \<Rightarrow> ('k \<times> 'v) list \<Rightarrow> ('k \<times> 'v) list" where
  "alist_put k v [] = [(k, v)]"
| "alist_put k v (x # xs) = (if fst x = k then (k, v) # xs else x # alist_put k v xs)"

definition alist_del :: "'k \<Rightarrow> ('k \<times> 'v) list \<Rightarrow> ('k \<times> 'v) list" where
  "alist_del k xs = filter (\<lambda>x. fst x \<noteq> k) xs"

lemma map_of_alist_put [simp]: "map_of (alist_put k v xs) = (map_of xs)(k \<mapsto> v)"
  by (induction xs) auto

lemma map_of_alist_del [simp]: "map_of (alist_del k xs) = (map_of xs)(k := None)"
  by (induction xs) (auto simp: alist_del_def fun_eq_iff)

lemma keys_alist_put [simp]: "fst ` set (alist_put k v xs) = insert k (fst ` set xs)"
  by (induction xs) auto

lemma keys_alist_del [simp]: "fst ` set (alist_del k xs) = fst ` set xs - {k}"
  by (auto simp: alist_del_def)

lemma distinct_alist_put [simp]: "distinct (map fst xs) \<Longrightarrow> distinct (map fst (alist_put k v xs))"
  by (induction xs) auto

lemma distinct_alist_del [simp]: "distinct (map fst xs) \<Longrightarrow> distinct (map fst (alist_del k xs))"
  by (simp add: alist_del_def distinct_map_filter)

lemma map_fst_alist_put:
  "k \<in> set (map fst xs) \<Longrightarrow> map fst (alist_put k v xs) = map fst xs"
  "k \<notin> set (map fst xs) \<Longrightarrow> map fst (alist_put k v xs) = map fst xs @ [k]"
  by (induction xs) auto

lemma map_fst_alist_put_Some: "map_of xs k = Some x \<Longrightarrow> map fst (alist_put k v xs) = map fst xs"
  by (induction xs) (auto split: if_splits)

text \<open>A quorum argument: two majorities of the same finite set share a member.\<close>

lemma majorities_intersect:
  assumes "finite V" and "A \<subseteq> V" and "B \<subseteq> V"
    and "card V div 2 + 1 \<le> card A" and "card V div 2 + 1 \<le> card B"
  shows "A \<inter> B \<noteq> {}"
proof
  assume empty: "A \<inter> B = {}"
  have fin: "finite A" "finite B" using assms(1,2,3) finite_subset by auto
  have "card (A \<union> B) = card A + card B" using fin empty by (rule card_Un_disjoint)
  moreover have "card (A \<union> B) \<le> card V" using assms(1,2,3) by (intro card_mono) auto
  ultimately show False using assms(4,5) by linarith
qed

section \<open>64-bit unsigned arithmetic on nat\<close>

definition add64 :: "nat \<Rightarrow> nat \<Rightarrow> nat" where
  "add64 a b = (a + b) mod 2 ^ 64"

definition sub64 :: "nat \<Rightarrow> nat \<Rightarrow> nat" where
  "sub64 a b = (if b \<le> a then a - b else a + 2 ^ 64 - b)"

definition mul64 :: "nat \<Rightarrow> nat \<Rightarrow> nat" where
  "mul64 a b = (a * b) mod 2 ^ 64"

lemma add64_small [simp]: "a + b < 2 ^ 64 \<Longrightarrow> add64 a b = a + b"
  by (simp add: add64_def)

lemma sub64_ge [simp]: "b \<le> a \<Longrightarrow> sub64 a b = a - b"
  by (simp add: sub64_def)

lemma sub64_wraps: "a < b \<Longrightarrow> sub64 a b = a + 2 ^ 64 - b"
  by (simp add: sub64_def)

lemma mul64_small [simp]: "a * b < 2 ^ 64 \<Longrightarrow> mul64 a b = a * b"
  by (simp add: mul64_def)

section \<open>Little-endian integers\<close>

text \<open>The bytes of an unsigned integer in memory order on the little-endian hosts the code
  targets: \<^verbatim>\<open>reinterpret_cast\<close> of a header, \<^verbatim>\<open>fwrite\<close> of an integer.\<close>

primrec le_bytes :: "nat \<Rightarrow> nat \<Rightarrow> string" where
  "le_bytes 0 v = []"
| "le_bytes (Suc k) v = char_of (v mod 256) # le_bytes k (v div 256)"

primrec le_val :: "string \<Rightarrow> nat" where
  "le_val [] = 0"
| "le_val (c # cs) = of_char c + 256 * le_val cs"

lemma length_le_bytes [simp, codec_simps]: "length (le_bytes k v) = k"
  by (induction k arbitrary: v) auto

lemma le_val_le_bytes_mod: "le_val (le_bytes k v) = v mod 256 ^ k"
proof (induction k arbitrary: v)
  case 0
  then show ?case by simp
next
  case (Suc k)
  have "le_val (le_bytes (Suc k) v) = v mod 256 + 256 * (v div 256 mod 256 ^ k)"
    by (simp add: Suc)
  also have "\<dots> = v mod (256 * 256 ^ k)"
    by (simp add: mod_mult2_eq)
  finally show ?case by simp
qed

lemma le_val_le_bytes [simp, codec_simps]: "v < 256 ^ k \<Longrightarrow> le_val (le_bytes k v) = v"
  by (simp add: le_val_le_bytes_mod)

lemma le_val_less: "le_val cs < 256 ^ length cs"
proof (induction cs)
  case (Cons c cs)
  have "(of_char c :: nat) \<le> 255" using nat_of_char_less_256 [of c] by linarith
  then show ?case using Cons by simp
qed simp

lemma le_split: "(a::nat) < 256 \<Longrightarrow> (a + 256 * n) mod 256 = a"
  "(a::nat) < 256 \<Longrightarrow> (a + 256 * n) div 256 = n"
  by simp_all

lemma le_bytes_le_val: "le_bytes (length cs) (le_val cs) = cs"
proof (induction cs)
  case (Cons c cs)
  then show ?case
    by (simp only: list.size(4) add_0_right One_nat_def add_Suc_right
        le_bytes.simps le_val.simps le_split [OF nat_of_char_less_256] char_of_char)
qed simp

lemma le_bytes_inject:
  "le_bytes k v = le_bytes k w \<Longrightarrow> v < 256 ^ k \<Longrightarrow> w < 256 ^ k \<Longrightarrow> v = w"
  by (metis le_val_le_bytes)

section \<open>Decimal numerals\<close>

text \<open>\<^verbatim>\<open>std::to_string\<close> of an unsigned integer, and the digit loop
  \<^verbatim>\<open>v = v * 10 + (c - '0')\<close> of the hand-written parsers, on exact numbers and at 64 bits.\<close>

definition digit_char :: "nat \<Rightarrow> char" where
  "digit_char d = char_of (48 + d)"

definition is_digit :: "char \<Rightarrow> bool" where
  "is_digit c \<longleftrightarrow> 48 \<le> (of_char c :: nat) \<and> (of_char c :: nat) \<le> 57"

definition digit_val :: "char \<Rightarrow> nat" where
  "digit_val c = of_char c - 48"

fun to_string :: "nat \<Rightarrow> string" where
  "to_string n = (if n < 10 then [digit_char n] else to_string (n div 10) @ [digit_char (n mod 10)])"

declare to_string.simps [simp del]

text \<open>Evaluation on numerals, for closed examples.\<close>

lemma to_string_eval:
  "n < 10 \<Longrightarrow> to_string n = [digit_char n]"
  "10 \<le> n \<Longrightarrow> to_string n = to_string (n div 10) @ [digit_char (n mod 10)]"
  by (subst to_string.simps; simp)+

definition dec_val :: "nat \<Rightarrow> string \<Rightarrow> nat" where
  "dec_val acc s = foldl (\<lambda>a c. a * 10 + digit_val c) acc s"

definition dec_val64 :: "nat \<Rightarrow> string \<Rightarrow> nat" where
  "dec_val64 acc s = foldl (\<lambda>a c. (a * 10 + digit_val c) mod 2 ^ 64) acc s"

lemma digit_char_simps [simp]:
  assumes "d < 10"
  shows "is_digit (digit_char d)" and "digit_val (digit_char d) = d"
  using assms by (auto simp: is_digit_def digit_val_def digit_char_def)

lemma dec_val_append: "dec_val acc (xs @ ys) = dec_val (dec_val acc xs) ys"
  by (simp add: dec_val_def)

lemma dec_val_simps [simp]:
  "dec_val acc [] = acc" "dec_val acc (c # cs) = dec_val (acc * 10 + digit_val c) cs"
  by (simp_all add: dec_val_def)

lemma to_string_digits [simp]: "c \<in> set (to_string n) \<Longrightarrow> is_digit c"
proof (induction n rule: to_string.induct)
  case (1 n)
  show ?case
  proof (cases "n < 10")
    case True
    with "1.prems" show ?thesis by (simp add: to_string.simps [of n])
  next
    case False
    with "1" show ?thesis by (auto simp: to_string.simps [of n])
  qed
qed

lemma list_all_to_string [simp]: "list_all is_digit (to_string n)"
  by (simp add: list_all_iff)

lemma to_string_not_Nil [simp]: "to_string n \<noteq> []"
  by (subst to_string.simps) simp

lemma dec_val_to_string [simp, codec_simps]: "dec_val 0 (to_string n) = n"
proof (induction n rule: to_string.induct)
  case (1 n)
  show ?case
  proof (cases "n < 10")
    case True
    then show ?thesis by (simp add: to_string.simps [of n])
  next
    case False
    with "1" have "dec_val 0 (to_string (n div 10)) = n div 10" by simp
    with False show ?thesis
      by (simp add: to_string.simps [of n] dec_val_append)
  qed
qed

lemma dec_val64_mod: "dec_val64 (acc mod 2 ^ 64) s = dec_val acc s mod 2 ^ 64"
proof (induction s arbitrary: acc)
  case Nil
  then show ?case by (simp add: dec_val64_def)
next
  case (Cons c s)
  have "dec_val64 (acc mod 2 ^ 64) (c # s)
      = dec_val64 ((acc mod 2 ^ 64 * 10 + digit_val c) mod 2 ^ 64) s"
    by (simp add: dec_val64_def)
  also have "(acc mod 2 ^ 64 * 10 + digit_val c) mod 2 ^ 64 = (acc * 10 + digit_val c) mod 2 ^ 64"
    by (metis mod_add_left_eq mod_mult_left_eq)
  finally show ?case by (simp only: Cons dec_val_simps)
qed

lemma dec_val64_to_string [simp, codec_simps]: "n < 2 ^ 64 \<Longrightarrow> dec_val64 0 (to_string n) = n"
  using dec_val64_mod [of 0 "to_string n"] by simp

lemma to_string_inject [simp]: "to_string m = to_string n \<longleftrightarrow> m = n"
  by (metis dec_val_to_string)

lemma not_digit_simps [simp]:
  "\<not> is_digit (CHR 0x0D)" "\<not> is_digit (CHR 0x0A)" "\<not> is_digit CHR '' ''" "\<not> is_digit CHR '',''"
  "\<not> is_digit (CHR 0x22)" "\<not> is_digit CHR '':''" "\<not> is_digit CHR ''}''" "\<not> is_digit CHR ''-''"
  "\<not> is_digit CHR ''$''" "\<not> is_digit CHR ''*''" "\<not> is_digit CHR ''+''"  "\<not> is_digit CHR ''.''"
  by (simp_all add: is_digit_def)

lemma not_in_to_string [simp]: "\<not> is_digit c \<Longrightarrow> c \<notin> set (to_string n)"
  using to_string_digits by blast

section \<open>Substring search\<close>

text \<open>\<^verbatim>\<open>find(pat)\<close> of a string: the offset of the first occurrence, \<open>None\<close> for \<^verbatim>\<open>npos\<close>.\<close>

definition starts_with :: "string \<Rightarrow> string \<Rightarrow> bool" where
  "starts_with pat s \<longleftrightarrow> take (length pat) s = pat"

fun find_sub :: "string \<Rightarrow> string \<Rightarrow> nat option" where
  "find_sub pat [] = (if pat = [] then Some 0 else None)"
| "find_sub pat (c # cs) =
     (if starts_with pat (c # cs) then Some 0 else map_option Suc (find_sub pat cs))"

definition find_from :: "string \<Rightarrow> string \<Rightarrow> nat \<Rightarrow> nat option" where
  "find_from pat s pos =
     (if pos \<le> length s then map_option (\<lambda>k. pos + k) (find_sub pat (drop pos s)) else None)"

lemma starts_with_append [simp]: "starts_with pat (pat @ s)"
  by (simp add: starts_with_def)

lemma starts_with_Nil [simp]: "starts_with [] s"
  by (simp add: starts_with_def)

lemma starts_with_Cons [simp]: "starts_with (p # pat) (c # s) \<longleftrightarrow> p = c \<and> starts_with pat s"
  by (auto simp: starts_with_def)

lemma starts_with_empty [simp]: "starts_with (p # pat) [] \<longleftrightarrow> False"
  by (auto simp: starts_with_def)

lemma find_sub_here [simp]: "find_sub pat (pat @ s) = Some 0"
proof (cases "pat @ s")
  case Nil
  then show ?thesis by simp
next
  case (Cons c cs)
  then have "starts_with pat (c # cs)" by (metis starts_with_append)
  then show ?thesis by (simp add: Cons)
qed

lemma find_sub_skip:
  "p \<notin> set xs \<Longrightarrow> find_sub (p # pat) (xs @ ys) = map_option (\<lambda>k. length xs + k) (find_sub (p # pat) ys)"
proof (induction xs)
  case (Cons x xs)
  then show ?case by (cases "find_sub (p # pat) ys") auto
qed (cases "find_sub (p # pat) ys"; simp)

lemma find_sub_first:
  "p \<notin> set xs \<Longrightarrow> find_sub (p # pat) (xs @ (p # pat) @ ys) = Some (length xs)"
  using find_sub_skip [of p xs pat "(p # pat) @ ys"] find_sub_here [of "p # pat" ys] by simp

lemma find_sub_absent: "p \<notin> set xs \<Longrightarrow> find_sub (p # pat) xs = None"
  using find_sub_skip [of p xs pat "[]"] by simp

lemma find_sub_bound: "find_sub pat s = Some k \<Longrightarrow> k + length pat \<le> length s"
proof (induction pat s arbitrary: k rule: find_sub.induct)
  case (2 pat c cs)
  then show ?case
    by (auto simp: starts_with_def split: if_splits dest: arg_cong [where f = length])
qed (auto split: if_splits)

lemma find_sub_sound: "find_sub pat s = Some k \<Longrightarrow> take (length pat) (drop k s) = pat"
proof (induction pat s arbitrary: k rule: find_sub.induct)
  case (2 pat c cs)
  then show ?case by (auto simp: starts_with_def split: if_splits)
qed (auto split: if_splits)

lemma find_from_0 [simp]: "find_from pat s 0 = find_sub pat s"
  by (cases "find_sub pat s") (simp_all add: find_from_def)

section \<open>std::stoull\<close>

text \<open>\<^verbatim>\<open>std::stoull\<close> in base 10: leading white space, an optional sign, the longest run of
  digits; \<open>None\<close> is the exception (\<^verbatim>\<open>invalid_argument\<close> without digits, \<^verbatim>\<open>out_of_range\<close> at
  \<open>2 ^ 64\<close> and above). A minus sign negates modulo \<open>2 ^ 64\<close>.\<close>

definition is_space :: "char \<Rightarrow> bool" where
  "is_space c \<longleftrightarrow> c = CHR '' '' \<or> (9 \<le> (of_char c :: nat) \<and> (of_char c :: nat) \<le> 13)"

definition stoull :: "string \<Rightarrow> nat option" where
  "stoull s =
     (let s1 = dropWhile is_space s;
          neg = (s1 \<noteq> [] \<and> hd s1 = CHR ''-'');
          s2 = (if s1 \<noteq> [] \<and> (hd s1 = CHR ''-'' \<or> hd s1 = CHR ''+'') then tl s1 else s1);
          ds = takeWhile is_digit s2;
          v = dec_val 0 ds
      in if ds = [] \<or> 2 ^ 64 \<le> v then None else Some (if neg then sub64 0 v else v))"

lemma is_digit_not_space: "is_digit c \<Longrightarrow> \<not> is_space c"
  by (auto simp: is_digit_def is_space_def)

lemma stoull_to_string [simp, codec_simps]: "n < 2 ^ 64 \<Longrightarrow> stoull (to_string n) = Some n"
proof -
  assume n: "n < 2 ^ 64"
  have hd: "is_digit (hd (to_string n))" by (rule to_string_digits [of _ n]) simp
  have "dropWhile is_space (to_string n) = to_string n"
    using is_digit_not_space [OF hd] by (cases "to_string n") auto
  moreover have "hd (to_string n) \<noteq> CHR ''-''" "hd (to_string n) \<noteq> CHR ''+''"
    using hd by (auto simp: is_digit_def)
  moreover have [simp]: "takeWhile is_digit (to_string n) = to_string n"
    by (simp add: takeWhile_eq_all_conv)
  ultimately show ?thesis using n by (simp add: stoull_def Let_def)
qed

text \<open>\<^verbatim>\<open>strtoull\<close> in base 10: the value (clamped to \<open>2 ^ 64 - 1\<close>) and the unread rest, \<open>None\<close> when
  nothing is converted (\<^verbatim>\<open>end\<close> is the start of the text).\<close>

definition strtoull :: "string \<Rightarrow> (nat \<times> string) option" where
  "strtoull s =
     (let s1 = dropWhile is_space s;
          neg = (s1 \<noteq> [] \<and> hd s1 = CHR ''-'');
          s2 = (if s1 \<noteq> [] \<and> (hd s1 = CHR ''-'' \<or> hd s1 = CHR ''+'') then tl s1 else s1);
          ds = takeWhile is_digit s2;
          v = dec_val 0 ds
      in if ds = [] then None
         else Some (if 2 ^ 64 \<le> v then 2 ^ 64 - 1 else if neg then sub64 0 v else v,
                    dropWhile is_digit s2))"

lemma strtoull_digits:
  assumes "ds \<noteq> []" and "list_all is_digit ds" and "rest = [] \<or> \<not> is_digit (hd rest)"
    and "dec_val 0 ds < 2 ^ 64"
  shows "strtoull (ds @ rest) = Some (dec_val 0 ds, rest)"
proof -
  obtain d ds' where ds: "ds = d # ds'" using assms(1) by (cases ds) auto
  have d: "is_digit d" using assms(2) ds by simp
  have "dropWhile is_space (ds @ rest) = ds @ rest" using is_digit_not_space [OF d] ds by simp
  moreover have "d \<noteq> CHR ''-''" "d \<noteq> CHR ''+''" using d by (auto simp: is_digit_def)
  moreover have [simp]: "takeWhile is_digit (ds @ rest) = ds" "dropWhile is_digit (ds @ rest) = rest"
    using assms(2,3) by (cases rest; simp add: takeWhile_append dropWhile_append list_all_iff
        takeWhile_eq_all_conv [THEN iffD2])+
  ultimately show ?thesis using assms(1,4) ds unfolding strtoull_def Let_def by simp
qed

end
