(* ===== verification/Raft_Types.thy ===== *)
theory Raft_Types
  imports Prelude
begin

text \<open>
  The vocabulary of the consensus layer, \<^verbatim>\<open>server/raft/raft_types.h\<close>: roles, log entries,
  cluster configurations, the leader-transfer context and the snapshot anchor.

  \<^verbatim>\<open>std::unordered_set<NodeId>\<close> is a duplicate-free list whose order stands for the
  unspecified iteration order of the container; \<open>set_insert\<close> and \<open>set_erase\<close> are its
  \<^verbatim>\<open>insert\<close> and \<^verbatim>\<open>erase\<close>, \<open>distinct\<close> is its invariant.
\<close>

type_synonym Term = nat
type_synonym LogIndex = nat
type_synonym NodeId = string
type_synonym GroupId = nat
type_synonym ms = nat

datatype RaftRole = Follower | Candidate | Leader

datatype LogEntryType = LogEntryType_kCommand | LogEntryType_kConfig

record LogEntry =
  entry_term :: Term
  entry_index :: LogIndex
  command :: string

definition mk_entry :: "Term \<Rightarrow> LogIndex \<Rightarrow> string \<Rightarrow> LogEntry" where
  "mk_entry t i cmd = \<lparr>entry_term = t, entry_index = i, command = cmd\<rparr>"

record ClusterConfig =
  version :: nat
  voters :: "NodeId list"
  learners :: "NodeId list"

datatype ConfigState = kStable | kJoint

record JointConfig =
  old_config :: ClusterConfig
  new_config :: ClusterConfig

record ElectionResult =
  votes_received :: nat
  votes_rejected :: nat

datatype ReadConsistency = kLocal | kLinearizable

datatype TransferState = kNone | kRequested | kWaitingCatchUp | kWaitingElection

record LeaderTransferContext =
  xfer_target :: NodeId
  xfer_state :: TransferState
  xfer_start_ms :: ms

definition IsActive :: "LeaderTransferContext \<Rightarrow> bool" where
  "IsActive c \<longleftrightarrow> xfer_state c \<noteq> kNone"

definition transfer_Reset :: LeaderTransferContext where
  "transfer_Reset = \<lparr>xfer_target = [], xfer_state = kNone, xfer_start_ms = 0\<rparr>"

record SnapshotAnchor =
  anchor_index :: LogIndex
  anchor_term :: Term

definition set_insert :: "'a \<Rightarrow> 'a list \<Rightarrow> 'a list" where
  "set_insert x xs = (if x \<in> set xs then xs else x # xs)"

definition set_erase :: "'a \<Rightarrow> 'a list \<Rightarrow> 'a list" where
  "set_erase x xs = filter (\<lambda>y. y \<noteq> x) xs"

lemma set_set_insert [simp]: "set (set_insert x xs) = insert x (set xs)"
  by (auto simp: set_insert_def)

lemma distinct_set_insert [simp]: "distinct (set_insert x xs) \<longleftrightarrow> distinct xs"
  by (simp add: set_insert_def)

lemma set_set_erase [simp]: "set (set_erase x xs) = set xs - {x}"
  by (auto simp: set_erase_def)

lemma distinct_set_erase [simp]: "distinct xs \<Longrightarrow> distinct (set_erase x xs)"
  by (simp add: set_erase_def)

lemma mk_entry_simps [simp]:
  "entry_term (mk_entry t i c) = t" "entry_index (mk_entry t i c) = i"
  "command (mk_entry t i c) = c"
  by (simp_all add: mk_entry_def)

lemma transfer_Reset_inactive [simp]: "\<not> IsActive transfer_Reset"
  by (simp add: IsActive_def transfer_Reset_def)

text \<open>Configurations as the code sees them: the sets, not the iteration order.\<close>

definition config_equiv :: "ClusterConfig \<Rightarrow> ClusterConfig \<Rightarrow> bool" where
  "config_equiv a b \<longleftrightarrow> version a = version b \<and> set (voters a) = set (voters b)
     \<and> set (learners a) = set (learners b)"

definition config_wf :: "ClusterConfig \<Rightarrow> bool" where
  "config_wf c \<longleftrightarrow> distinct (voters c) \<and> distinct (learners c)"

lemma set_fold_set_insert [simp]: "set (fold set_insert xs acc) = set xs \<union> set acc"
  by (induction xs arbitrary: acc) auto

lemma distinct_fold_set_insert [simp]: "distinct (fold set_insert xs acc) \<longleftrightarrow> distinct acc"
  by (induction xs arbitrary: acc) auto

end
