(* ===== verification/Command_Registry.thy ===== *)
theory Command_Registry
  imports Raft_Types
begin

text \<open>
  Command descriptors and their table, \<^verbatim>\<open>server/service/command_registry.{h,cc}\<close>. The
  \<^verbatim>\<open>absl::flat_hash_map\<close> of the table is an association list in which a name occurs once;
  \<^verbatim>\<open>emplace\<close> keeps an entry that is already there. Handlers are dispatched by name in the
  service layer.
\<close>

definition CO_READONLY :: nat where "CO_READONLY = 1"
definition CO_FAST :: nat where "CO_FAST = 2"
definition CO_WRITE :: nat where "CO_WRITE = 4"
definition CO_LOADING :: nat where "CO_LOADING = 8"
definition CO_DENYOOM :: nat where "CO_DENYOOM = 16"
definition CO_STALE :: nat where "CO_STALE = 32"
definition CO_RANDOM :: nat where "CO_RANDOM = 64"

lemmas CO_defs = CO_READONLY_def CO_FAST_def CO_WRITE_def CO_LOADING_def CO_DENYOOM_def
  CO_STALE_def CO_RANDOM_def

record CommandId =
  cid_name :: string
  cid_mask :: nat
  cid_arity :: int
  cid_first_key :: int
  cid_last_key :: int
  cid_step :: int

definition mk_CommandId :: "string \<Rightarrow> nat \<Rightarrow> int \<Rightarrow> int \<Rightarrow> int \<Rightarrow> int \<Rightarrow> CommandId" where
  "mk_CommandId nm m a f l st =
     \<lparr>cid_name = nm, cid_mask = m, cid_arity = a, cid_first_key = f, cid_last_key = l, cid_step = st\<rparr>"

definition mask_has :: "nat \<Rightarrow> nat \<Rightarrow> bool" where
  "mask_has m fl \<longleftrightarrow> m AND fl \<noteq> 0"

definition is_multi_key :: "CommandId \<Rightarrow> bool" where
  "is_multi_key c \<longleftrightarrow> cid_last_key c \<noteq> cid_first_key c"

type_synonym CommandRegistry = "(string \<times> CommandId) list"

definition registry_init :: CommandRegistry where
  "registry_init = [(''COMMAND'', mk_CommandId ''COMMAND'' (CO_RANDOM OR CO_LOADING OR CO_STALE) 0 0 0 0)]"

definition registry_add :: "CommandRegistry \<Rightarrow> CommandId \<Rightarrow> CommandRegistry" where
  "registry_add r c = (if map_of r (cid_name c) = None then r @ [(cid_name c, c)] else r)"

definition registry_Find :: "CommandRegistry \<Rightarrow> string \<Rightarrow> CommandId option" where
  "registry_Find r nm = map_of r nm"

definition OptName :: "nat \<Rightarrow> string" where
  "OptName fl =
     (if fl = CO_WRITE then ''write'' else if fl = CO_READONLY then ''readonly''
      else if fl = CO_DENYOOM then ''denyoom'' else if fl = CO_FAST then ''fast''
      else if fl = CO_STALE then ''stale'' else if fl = CO_LOADING then ''loading''
      else if fl = CO_RANDOM then ''random'' else [])"

definition registry_wf :: "CommandRegistry \<Rightarrow> bool" where
  "registry_wf r \<longleftrightarrow> distinct (map fst r) \<and> list_all (\<lambda>(nm, c). cid_name c = nm) r"

lemma registry_init_wf [simp]: "registry_wf registry_init"
  by (simp add: registry_wf_def registry_init_def mk_CommandId_def)

lemma registry_add_wf: "registry_wf r \<Longrightarrow> registry_wf (registry_add r c)"
  by (auto simp: registry_wf_def registry_add_def map_of_eq_None_iff)

lemma registry_Find_add:
  "registry_Find (registry_add r c) nm =
     (if registry_Find r nm = None \<and> nm = cid_name c then Some c else registry_Find r nm)"
  by (auto simp: registry_Find_def registry_add_def map_add_def split: option.splits)

lemma registry_Find_name: "registry_wf r \<Longrightarrow> registry_Find r nm = Some c \<Longrightarrow> cid_name c = nm"
  by (auto simp: registry_wf_def registry_Find_def list_all_iff dest: map_of_SomeD)

end
