(* ===== verification/Command_Codec.thy ===== *)
theory Command_Codec
  imports Raft_Types Command_Registry
begin

text \<open>
  The durable form of a replicated command, \<^verbatim>\<open>server/raft/command_encoder.{h,cc}\<close> and
  \<^verbatim>\<open>replicated_command.h\<close>: the RESP array of bulk strings (\<open>EncodeRespArray\<close>,
  \<open>ParseRespArray\<close>), the command with its type tag, the membership-change command and
  \<^verbatim>\<open>CommandEncoder::Encode\<close>.

  \<open>ParseRespArray\<close> keeps the offsets of the code: the length accumulator and the sum
  \<^verbatim>\<open>pos + len\<close> wrap at \<open>2 ^ 64\<close>. It returns the Boolean result and the output vector, which the
  code fills as it goes.
\<close>

datatype CommandType = SET | DEL | EXPIRE | CONFIG_CHANGE

record ReplicatedCommand =
  rc_type :: CommandType
  rc_args :: "string list"

record ConfigChangeCommand =
  cc_target :: ClusterConfig

abbreviation crlf :: string where
  "crlf \<equiv> [CHR 0x0D, CHR 0x0A]"

section \<open>RESP arrays\<close>

definition encode_arg :: "string \<Rightarrow> string" where
  "encode_arg arg = ''$'' @ to_string (length arg) @ crlf @ arg @ crlf"

definition EncodeRespArray :: "string list \<Rightarrow> string" where
  "EncodeRespArray args = ''*'' @ to_string (length args) @ crlf @ concat (map encode_arg args)"

text \<open>The loop over the elements, from offset \<open>pos\<close> of \<open>data\<close> with \<open>out\<close> parsed so far.\<close>

primrec parse_elements :: "string \<Rightarrow> nat \<Rightarrow> nat \<Rightarrow> string list \<Rightarrow> bool \<times> string list" where
  "parse_elements data 0 pos out = (True, out)"
| "parse_elements data (Suc n) pos out =
     (if length data \<le> pos + 1 \<or> data ! pos \<noteq> CHR ''$'' then (False, out)
      else case find_from crlf data (pos + 1) of
        None \<Rightarrow> (False, out)
      | Some len_end \<Rightarrow>
          let num = take (len_end - (pos + 1)) (drop (pos + 1) data) in
          if \<not> list_all is_digit num then (False, out)
          else
            let len = dec_val64 0 num; p = len_end + 2 in
            if length data < add64 p len then (False, out)
            else
              let out' = out @ [take len (drop p data)]; q = add64 p len in
              if length data < q + 2 \<or> data ! q \<noteq> CHR 0x0D \<or> data ! (q + 1) \<noteq> CHR 0x0A
              then (False, out')
              else parse_elements data n (q + 2) out')"

definition ParseRespArray :: "string \<Rightarrow> bool \<times> string list" where
  "ParseRespArray data =
     (if data = [] \<or> hd data \<noteq> CHR ''*'' then (False, [])
      else case find_from crlf data 1 of
        None \<Rightarrow> (False, [])
      | Some count_end \<Rightarrow>
          let num = take (count_end - 1) (drop 1 data) in
          if \<not> list_all is_digit num then (False, [])
          else parse_elements data (dec_val64 0 num) (count_end + 2) [])"

section \<open>Replicated commands\<close>

definition rc_Serialize :: "ReplicatedCommand \<Rightarrow> string" where
  "rc_Serialize c = EncodeRespArray (rc_args c)"

function legacy_split :: "string \<Rightarrow> string list" where
  "legacy_split data =
     (if data = [] then []
      else case find_sub '' '' data of
        None \<Rightarrow> [data]
      | Some e \<Rightarrow> take e data # legacy_split (drop (e + 1) data))"
  by pat_completeness auto
termination
  by (relation "measure length") (auto dest: find_sub_bound)

declare legacy_split.simps [simp del]

definition command_type_of :: "string list \<Rightarrow> CommandType" where
  "command_type_of args =
     (case args of
        [] \<Rightarrow> SET
      | name # _ \<Rightarrow>
          if name = ''SET'' then SET else if name = ''DEL'' then DEL
          else if name = ''EXPIRE'' then EXPIRE
          else if name = ''CONFIG_CHANGE'' then CONFIG_CHANGE else SET)"

definition rc_Deserialize :: "string \<Rightarrow> ReplicatedCommand" where
  "rc_Deserialize data =
     (let (ok, out) = ParseRespArray data;
          args = (if ok then out else out @ legacy_split data)
      in \<lparr>rc_type = command_type_of args, rc_args = args\<rparr>)"

definition CommandEncoder_Encode :: "CommandId \<Rightarrow> string list \<Rightarrow> ReplicatedCommand option" where
  "CommandEncoder_Encode cid args =
     (if \<not> mask_has (cid_mask cid) CO_WRITE then None
      else if cid_name cid = ''SET'' then Some \<lparr>rc_type = SET, rc_args = args\<rparr>
      else if cid_name cid = ''DEL'' then Some \<lparr>rc_type = DEL, rc_args = args\<rparr>
      else if cid_name cid = ''EXPIRE'' then Some \<lparr>rc_type = EXPIRE, rc_args = args\<rparr>
      else None)"

definition IsWriteCommand :: "CommandId \<Rightarrow> bool" where
  "IsWriteCommand cid = mask_has (cid_mask cid) CO_WRITE"

section \<open>Membership changes\<close>

definition cc_Serialize :: "ConfigChangeCommand \<Rightarrow> string" where
  "cc_Serialize c =
     ''CONFIG_CHANGE '' @ to_string (version (cc_target c))
     @ '' '' @ to_string (length (voters (cc_target c)))
     @ concat (map (\<lambda>v. '' '' @ v) (voters (cc_target c)))
     @ '' '' @ to_string (length (learners (cc_target c)))
     @ concat (map (\<lambda>l. '' '' @ l) (learners (cc_target c)))"

text \<open>\<^verbatim>\<open>next_token\<close> on the unread rest of the data: the token and the new rest.\<close>

definition next_token :: "string \<Rightarrow> string \<times> string" where
  "next_token rest =
     (case find_sub '' '' rest of
        None \<Rightarrow> (rest, [])
      | Some e \<Rightarrow> (take e rest, drop (e + 1) rest))"

primrec read_ids :: "nat \<Rightarrow> string \<Rightarrow> NodeId list \<Rightarrow> NodeId list \<times> string" where
  "read_ids 0 rest acc = (acc, rest)"
| "read_ids (Suc n) rest acc =
     (let (v, rest') = next_token rest
      in read_ids n rest' (if v \<noteq> [] then set_insert v acc else acc))"

definition read_counted :: "string \<Rightarrow> (NodeId list \<times> string) option" where
  "read_counted rest =
     (let (num, rest') = next_token rest in
      if num = [] then Some ([], rest')
      else case stoull num of None \<Rightarrow> None | Some n \<Rightarrow> Some (read_ids n rest' []))"

text \<open>\<open>None\<close>: \<^verbatim>\<open>std::stoull\<close> or \<^verbatim>\<open>std::stoul\<close> throws.\<close>

definition cc_Deserialize :: "string \<Rightarrow> ConfigChangeCommand option" where
  "cc_Deserialize data =
     (let (_, r1) = next_token data;
          (ver, r2) = next_token r1
      in case (if ver = [] then Some 0 else stoull ver) of
           None \<Rightarrow> None
         | Some vn \<Rightarrow>
             (case read_counted r2 of
                None \<Rightarrow> None
              | Some (vs, r3) \<Rightarrow>
                  (case read_counted r3 of
                     None \<Rightarrow> None
                   | Some (ls, _) \<Rightarrow>
                       Some \<lparr>cc_target = \<lparr>version = vn, voters = vs, learners = ls\<rparr>\<rparr>)))"

section \<open>Round trips\<close>

lemma find_from_append:
  "find_from pat (pre @ s) (length pre) = map_option (\<lambda>k. length pre + k) (find_sub pat s)"
  by (simp add: find_from_def)

lemma find_crlf_after_number [simp]:
  "find_sub crlf (to_string n @ CHR 0x0D # CHR 0x0A # s) = Some (length (to_string n))"
  using find_sub_first [of "CHR 0x0D" "to_string n" "[CHR 0x0A]" s] by simp

text \<open>One element: the parser consumes exactly the bytes the encoder wrote for it.\<close>

lemma parse_elements_arg:
  fixes pre a rest
  defines "data \<equiv> pre @ encode_arg a @ rest"
  assumes "length data < 2 ^ 64"
  shows "parse_elements data (Suc n) (length pre) out
    = parse_elements data n (length (pre @ encode_arg a)) (out @ [a])"
proof -
  let ?num = "to_string (length a)"
  let ?h = "pre @ ''$''"
  have data: "data = ?h @ ?num @ crlf @ a @ crlf @ rest"
    by (simp add: data_def encode_arg_def)
  have find: "find_from crlf data (length pre + 1) = Some (length ?h + length ?num)"
    using find_from_append [of crlf ?h "?num @ crlf @ a @ crlf @ rest"] by (simp add: data)
  let ?k = "?h @ ?num @ crlf"
  have k: "length ?h + length ?num + 2 = length ?k" by simp
  have sub: "length ?k + length a < 2 ^ 64" using assms(2) by (simp add: data)
  have arg: "take (length a) (drop (length ?k) data) = a"
    using drop_length_append [of ?k "a @ crlf @ rest"] by (simp add: data)
  have cr: "data ! (length ?k + length a) = CHR 0x0D" "data ! (length ?k + length a + 1) = CHR 0x0A"
    using nth_append_right [of "?k @ a" "crlf @ rest" 0] nth_append_right [of "?k @ a" "crlf @ rest" 1]
    by (simp_all add: data add.assoc)
  have num: "take (length ?h + length ?num - (length pre + 1)) (drop (length pre + 1) data) = ?num"
    using drop_length_append [of ?h "?num @ crlf @ a @ crlf @ rest"] by (simp add: data)
  have small: "length a < 2 ^ 64" using sub by simp
  have dollar: "data ! length pre = CHR ''$''" by (simp add: data)
  have long: "length pre + 1 < length data" by (simp add: data)
  have fits: "length ?k + length a + 2 \<le> length data" by (simp add: data)
  have "add64 (length ?k) (length a) = length ?k + length a" using sub by (rule add64_small)
  moreover have "length (pre @ encode_arg a) = length ?k + length a + 2" by (simp add: encode_arg_def)
  ultimately show ?thesis
    using long dollar fits arg cr num small
    by (simp only: parse_elements.simps find option.case Let_def k dec_val64_to_string
        list_all_to_string) simp
qed

lemma parse_elements_encode:
  "length (pre @ concat (map encode_arg args) @ rest) < 2 ^ 64 \<Longrightarrow>
   parse_elements (pre @ concat (map encode_arg args) @ rest) (length args) (length pre) out
   = (True, out @ args)"
proof (induction args arbitrary: pre out)
  case (Cons a args)
  let ?tl = "concat (map encode_arg args) @ rest"
  have "parse_elements (pre @ encode_arg a @ ?tl) (Suc (length args)) (length pre) out
      = parse_elements (pre @ encode_arg a @ ?tl) (length args) (length (pre @ encode_arg a)) (out @ [a])"
    using Cons.prems by (intro parse_elements_arg) simp
  also have "\<dots> = (True, (out @ [a]) @ args)"
    using Cons.IH [of "pre @ encode_arg a" "out @ [a]"] Cons.prems by simp
  finally show ?case by simp
qed simp

lemma ParseRespArray_encode [codec_simps]:
  assumes "length (EncodeRespArray args @ rest) < 2 ^ 64"
  shows "ParseRespArray (EncodeRespArray args @ rest) = (True, args)"
proof -
  let ?num = "to_string (length args)"
  let ?body = "concat (map encode_arg args) @ rest"
  have data: "EncodeRespArray args @ rest = ''*'' @ ?num @ crlf @ ?body"
    by (simp add: EncodeRespArray_def)
  have find: "find_from crlf (''*'' @ ?num @ crlf @ ?body) 1 = Some (1 + length ?num)"
    using find_from_append [of crlf "''*''" "?num @ crlf @ ?body"] by simp
  have "length args \<le> length (concat (map encode_arg args))"
    by (induction args) (auto simp: encode_arg_def)
  then have small: "length args < 2 ^ 64" using assms by (simp add: EncodeRespArray_def)
  have "parse_elements (''*'' @ ?num @ crlf @ ?body) (length args) (length (''*'' @ ?num @ crlf)) []
      = (True, [] @ args)"
    using parse_elements_encode [of "''*'' @ ?num @ crlf" args rest "[]"] assms
    by (simp add: EncodeRespArray_def)
  then show ?thesis using small find by (simp add: data ParseRespArray_def)
qed

lemma rc_roundtrip [codec_simps]:
  "length (EncodeRespArray args) < 2 ^ 64 \<Longrightarrow>
   rc_Deserialize (EncodeRespArray args) = \<lparr>rc_type = command_type_of args, rc_args = args\<rparr>"
  using ParseRespArray_encode [of args "[]"] by (simp add: rc_Deserialize_def)

text \<open>The membership command is its tokens joined by single spaces.\<close>

fun unwords :: "string list \<Rightarrow> string" where
  "unwords [] = []"
| "unwords [t] = t"
| "unwords (t # u # ts) = t @ CHR '' '' # unwords (u # ts)"

lemma unwords_Cons: "unwords (t # ts) = t @ concat (map ((#) CHR '' '') ts)"
  by (induction ts arbitrary: t) auto

lemma find_sub_space: "CHR '' '' \<notin> set t \<Longrightarrow> find_sub '' '' (t @ CHR '' '' # s) = Some (length t)"
  using find_sub_first [of "CHR '' ''" t "[]" s] by simp

lemma next_token_unwords [simp]:
  assumes "CHR '' '' \<notin> set t"
  shows "next_token (unwords (t # ts)) = (t, unwords ts)"
proof (cases ts)
  case Nil
  then show ?thesis using assms by (simp add: next_token_def find_sub_absent)
next
  case (Cons u us)
  then show ?thesis
    using find_sub_space [OF assms, of "unwords (u # us)"] by (simp add: next_token_def)
qed

definition id_ok :: "NodeId \<Rightarrow> bool" where
  "id_ok v \<longleftrightarrow> v \<noteq> [] \<and> CHR '' '' \<notin> set v"

lemma read_ids_unwords:
  "list_all id_ok vs \<Longrightarrow>
   read_ids (length vs) (unwords (vs @ ts)) acc = (fold set_insert vs acc, unwords ts)"
  by (induction vs arbitrary: acc) (auto simp: id_ok_def)

lemma read_counted_unwords:
  assumes "list_all id_ok vs" and "length vs < 2 ^ 64"
  shows "read_counted (unwords (to_string (length vs) # vs @ ts)) = Some (fold set_insert vs [], unwords ts)"
  using assms by (simp add: read_counted_def read_ids_unwords)

lemma cc_Serialize_unwords:
  "cc_Serialize c = unwords (''CONFIG_CHANGE'' # to_string (version (cc_target c))
     # to_string (length (voters (cc_target c))) # voters (cc_target c)
     @ to_string (length (learners (cc_target c))) # learners (cc_target c) @ [])"
  by (simp add: cc_Serialize_def unwords_Cons)

lemma cc_roundtrip:
  assumes "list_all id_ok (voters t)" "list_all id_ok (learners t)"
    and "version t < 2 ^ 64" "length (voters t) < 2 ^ 64" "length (learners t) < 2 ^ 64"
  shows "cc_Deserialize (cc_Serialize \<lparr>cc_target = t\<rparr>)
    = Some \<lparr>cc_target = \<lparr>version = version t, voters = fold set_insert (voters t) [],
        learners = fold set_insert (learners t) []\<rparr>\<rparr>"
  unfolding cc_Serialize_unwords cc_Deserialize_def
  using assms read_counted_unwords [of "learners t" "[]"]
  by (simp add: read_counted_unwords del: unwords.simps(3))

lemma parse_elements_two: "parse_elements d 2 p out = parse_elements d (Suc (Suc 0)) p out"
  by (simp add: numeral_2_eq_2)

section \<open>Properties\<close>

text \<open>C22: a command array that was written by \<open>EncodeRespArray\<close> is read back by
  \<open>ParseRespArray\<close> byte for byte, whatever the arguments contain (spaces, line ends, zero bytes)
  and whatever follows it in the buffer, provided the buffer is addressable.\<close>

theorem RespArray_roundtrip:
  assumes "length (EncodeRespArray args @ rest) < 2 ^ 64"
  shows "ParseRespArray (EncodeRespArray args @ rest) = (True, args)"
  using assms by (rule ParseRespArray_encode)

theorem RespArray_roundtrip_witness:
  "ParseRespArray (EncodeRespArray [''SET'', ''a b'', crlf] @ ''xyz'') = (True, [''SET'', ''a b'', crlf])"
  by (rule RespArray_roundtrip) (simp add: EncodeRespArray_def encode_arg_def to_string_eval(1))

text \<open>C23: a write command that \<^verbatim>\<open>CommandEncoder::Encode\<close> accepts survives the log: serialising
  the encoded command and deserialising the log bytes on a replica gives the same command type and
  the same arguments, when the first argument is the command's name.\<close>

theorem encoded_command_survives_log:
  assumes "CommandEncoder_Encode cid args = Some rc" and "args \<noteq> []" and "hd args = cid_name cid"
    and "length (EncodeRespArray args) < 2 ^ 64"
  shows "rc_Deserialize (rc_Serialize rc) = rc \<and> rc_args rc = args"
proof -
  have "rc_args rc = args" 
    using assms(1) by (auto simp: CommandEncoder_Encode_def split: if_splits)
  moreover have "rc_type rc = command_type_of args"
    using assms(1,2,3) by (cases args) (auto simp: CommandEncoder_Encode_def command_type_of_def
        split: if_splits)
  ultimately show ?thesis using assms(4) by (simp add: rc_Serialize_def rc_roundtrip)
qed

theorem encoded_command_survives_log_witness:
  "rc_Deserialize (rc_Serialize \<lparr>rc_type = DEL, rc_args = [''DEL'', ''k'']\<rparr>)
     = \<lparr>rc_type = DEL, rc_args = [''DEL'', ''k'']\<rparr>
   \<and> rc_args \<lparr>rc_type = DEL, rc_args = [''DEL'', ''k'']\<rparr> = [''DEL'', ''k'']"
  by (rule encoded_command_survives_log [where cid = "mk_CommandId ''DEL'' CO_WRITE (-2) 1 (-1) 1"])
     (simp_all add: CommandEncoder_Encode_def mk_CommandId_def mask_has_def CO_WRITE_def
        EncodeRespArray_def encode_arg_def to_string_eval(1))

text \<open>C24: a membership change whose node ids are non-empty and contain no space reads back as an
  equivalent configuration: same version, same voters and same learners, as duplicate-free sets.\<close>

theorem ConfigChange_roundtrip:
  assumes "list_all id_ok (voters t)" and "list_all id_ok (learners t)"
    and "version t < 2 ^ 64" and "length (voters t) < 2 ^ 64" and "length (learners t) < 2 ^ 64"
  shows "\<exists>c. cc_Deserialize (cc_Serialize \<lparr>cc_target = t\<rparr>) = Some c
    \<and> config_equiv (cc_target c) t \<and> config_wf (cc_target c)"
  using assms by (simp add: cc_roundtrip config_equiv_def config_wf_def)

theorem ConfigChange_roundtrip_witness:
  "\<exists>c. cc_Deserialize (cc_Serialize \<lparr>cc_target = \<lparr>version = 7, voters = [''n1'', ''n2''], learners = []\<rparr>\<rparr>) = Some c
    \<and> config_equiv (cc_target c) \<lparr>version = 7, voters = [''n1'', ''n2''], learners = []\<rparr>
    \<and> config_wf (cc_target c)"
  by (rule ConfigChange_roundtrip) (simp_all add: id_ok_def)



end
