(* ===== verification/Crc32.thy ===== *)
theory Crc32
  imports Prelude
begin

text \<open>
  CRC-32C (Castagnoli), \<^verbatim>\<open>server/raft/crc32.h\<close>: the checksum of the write-ahead log records and
  of the RPC frames. The table-driven routine is proved equal to the bit-serial definition of
  the checksum over the reflected polynomial \<open>0x82F63B78\<close>; from that form follow the composition
  law and the detection of every corruption that is confined to four consecutive bytes.
\<close>

section \<open>The table-driven routine\<close>

definition kTable :: "32 word list" where
  "kTable = [
    0x00000000, 0xF26B8303, 0xE13B70F7, 0x1350F3F4,
    0xC79A971F, 0x35F1141C, 0x26A1E7E8, 0xD4CA64EB,
    0x8AD958CF, 0x78B2DBCC, 0x6BE22838, 0x9989AB3B,
    0x4D43CFD0, 0xBF284CD3, 0xAC78BF27, 0x5E133C24,
    0x105EC76F, 0xE235446C, 0xF165B798, 0x030E349B,
    0xD7C45070, 0x25AFD373, 0x36FF2087, 0xC494A384,
    0x9A879FA0, 0x68EC1CA3, 0x7BBCEF57, 0x89D76C54,
    0x5D1D08BF, 0xAF768BBC, 0xBC267848, 0x4E4DFB4B,
    0x20BD8EDE, 0xD2D60DDD, 0xC186FE29, 0x33ED7D2A,
    0xE72719C1, 0x154C9AC2, 0x061C6936, 0xF477EA35,
    0xAA64D611, 0x580F5512, 0x4B5FA6E6, 0xB93425E5,
    0x6DFE410E, 0x9F95C20D, 0x8CC531F9, 0x7EAEB2FA,
    0x30E349B1, 0xC288CAB2, 0xD1D83946, 0x23B3BA45,
    0xF779DEAE, 0x05125DAD, 0x1642AE59, 0xE4292D5A,
    0xBA3A117E, 0x4851927D, 0x5B016189, 0xA96AE28A,
    0x7DA08661, 0x8FCB0562, 0x9C9BF696, 0x6EF07595,
    0x417B1DBC, 0xB3109EBF, 0xA0406D4B, 0x522BEE48,
    0x86E18AA3, 0x748A09A0, 0x67DAFA54, 0x95B17957,
    0xCBA24573, 0x39C9C670, 0x2A993584, 0xD8F2B687,
    0x0C38D26C, 0xFE53516F, 0xED03A29B, 0x1F682198,
    0x5125DAD3, 0xA34E59D0, 0xB01EAA24, 0x42752927,
    0x96BF4DCC, 0x64D4CECF, 0x77843D3B, 0x85EFBE38,
    0xDBFC821C, 0x2997011F, 0x3AC7F2EB, 0xC8AC71E8,
    0x1C661503, 0xEE0D9600, 0xFD5D65F4, 0x0F36E6F7,
    0x61C69362, 0x93AD1061, 0x80FDE395, 0x72966096,
    0xA65C047D, 0x5437877E, 0x4767748A, 0xB50CF789,
    0xEB1FCBAD, 0x197448AE, 0x0A24BB5A, 0xF84F3859,
    0x2C855CB2, 0xDEEEDFB1, 0xCDBE2C45, 0x3FD5AF46,
    0x7198540D, 0x83F3D70E, 0x90A324FA, 0x62C8A7F9,
    0xB602C312, 0x44694011, 0x5739B3E5, 0xA55230E6,
    0xFB410CC2, 0x092A8FC1, 0x1A7A7C35, 0xE811FF36,
    0x3CDB9BDD, 0xCEB018DE, 0xDDE0EB2A, 0x2F8B6829,
    0x82F63B78, 0x709DB87B, 0x63CD4B8F, 0x91A6C88C,
    0x456CAC67, 0xB7072F64, 0xA457DC90, 0x563C5F93,
    0x082F63B7, 0xFA44E0B4, 0xE9141340, 0x1B7F9043,
    0xCFB5F4A8, 0x3DDE77AB, 0x2E8E845F, 0xDCE5075C,
    0x92A8FC17, 0x60C37F14, 0x73938CE0, 0x81F80FE3,
    0x55326B08, 0xA759E80B, 0xB4091BFF, 0x466298FC,
    0x1871A4D8, 0xEA1A27DB, 0xF94AD42F, 0x0B21572C,
    0xDFEB33C7, 0x2D80B0C4, 0x3ED04330, 0xCCBBC033,
    0xA24BB5A6, 0x502036A5, 0x4370C551, 0xB11B4652,
    0x65D122B9, 0x97BAA1BA, 0x84EA524E, 0x7681D14D,
    0x2892ED69, 0xDAF96E6A, 0xC9A99D9E, 0x3BC21E9D,
    0xEF087A76, 0x1D63F975, 0x0E330A81, 0xFC588982,
    0xB21572C9, 0x407EF1CA, 0x532E023E, 0xA145813D,
    0x758FE5D6, 0x87E466D5, 0x94B49521, 0x66DF1622,
    0x38CC2A06, 0xCAA7A905, 0xD9F75AF1, 0x2B9CD9F2,
    0xFF56BD19, 0x0D3D3E1A, 0x1E6DCDEE, 0xEC064EED,
    0xC38D26C4, 0x31E6A5C7, 0x22B65633, 0xD0DDD530,
    0x0417B1DB, 0xF67C32D8, 0xE52CC12C, 0x1747422F,
    0x49547E0B, 0xBB3FFD08, 0xA86F0EFC, 0x5A048DFF,
    0x8ECEE914, 0x7CA56A17, 0x6FF599E3, 0x9D9E1AE0,
    0xD3D3E1AB, 0x21B862A8, 0x32E8915C, 0xC083125F,
    0x144976B4, 0xE622F5B7, 0xF5720643, 0x07198540,
    0x590AB964, 0xAB613A67, 0xB831C993, 0x4A5A4A90,
    0x9E902E7B, 0x6CFBAD78, 0x7FAB5E8C, 0x8DC0DD8F,
    0xE330A81A, 0x115B2B19, 0x020BD8ED, 0xF0605BEE,
    0x24AA3F05, 0xD6C1BC06, 0xC5914FF2, 0x37FACCF1,
    0x69E9F0D5, 0x9B8273D6, 0x88D28022, 0x7AB90321,
    0xAE7367CA, 0x5C18E4C9, 0x4F48173D, 0xBD23943E,
    0xF36E6F75, 0x0105EC76, 0x12551F82, 0xE03E9C81,
    0x34F4F86A, 0xC69F7B69, 0xD5CF889D, 0x27A40B9E,
    0x79B737BA, 0x8BDCB4B9, 0x988C474D, 0x6AE7C44E,
    0xBE2DA0A5, 0x4C4623A6, 0x5F16D052, 0xAD7D5351]"

definition crc_step :: "32 word \<Rightarrow> char \<Rightarrow> 32 word" where
  "crc_step crc c =
     kTable ! unat ((crc XOR of_nat (of_char c)) AND 0xFF) XOR drop_bit 8 crc"

definition ComputeCrc32 :: "string \<Rightarrow> 32 word \<Rightarrow> 32 word" where
  "ComputeCrc32 data crc = NOT (foldl crc_step (NOT crc) data)"

abbreviation crc32 :: "string \<Rightarrow> 32 word" where
  "crc32 data \<equiv> ComputeCrc32 data 0"

section \<open>The bit-serial reference\<close>

definition crc_bit :: "32 word \<Rightarrow> 32 word" where
  "crc_bit c = (if bit c 0 then drop_bit 1 c XOR 0x82F63B78 else drop_bit 1 c)"

definition crc_byte :: "32 word \<Rightarrow> char \<Rightarrow> 32 word" where
  "crc_byte crc c = (crc_bit ^^ 8) (crc XOR of_nat (of_char c))"

definition crc32c_ref :: "string \<Rightarrow> 32 word \<Rightarrow> 32 word" where
  "crc32c_ref data crc = NOT (foldl crc_byte (NOT crc) data)"

section \<open>The reference is linear and injective\<close>

lemma crc_bit_xor: "crc_bit (a XOR b) = crc_bit a XOR crc_bit b"
proof -
  have "drop_bit 1 (a XOR b) = drop_bit 1 a XOR drop_bit 1 b" by simp
  moreover have "bit (a XOR b) 0 \<longleftrightarrow> bit a 0 \<noteq> bit b 0" by (simp add: bit_xor_iff)
  ultimately show ?thesis
    by (simp add: crc_bit_def xor.assoc xor.commute xor.left_commute)
qed

lemma crc_bits_xor: "(crc_bit ^^ n) (a XOR b) = (crc_bit ^^ n) a XOR (crc_bit ^^ n) b"
  by (induction n) (simp_all add: crc_bit_xor)

lemma crc_bits_push:
  "(\<And>i. bit w i \<Longrightarrow> i + n < 32) \<Longrightarrow> (crc_bit ^^ n) (push_bit n w) = w"
proof (induction n)
  case (Suc n)
  have low: "\<not> bit (push_bit (Suc n) w) 0" by (simp only: bit_push_bit_iff) simp
  have eq: "drop_bit 1 (push_bit (Suc n) w) = push_bit n w"
  proof (rule bit_word_eqI)
    fix i assume "i < LENGTH(32)"
    then show "bit (drop_bit 1 (push_bit (Suc n) w)) i = bit (push_bit n w) i"
      using Suc.prems [of "i - n"]
      by (auto simp: bit_drop_bit_eq bit_push_bit_iff simp del: push_bit_Suc)
  qed
  have "(crc_bit ^^ n) (push_bit n w) = w" using Suc by fastforce
  moreover have "crc_bit (push_bit (Suc n) w) = push_bit n w"
    using low eq by (simp only: crc_bit_def if_False)
  ultimately show ?case
    by (simp add: funpow_Suc_right del: funpow.simps push_bit_Suc)
qed simp

lemma crc_bit_inj: "crc_bit a = crc_bit b \<Longrightarrow> a = b"
proof -
  assume eq: "crc_bit a = crc_bit b"
  have top: "bit (crc_bit x) 31 = bit x 0" for x
    by (auto simp: crc_bit_def bit_simps dest: bit_imp_le_length)
  from eq top [of a] top [of b] have low: "bit a 0 = bit b 0" by simp
  have cancel: "x XOR m = y XOR m \<Longrightarrow> x = y" for x y m :: "32 word"
    by (metis xor.assoc xor.right_neutral xor_self_eq)
  from eq low have "drop_bit 1 a = drop_bit 1 b"
    by (auto simp: crc_bit_def split: if_splits dest: cancel)
  then have high: "bit a (Suc i) = bit b (Suc i)" for i
    by (metis bit_drop_bit_eq comp_apply plus_1_eq_Suc)
  show "a = b"
  proof (rule bit_word_eqI)
    fix n show "bit a n = bit b n" using low high by (cases n) auto
  qed
qed

lemma crc_bits_inj: "(crc_bit ^^ n) a = (crc_bit ^^ n) b \<Longrightarrow> a = b"
  by (induction n) (auto dest: crc_bit_inj)

section \<open>Every table entry is the checksum of its index\<close>

lemma length_kTable [simp]: "length kTable = 256"
  by (simp add: kTable_def)

text \<open>The table doubles: its entries from \<open>2 ^ k\<close> on are the first \<open>2 ^ k\<close> entries plus the
  entry at \<open>2 ^ k\<close>, so eight basis entries determine it.\<close>

lemma kTable_double:
  "take 1 (drop 1 kTable) = map ((XOR) 0xF26B8303) (take 1 kTable)"
  "take 2 (drop 2 kTable) = map ((XOR) 0xE13B70F7) (take 2 kTable)"
  "take 4 (drop 4 kTable) = map ((XOR) 0xC79A971F) (take 4 kTable)"
  "take 8 (drop 8 kTable) = map ((XOR) 0x8AD958CF) (take 8 kTable)"
  "take 16 (drop 16 kTable) = map ((XOR) 0x105EC76F) (take 16 kTable)"
  "take 32 (drop 32 kTable) = map ((XOR) 0x20BD8EDE) (take 32 kTable)"
  "take 64 (drop 64 kTable) = map ((XOR) 0x417B1DBC) (take 64 kTable)"
  "take 128 (drop 128 kTable) = map ((XOR) 0x82F63B78) (take 128 kTable)"
  by (simp_all add: kTable_def)

definition table_entry :: "nat \<Rightarrow> 32 word" where
  "table_entry n = (crc_bit ^^ 8) (of_nat n)"

lemma funpow_8: "(f ^^ 8) x = f (f (f (f (f (f (f (f x)))))))"
  by (simp add: numeral_eq_Suc)

lemma table_entry_basis:
  "table_entry 1 = 0xF26B8303" "table_entry 2 = 0xE13B70F7" "table_entry 4 = 0xC79A971F"
  "table_entry 8 = 0x8AD958CF" "table_entry 16 = 0x105EC76F" "table_entry 32 = 0x20BD8EDE"
  "table_entry 64 = 0x417B1DBC" "table_entry 128 = 0x82F63B78"
  by (simp_all only: table_entry_def funpow_8 of_nat_numeral of_nat_1) (simp_all add: crc_bit_def)

lemma of_nat_xor_disjoint:
  assumes "j < 2 ^ k"
  shows "(of_nat (2 ^ k + j) :: 32 word) = of_nat (2 ^ k) XOR of_nat j"
proof -
  have "(2 ^ k AND take_bit k j :: nat) = 0"
    by (rule bit_eqI) (auto simp: bit_simps)
  moreover have "take_bit k j = j" using assms by (rule take_bit_nat_eq_self)
  ultimately have "2 ^ k + j = 2 ^ k XOR j" by (simp add: disjunctive_add_eq_xor)
  then show ?thesis by (simp only: of_nat_xor_eq)
qed

lemma table_entry_double:
  "j < 2 ^ k \<Longrightarrow> table_entry (2 ^ k + j) = table_entry (2 ^ k) XOR table_entry j"
  unfolding table_entry_def by (simp only: of_nat_xor_disjoint crc_bits_xor)

definition table_upto :: "nat \<Rightarrow> bool" where
  "table_upto m \<longleftrightarrow> (\<forall>i < m. kTable ! i = table_entry i)"

lemma kTable_step:
  assumes "take m (drop m kTable) = map ((XOR) e) (take m kTable)" and "table_entry m = e"
    and "m = 2 ^ k" and "2 * m \<le> 256" and "table_upto m"
  shows "table_upto (2 * m)"
  unfolding table_upto_def
proof (intro allI impI)
  fix i :: nat assume i: "i < 2 * m"
  show "kTable ! i = table_entry i"
  proof (cases "i < m")
    case True
    with assms(5) show ?thesis by (simp add: table_upto_def)
  next
    case False
    then obtain j where j: "i = m + j" by (metis le_Suc_ex linorder_not_le)
    with i have jm: "j < m" by simp
    have "kTable ! i = take m (drop m kTable) ! j"
      using j jm assms(4) by (simp add: nth_drop)
    also have "\<dots> = e XOR kTable ! j"
      using jm assms(1,4) by simp
    also have "\<dots> = table_entry i"
      using j jm assms(2,3,5) by (simp add: table_entry_double table_upto_def)
    finally show ?thesis .
  qed
qed

lemma kTable_entries: "i < 256 \<Longrightarrow> kTable ! i = table_entry i"
proof -
  note step = kTable_double(1) [THEN kTable_step, OF table_entry_basis(1), of 0]
    kTable_double(2) [THEN kTable_step, OF table_entry_basis(2), of 1]
    kTable_double(3) [THEN kTable_step, OF table_entry_basis(3), of 2]
    kTable_double(4) [THEN kTable_step, OF table_entry_basis(4), of 3]
    kTable_double(5) [THEN kTable_step, OF table_entry_basis(5), of 4]
    kTable_double(6) [THEN kTable_step, OF table_entry_basis(6), of 5]
    kTable_double(7) [THEN kTable_step, OF table_entry_basis(7), of 6]
    kTable_double(8) [THEN kTable_step, OF table_entry_basis(8), of 7]
  have "kTable ! 0 = 0" by (simp add: kTable_def)
  moreover have "table_entry 0 = 0" using crc_bits_xor [of 8 0 0] by (simp add: table_entry_def)
  ultimately have "table_upto 1" by (simp add: table_upto_def)
  then have "table_upto 2" using step(1) by simp
  then have "table_upto 4" using step(2) by simp
  then have "table_upto 8" using step(3) by simp
  then have "table_upto 16" using step(4) by simp
  then have "table_upto 32" using step(5) by simp
  then have "table_upto 64" using step(6) by simp
  then have "table_upto 128" using step(7) by simp
  then have "table_upto 256" using step(8) by simp
  then show "i < 256 \<Longrightarrow> kTable ! i = table_entry i" by (simp add: table_upto_def)
qed

section \<open>The routine computes the reference\<close>

lemma split_low_byte: "x = (x AND 0xFF) XOR push_bit 8 (drop_bit 8 x)" for x :: "32 word"
proof (rule bit_word_eqI)
  fix i assume "i < LENGTH(32)"
  have ff: "(0xFF :: 32 word) = mask 8" by (simp add: mask_eq_exp_minus_1)
  show "bit x i = bit ((x AND 0xFF) XOR push_bit 8 (drop_bit 8 x)) i"
    unfolding ff by (auto simp: bit_simps dest: bit_imp_le_length)
qed

lemma of_char_small: "drop_bit 8 (of_nat (of_char c) :: 32 word) = 0"
proof -
  have "drop_bit 8 (of_char c :: nat) = 0"
    using nat_of_char_less_256 [of c] by (simp add: drop_bit_eq_div)
  then have "\<not> bit (of_char c :: nat) (8 + i)" for i
    by (metis bit_0_eq bit_drop_bit_eq bot_apply bot_bool_def comp_apply)
  then show ?thesis by (intro bit_word_eqI) (simp add: bit_simps)
qed

lemma crc_step_byte: "crc_step crc c = crc_byte crc c"
proof -
  define x where "x = crc XOR of_nat (of_char c)"
  have small: "unat (x AND 0xFF) < 256"
    using word_and_le1 [of x "0xFF"] by (simp add: word_le_nat_alt)
  have "crc_byte crc c = (crc_bit ^^ 8) ((x AND 0xFF) XOR push_bit 8 (drop_bit 8 x))"
    using split_low_byte [of x] by (simp add: crc_byte_def x_def)
  also have "\<dots> = (crc_bit ^^ 8) (x AND 0xFF) XOR drop_bit 8 x"
    by (simp only: crc_bits_xor) (subst crc_bits_push; auto simp: bit_simps dest: bit_imp_le_length)
  also have "(crc_bit ^^ 8) (x AND 0xFF) = table_entry (unat (x AND 0xFF))"
    by (simp add: table_entry_def)
  also have "\<dots> = kTable ! unat (x AND 0xFF)"
    using kTable_entries [OF small] by simp
  also have "drop_bit 8 x = drop_bit 8 crc"
    by (simp add: x_def of_char_small)
  finally show ?thesis by (simp add: crc_step_def x_def)
qed

lemma ComputeCrc32_ref: "ComputeCrc32 data crc = crc32c_ref data crc"
proof -
  have "crc_step = crc_byte" by (intro ext) (rule crc_step_byte)
  then show ?thesis by (simp add: ComputeCrc32_def crc32c_ref_def)
qed

section \<open>Composition and error detection\<close>

lemma ComputeCrc32_append: "ComputeCrc32 (xs @ ys) crc = ComputeCrc32 ys (ComputeCrc32 xs crc)"
  by (simp add: ComputeCrc32_def)

text \<open>Up to four bytes processed from state \<open>s\<close> act as one little-endian word added to \<open>s\<close>.\<close>

lemma crc_window:
  "length ws \<le> 4 \<Longrightarrow>
     foldl crc_byte s ws = (crc_bit ^^ (8 * length ws)) (s XOR of_nat (le_val ws))"
proof (induction ws arbitrary: s)
  case Nil
  then show ?case by simp
next
  case (Cons c cs)
  let ?w = "of_nat (le_val cs) :: 32 word"
  have "le_val cs < 256 ^ 3"
    using le_val_less [of cs] Cons.prems power_increasing [of "length cs" 3 "256::nat"] by simp
  then have "take_bit 24 (le_val cs) = le_val cs" by (simp add: take_bit_nat_eq_self)
  then have "bit (le_val cs) i \<Longrightarrow> i < 24" for i
    by (metis bit_take_bit_iff)
  then have bnd: "bit ?w i \<Longrightarrow> i + 8 < 32" for i
    by (fastforce simp: bit_simps)
  have split: "(of_nat (le_val (c # cs)) :: 32 word) = of_nat (of_char c) XOR push_bit 8 ?w"
  proof -
    have "(of_char c AND push_bit 8 (le_val cs) :: nat) = 0"
    proof -
      have "take_bit 8 (of_char c :: nat) = of_char c"
        using nat_of_char_less_256 [of c] by (simp add: take_bit_nat_eq_self)
      then have "(of_char c AND push_bit 8 (le_val cs) :: nat)
          = take_bit 8 (of_char c) AND push_bit 8 (le_val cs)" by simp
      also have "\<dots> = 0" by (rule bit_eqI) (auto simp: bit_simps)
      finally show ?thesis .
    qed
    then have "le_val (c # cs) = of_char c XOR push_bit 8 (le_val cs)"
      by (simp add: disjunctive_add_eq_xor [symmetric] push_bit_eq_mult)
    then show ?thesis by (simp only: of_nat_xor_eq push_bit_of_nat)
  qed
  have "foldl crc_byte s (c # cs)
      = (crc_bit ^^ (8 * length cs)) (crc_byte s c XOR ?w)"
    using Cons by simp
  also have "crc_byte s c XOR ?w = (crc_bit ^^ 8) (s XOR of_nat (le_val (c # cs)))"
    by (simp only: split crc_byte_def crc_bits_xor crc_bits_push [OF bnd] xor.assoc)
  finally show ?case
    by (simp add: funpow_add [symmetric, THEN fun_cong, unfolded comp_apply] add.commute)
qed

lemma crc_fold_inj: "foldl crc_byte a ws = foldl crc_byte b ws \<Longrightarrow> a = b"
proof (induction ws arbitrary: a b)
  case (Cons c ws)
  then have "crc_byte a c = crc_byte b c" by simp
  then have "a XOR of_nat (of_char c) = b XOR of_nat (of_char c)"
    unfolding crc_byte_def by (rule crc_bits_inj)
  then show ?case by (metis xor.assoc xor.right_neutral xor_self_eq)
qed simp

lemma le_val_inject: "length u = length v \<Longrightarrow> le_val u = le_val v \<Longrightarrow> u = v"
  by (metis le_bytes_le_val)

lemma crc_window_inj:
  assumes "length u = length v" and "length u \<le> 4"
    and "foldl crc_byte s u = foldl crc_byte s v"
  shows "u = v"
proof -
  have "s XOR of_nat (le_val u) = s XOR of_nat (le_val v)"
    using assms crc_bits_inj by (simp add: crc_window)
  then have "(of_nat (le_val u) :: 32 word) = of_nat (le_val v)"
    by (metis xor.assoc xor.left_neutral xor_self_eq)
  moreover have "le_val w < 2 ^ 32" if "length w \<le> 4" for w
    using le_val_less [of w] power_increasing [OF that, of "256::nat"] by simp
  ultimately have "le_val u = le_val v"
    using assms(1,2) by (simp add: word_of_nat_eq_iff take_bit_nat_eq_self)
  with assms(1) show ?thesis by (rule le_val_inject)
qed

lemma crc32_burst:
  assumes "length u = length v" and "length u \<le> 4" and "u \<noteq> v"
  shows "ComputeCrc32 (xs @ u @ ys) crc \<noteq> ComputeCrc32 (xs @ v @ ys) crc"
proof
  assume "ComputeCrc32 (xs @ u @ ys) crc = ComputeCrc32 (xs @ v @ ys) crc"
  then have "foldl crc_byte (foldl crc_byte (foldl crc_byte (NOT crc) xs) u) ys
      = foldl crc_byte (foldl crc_byte (foldl crc_byte (NOT crc) xs) v) ys"
    by (simp add: ComputeCrc32_ref crc32c_ref_def)
  then have "foldl crc_byte (foldl crc_byte (NOT crc) xs) u = foldl crc_byte (foldl crc_byte (NOT crc) xs) v"
    by (rule crc_fold_inj)
  with assms(1,2) have "u = v" by (rule crc_window_inj)
  with assms(3) show False by contradiction
qed

section \<open>Properties\<close>

text \<open>C19: the table-driven checksum \<^verbatim>\<open>ComputeCrc32\<close> is the bit-serial CRC-32C
  (Castagnoli polynomial, reflected) of the data, for every input and every seed; in particular
  all 256 entries of the table are right.\<close>

theorem ComputeCrc32_is_crc32c: "ComputeCrc32 data crc = crc32c_ref data crc"
  by (rule ComputeCrc32_ref)

text \<open>C20: burst detection. Two byte strings of equal length that agree outside a window of at
  most four consecutive bytes and differ inside it never have the same checksum, whatever the
  seed: a damaged record of this kind is always rejected.\<close>

theorem ComputeCrc32_detects_burst:
  assumes "length u = length v" and "length u \<le> 4" and "u \<noteq> v"
  shows "ComputeCrc32 (xs @ u @ ys) crc \<noteq> ComputeCrc32 (xs @ v @ ys) crc"
  using assms by (rule crc32_burst)

theorem ComputeCrc32_detects_burst_witness:
  "ComputeCrc32 (''ab'' @ ''xy'' @ ''c'') 0 \<noteq> ComputeCrc32 (''ab'' @ ''zy'' @ ''c'') 0"
  by (rule ComputeCrc32_detects_burst) simp_all

end
