(* ===== verification/File_System.thy ===== *)
theory File_System
  imports Prelude
begin

text \<open>
  The slice of POSIX and stdio the storage code uses, on one flat directory: files by name, each
  with its content and the length of the prefix known to be on stable storage. \<open>fs_append\<close> is
  \<^verbatim>\<open>fwrite\<close> and \<^verbatim>\<open>fflush\<close> on a handle opened for appending (the bytes reach the page cache),
  \<open>fs_sync\<close> is \<^verbatim>\<open>fdatasync\<close>. The calls succeed; what can go wrong is a crash: a killed process
  leaves the directory as it is, a power failure (\<open>power_failure\<close>) cuts every file at some point
  at or after its synced prefix.
\<close>

record disk_file =
  f_data :: string
  f_synced :: nat

type_synonym directory = "(string \<times> disk_file) list"

definition fs_read :: "directory \<Rightarrow> string \<Rightarrow> string option" where
  "fs_read d name = map_option f_data (map_of d name)"

definition fs_exists :: "directory \<Rightarrow> string \<Rightarrow> bool" where
  "fs_exists d name \<longleftrightarrow> map_of d name \<noteq> None"

abbreviation fs_put :: "string \<Rightarrow> disk_file \<Rightarrow> directory \<Rightarrow> directory" where
  "fs_put \<equiv> alist_put"

definition fs_unlink :: "string \<Rightarrow> directory \<Rightarrow> directory" where
  "fs_unlink name d = alist_del name d"

definition fs_open_append :: "string \<Rightarrow> directory \<Rightarrow> directory" where
  "fs_open_append name d =
     (if fs_exists d name then d else fs_put name \<lparr>f_data = [], f_synced = 0\<rparr> d)"

definition fs_open_trunc :: "string \<Rightarrow> directory \<Rightarrow> directory" where
  "fs_open_trunc name d = fs_put name \<lparr>f_data = [], f_synced = 0\<rparr> d"

definition fs_append :: "string \<Rightarrow> string \<Rightarrow> directory \<Rightarrow> directory" where
  "fs_append name bs d =
     (case map_of d name of None \<Rightarrow> d | Some f \<Rightarrow> fs_put name (f\<lparr>f_data := f_data f @ bs\<rparr>) d)"

text \<open>Writing at an offset inside the file (\<^verbatim>\<open>fseek\<close> and \<^verbatim>\<open>fwrite\<close> on a handle opened for writing).\<close>

definition fs_pwrite :: "string \<Rightarrow> nat \<Rightarrow> string \<Rightarrow> directory \<Rightarrow> directory" where
  "fs_pwrite name off bs d =
     (case map_of d name of
        None \<Rightarrow> d
      | Some f \<Rightarrow>
          fs_put name \<lparr>f_data = take off (f_data f) @ bs @ drop (off + length bs) (f_data f),
                       f_synced = min off (f_synced f)\<rparr> d)"

definition fs_sync :: "string \<Rightarrow> directory \<Rightarrow> directory" where
  "fs_sync name d =
     (case map_of d name of
        None \<Rightarrow> d
      | Some f \<Rightarrow> fs_put name (f\<lparr>f_synced := length (f_data f)\<rparr>) d)"

definition fs_truncate :: "string \<Rightarrow> nat \<Rightarrow> directory \<Rightarrow> directory" where
  "fs_truncate name n d =
     (case map_of d name of
        None \<Rightarrow> d
      | Some f \<Rightarrow>
          fs_put name \<lparr>f_data = take n (f_data f) @ replicate (n - length (f_data f)) (CHR 0x00),
                       f_synced = min n (f_synced f)\<rparr> d)"

definition fs_rename :: "string \<Rightarrow> string \<Rightarrow> directory \<Rightarrow> directory" where
  "fs_rename old new d =
     (case map_of d old of None \<Rightarrow> d | Some f \<Rightarrow> fs_put new f (fs_unlink old d))"

definition file_cut :: "disk_file \<Rightarrow> disk_file \<Rightarrow> bool" where
  "file_cut f f' \<longleftrightarrow> (\<exists>n. f_synced f \<le> n \<and> f_data f' = take n (f_data f))"

definition power_failure :: "directory \<Rightarrow> directory \<Rightarrow> bool" where
  "power_failure d d' \<longleftrightarrow> list_all2 (\<lambda>x y. fst x = fst y \<and> file_cut (snd x) (snd y)) d d'"

text \<open>What a machine reads when it comes up again is on stable storage.\<close>

definition fs_reboot :: "directory \<Rightarrow> directory" where
  "fs_reboot d = map (\<lambda>(name, f). (name, f\<lparr>f_synced := length (f_data f)\<rparr>)) d"

section \<open>Lookups after updates\<close>

lemma map_of_fs_unlink [simp]: "map_of (fs_unlink name d) = (map_of d)(name := None)"
  by (simp add: fs_unlink_def)

lemma map_of_fs_reboot: "map_of (fs_reboot d) name = map_option (\<lambda>f. f\<lparr>f_synced := length (f_data f)\<rparr>) (map_of d name)"
  unfolding fs_reboot_def by (induction d) auto

lemma fs_read_put [simp]:
  "fs_read (fs_put name f d) m = (if m = name then Some (f_data f) else fs_read d m)"
  by (simp add: fs_read_def)

lemma fs_read_append [simp]:
  "fs_read (fs_append name bs d) m =
     (if m = name then map_option (\<lambda>s. s @ bs) (fs_read d m) else fs_read d m)"
  by (auto simp: fs_append_def fs_read_def split: option.splits)

lemma fs_read_pwrite [simp]:
  "fs_read (fs_pwrite name off bs d) m =
     (if m = name then map_option (\<lambda>s. take off s @ bs @ drop (off + length bs) s) (fs_read d m) else fs_read d m)"
  by (auto simp: fs_pwrite_def fs_read_def split: option.splits)

lemma fs_read_open_trunc [simp]: "fs_read (fs_open_trunc name d) m = (if m = name then Some [] else fs_read d m)"
  by (simp add: fs_open_trunc_def fs_read_def)

lemma fs_read_rename [simp]:
  "fs_read (fs_rename old new d) m =
     (if fs_read d old = None then fs_read d m
      else if m = new then fs_read d old else if m = old then None else fs_read d m)"
  by (auto simp: fs_rename_def fs_read_def split: option.splits)

lemma fs_read_sync [simp]: "fs_read (fs_sync name d) m = fs_read d m"
  by (auto simp: fs_sync_def fs_read_def split: option.splits)

lemma fs_read_unlink [simp]: "fs_read (fs_unlink name d) m = (if m = name then None else fs_read d m)"
  by (simp add: fs_read_def)

lemma fs_read_open_append [simp]:
  "fs_read (fs_open_append name d) m =
     (if m = name \<and> fs_read d name = None then Some [] else fs_read d m)"
  by (auto simp: fs_open_append_def fs_exists_def fs_read_def)

lemma fs_exists_read: "fs_exists d name \<longleftrightarrow> fs_read d name \<noteq> None"
  by (simp add: fs_exists_def fs_read_def)

text \<open>A call on one file leaves the others alone.\<close>

lemma map_of_fs_other:
  "p \<noteq> name \<Longrightarrow> map_of (fs_append name bs d) p = map_of d p"
  "p \<noteq> name \<Longrightarrow> map_of (fs_open_append name d) p = map_of d p"
  "p \<noteq> name \<Longrightarrow> map_of (fs_open_trunc name d) p = map_of d p"
  "p \<noteq> name \<Longrightarrow> map_of (fs_pwrite name off bs d) p = map_of d p"
  "p \<noteq> name \<Longrightarrow> map_of (fs_sync name d) p = map_of d p"
  "p \<noteq> name \<Longrightarrow> p \<noteq> name' \<Longrightarrow> map_of (fs_rename name name' d) p = map_of d p"
  by (simp_all add: fs_append_def fs_open_append_def fs_open_trunc_def fs_pwrite_def fs_sync_def fs_rename_def
      split: option.split)

text \<open>Names present in the directory, in \<^verbatim>\<open>readdir\<close> order.\<close>

definition fs_names :: "directory \<Rightarrow> string list" where
  "fs_names d = map fst d"

lemma fs_names_append [simp]: "fs_names (fs_append name bs d) = fs_names d"
  by (auto simp: fs_names_def fs_append_def map_fst_alist_put_Some split: option.splits)

lemma fs_names_sync [simp]: "fs_names (fs_sync name d) = fs_names d"
  by (auto simp: fs_names_def fs_sync_def map_fst_alist_put_Some split: option.splits)

lemma fs_names_read: "name \<in> set (fs_names d) \<longleftrightarrow> fs_read d name \<noteq> None"
  using map_of_eq_None_iff [of d name] by (auto simp: fs_names_def fs_read_def)

lemma file_cut_refl [simp]: "file_cut f f"
  unfolding file_cut_def by (rule exI [of _ "f_synced f + length (f_data f)"]) simp

lemma power_failure_refl [simp]: "power_failure d d"
  by (simp add: power_failure_def list.rel_refl)

lemma power_failure_names: "power_failure d d' \<Longrightarrow> fs_names d' = fs_names d"
  unfolding power_failure_def fs_names_def by (induction rule: list_all2_induct) auto

lemma power_failure_map_of:
  "power_failure d d' \<Longrightarrow> rel_option file_cut (map_of d name) (map_of d' name)"
  unfolding power_failure_def by (induction rule: list_all2_induct) (auto split: prod.splits)

text \<open>A file whose whole content is synced survives a power failure unchanged.\<close>

lemma power_failure_synced:
  assumes "power_failure d d'" and "map_of d name = Some f" and "f_synced f = length (f_data f)"
  shows "fs_read d' name = fs_read d name"
proof -
  obtain f' where "map_of d' name = Some f'" "file_cut f f'"
    using power_failure_map_of [OF assms(1), of name] assms(2)
    by (auto simp: option_rel_Some1)
  then show ?thesis using assms(2,3) by (auto simp: fs_read_def file_cut_def)
qed

end
