(* ===== verification/Wal.thy ===== *)
theory Wal
  imports Crc32 Raft_Types File_System
begin

text \<open>
  The pieces below the segmented log: the record format and buffered writer of
  \<^verbatim>\<open>server/raft/wal_writer.{h,cc}\<close>, the location index of \<^verbatim>\<open>wal_index.h\<close> and the manifest of
  \<^verbatim>\<open>manifest.{h,cc}\<close>. A writer is a handle (the name of the open file), the size it believes the
  file has, and its buffer; operations act on the pair of directory and writer.
\<close>

section \<open>Records\<close>

record RecordHeader =
  hdr_index :: nat
  hdr_term :: nat
  hdr_size :: nat
  hdr_crc32 :: nat

definition kHeaderSize :: nat where
  "kHeaderSize = 24"

definition header_of :: "LogEntry \<Rightarrow> RecordHeader" where
  "header_of e = \<lparr>hdr_index = entry_index e, hdr_term = entry_term e,
     hdr_size = length (command e) mod 2 ^ 32, hdr_crc32 = unat (crc32 (command e))\<rparr>"

definition header_bytes :: "RecordHeader \<Rightarrow> string" where
  "header_bytes h =
     le_bytes 8 (hdr_index h) @ le_bytes 8 (hdr_term h) @ le_bytes 4 (hdr_size h)
     @ le_bytes 4 (hdr_crc32 h)"

definition read_header :: "string \<Rightarrow> RecordHeader" where
  "read_header bs =
     \<lparr>hdr_index = le_val (take 8 bs), hdr_term = le_val (take 8 (drop 8 bs)),
      hdr_size = le_val (take 4 (drop 16 bs)), hdr_crc32 = le_val (take 4 (drop 20 bs))\<rparr>"

definition record_bytes :: "LogEntry \<Rightarrow> string" where
  "record_bytes e = header_bytes (header_of e) @ command e"

lemma length_header_bytes [simp, codec_simps]: "length (header_bytes h) = 24"
  by (simp add: header_bytes_def)

lemma length_record_bytes [simp, codec_simps]: "length (record_bytes e) = 24 + length (command e)"
  by (simp add: record_bytes_def)

lemma read_header_bytes [codec_simps]:
  assumes "hdr_index h < 2 ^ 64" "hdr_term h < 2 ^ 64" "hdr_size h < 2 ^ 32" "hdr_crc32 h < 2 ^ 32"
  shows "read_header (header_bytes h @ rest) = h"
  using assms by (simp add: read_header_def header_bytes_def)

text \<open>Entries the header can carry faithfully.\<close>

definition entry_ok :: "LogEntry \<Rightarrow> bool" where
  "entry_ok e \<longleftrightarrow> entry_index e < 2 ^ 64 \<and> entry_term e < 2 ^ 64 \<and> length (command e) < 2 ^ 32
     \<and> command e \<noteq> []"

lemma read_header_record [codec_simps]:
  assumes "entry_ok e"
  shows "read_header (record_bytes e @ rest) = header_of e"
proof -
  have "unat (crc32 (command e)) < 2 ^ 32" using unsigned_less [of "crc32 (command e)"] by simp
  then have "read_header (header_bytes (header_of e) @ command e @ rest) = header_of e"
    using assms by (intro read_header_bytes) (auto simp: header_of_def entry_ok_def)
  then show ?thesis by (simp add: record_bytes_def)
qed

section \<open>The writer\<close>

record WalWriter =
  ww_file :: "string option"
  ww_file_size :: nat
  ww_buf :: string

definition ww_new :: WalWriter where
  "ww_new = \<lparr>ww_file = None, ww_file_size = 0, ww_buf = []\<rparr>"

definition ww_OpenAppend :: "string \<Rightarrow> directory \<times> WalWriter \<Rightarrow> bool \<times> directory \<times> WalWriter" where
  "ww_OpenAppend path dw =
     (case dw of (d, w) \<Rightarrow>
        if ww_file w \<noteq> None then (False, d, w)
        else
          let d' = fs_open_append path d
          in (True, d', \<lparr>ww_file = Some path, ww_file_size = length (the (fs_read d' path)), ww_buf = []\<rparr>))"

definition ww_Open :: "string \<Rightarrow> directory \<times> WalWriter \<Rightarrow> bool \<times> directory \<times> WalWriter" where
  "ww_Open path dw =
     (case dw of (d, w) \<Rightarrow>
        if ww_file w \<noteq> None then (False, d, w)
        else (True, fs_open_trunc path d, \<lparr>ww_file = Some path, ww_file_size = 0, ww_buf = []\<rparr>))"

definition ww_Append :: "LogEntry \<Rightarrow> WalWriter \<Rightarrow> WalWriter" where
  "ww_Append e w = w\<lparr>ww_buf := ww_buf w @ record_bytes e\<rparr>"

definition ww_Flush :: "directory \<times> WalWriter \<Rightarrow> bool \<times> directory \<times> WalWriter" where
  "ww_Flush dw =
     (case dw of (d, w) \<Rightarrow>
        (case ww_file w of
           None \<Rightarrow> (False, d, w)
         | Some path \<Rightarrow>
             if ww_buf w = [] then (True, d, w)
             else (True, fs_sync path (fs_append path (ww_buf w) d),
                   w\<lparr>ww_file_size := ww_file_size w + length (ww_buf w), ww_buf := []\<rparr>)))"

definition ww_WriteNoSync :: "directory \<times> WalWriter \<Rightarrow> bool \<times> directory \<times> WalWriter" where
  "ww_WriteNoSync dw =
     (case dw of (d, w) \<Rightarrow>
        (case ww_file w of
           None \<Rightarrow> (False, d, w)
         | Some path \<Rightarrow>
             if ww_buf w = [] then (True, d, w)
             else (True, fs_append path (ww_buf w) d,
                   w\<lparr>ww_file_size := ww_file_size w + length (ww_buf w), ww_buf := []\<rparr>)))"

definition ww_Close :: "directory \<times> WalWriter \<Rightarrow> directory \<times> WalWriter" where
  "ww_Close dw =
     (case dw of (d, w) \<Rightarrow>
        if ww_file w = None then (d, w) else (fst (snd (ww_Flush (d, w))), ww_new))"

definition ww_next_write_offset :: "WalWriter \<Rightarrow> nat" where
  "ww_next_write_offset w = ww_file_size w + length (ww_buf w)"

definition ww_IsOpen :: "WalWriter \<Rightarrow> bool" where
  "ww_IsOpen w \<longleftrightarrow> ww_file w \<noteq> None"

section \<open>The location index\<close>

record EntryLocation =
  loc_segment :: nat
  loc_offset :: nat

type_synonym WalIndex = "(LogIndex \<times> EntryLocation) list"

definition wi_Add :: "LogIndex \<Rightarrow> nat \<Rightarrow> nat \<Rightarrow> WalIndex \<Rightarrow> WalIndex" where
  "wi_Add i seg off m = (i, \<lparr>loc_segment = seg, loc_offset = off\<rparr>) # filter (\<lambda>x. fst x \<noteq> i) m"

definition wi_Find :: "LogIndex \<Rightarrow> WalIndex \<Rightarrow> EntryLocation option" where
  "wi_Find i m = map_of m i"

definition wi_Size :: "WalIndex \<Rightarrow> nat" where
  "wi_Size m = length m"

definition wi_Truncate :: "LogIndex \<Rightarrow> WalIndex \<Rightarrow> WalIndex" where
  "wi_Truncate new_last m = filter (\<lambda>x. fst x \<le> new_last) m"

definition wi_TrimUpTo :: "LogIndex \<Rightarrow> WalIndex \<Rightarrow> WalIndex" where
  "wi_TrimUpTo index m = filter (\<lambda>x. index < fst x) m"

definition wi_Clear :: WalIndex where
  "wi_Clear = []"

lemma map_of_filter_fst: "map_of (filter (\<lambda>x. P (fst x)) m) i = (if P i then map_of m i else None)"
  by (induction m) auto

lemma wi_Find_simps [simp]:
  "wi_Find i (wi_Add j seg off m) =
     (if i = j then Some \<lparr>loc_segment = seg, loc_offset = off\<rparr> else wi_Find i m)"
  "wi_Find i (wi_Truncate n m) = (if i \<le> n then wi_Find i m else None)"
  "wi_Find i (wi_TrimUpTo n m) = (if n < i then wi_Find i m else None)"
  "wi_Find i wi_Clear = None"
  by (simp_all add: wi_Find_def wi_Add_def wi_Truncate_def wi_TrimUpTo_def wi_Clear_def
      map_of_filter_fst [where P = "\<lambda>x. x \<noteq> j"] map_of_filter_fst [where P = "\<lambda>x. x \<le> n"]
      map_of_filter_fst [where P = "\<lambda>x. n < x"])

section \<open>The manifest\<close>

definition manifest_name :: string where
  "manifest_name = ''manifest.json''"

definition manifest_content :: "nat \<Rightarrow> string" where
  "manifest_content seg = [CHR ''{'', CHR 0x22] @ ''current_segment'' @ [CHR 0x22, CHR '':'']
     @ to_string seg @ [CHR ''}'', CHR 0x0A]"

definition manifest_Save :: "nat \<Rightarrow> directory \<Rightarrow> directory" where
  "manifest_Save seg d =
     (let tmp = manifest_name @ ''.tmp''
      in fs_rename tmp manifest_name
           (fs_sync tmp (fs_append tmp (manifest_content seg) (fs_open_trunc tmp d))))"

definition manifest_parse :: "string \<Rightarrow> nat option" where
  "manifest_parse content =
     (case find_sub ([CHR 0x22] @ ''current_segment'' @ [CHR 0x22]) content of
        None \<Rightarrow> None
      | Some pos \<Rightarrow>
          (case find_from '':'' content pos of
             None \<Rightarrow> None
           | Some p \<Rightarrow>
               (case strtoull (dropWhile (\<lambda>c. c = CHR '' '' \<or> c = CHR 0x09) (drop (p + 1) content)) of
                  None \<Rightarrow> None
                | Some (v, _) \<Rightarrow> Some (v mod 2 ^ 32))))"

text \<open>\<^verbatim>\<open>Load\<close>: the new value of \<^verbatim>\<open>current_segment_\<close> and the directory, where the file is written
  when it is missing or malformed.\<close>

definition manifest_Load :: "nat \<Rightarrow> directory \<Rightarrow> nat \<times> directory" where
  "manifest_Load seg d =
     (case fs_read d manifest_name of
        None \<Rightarrow> (seg, manifest_Save seg d)
      | Some content \<Rightarrow>
          (case manifest_parse content of
             None \<Rightarrow> (seg, manifest_Save seg d)
           | Some v \<Rightarrow> (v, d)))"

lemma manifest_parse_content: "seg < 2 ^ 32 \<Longrightarrow> manifest_parse (manifest_content seg) = Some seg"
proof -
  assume seg: "seg < 2 ^ 32"
  have p: "find_sub ([CHR 0x22] @ ''current_segment'' @ [CHR 0x22]) (manifest_content seg) = Some 1"
    by (simp add: manifest_content_def)
  have q: "find_from '':'' (manifest_content seg) 1 = Some 18"
    by (simp add: manifest_content_def find_from_def)
  have dr: "drop 19 (manifest_content seg) = to_string seg @ [CHR ''}'', CHR 0x0A]"
    by (simp add: manifest_content_def)
  have sp: "dropWhile (\<lambda>c. c = CHR '' '' \<or> c = CHR 0x09) (to_string seg @ ys) = to_string seg @ ys" for ys
  proof -
    have "is_digit (hd (to_string seg))" by (rule to_string_digits [of _ seg]) simp
    then show ?thesis by (cases "to_string seg") (auto simp: is_digit_def)
  qed
  have "strtoull (to_string seg @ [CHR ''}'', CHR 0x0A]) = Some (seg, [CHR ''}'', CHR 0x0A])"
    using strtoull_digits [of "to_string seg" "[CHR ''}'', CHR 0x0A]"] seg by simp
  then show ?thesis using seg p q dr sp by (simp add: manifest_parse_def)
qed

lemma fs_read_manifest_Save:
  "fs_read (manifest_Save seg d) name =
     (if name = manifest_name then Some (manifest_content seg)
      else if name = manifest_name @ ''.tmp'' then None else fs_read d name)"
  by (simp add: manifest_Save_def fs_rename_def fs_open_trunc_def fs_append_def fs_sync_def fs_read_def
      manifest_name_def Let_def)

end
