(* ===== verification/Log_Storage.thy ===== *)
theory Log_Storage
  imports Raft_Types
begin

text \<open>
  The contract of \<^verbatim>\<open>ILogStorage\<close> (\<^verbatim>\<open>server/raft/log_storage.h\<close>), as a locale. A storage
  presents a sequence of entries \<open>ents s\<close> that follow the index \<open>base s\<close> up to which the log has
  been compacted. The laws are the part of the interface comments every implementation keeps: they
  fix the result of every operation inside the range the interface documents, and leave open what
  an implementation does outside it (truncation below the compaction point, compaction of the whole
  log), where the implementations differ from each other and from the comments.

  The theories of the implementations interpret the locale; the lemmas at its end are what the
  consensus layer uses.
\<close>

definition numbered :: "LogIndex \<Rightarrow> LogEntry list \<Rightarrow> bool" where
  "numbered b es \<longleftrightarrow> (\<forall>i < length es. entry_index (es ! i) = b + i + 1)"

lemma numbered_Nil [simp]: "numbered b []"
  by (simp add: numbered_def)

lemma numbered_take: "numbered b es \<Longrightarrow> numbered b (take n es)"
  by (simp add: numbered_def)

lemma numbered_drop: "numbered b es \<Longrightarrow> numbered (b + n) (drop n es)"
  by (auto simp: numbered_def)

lemma numbered_snoc [simp]:
  "numbered b (es @ [e]) \<longleftrightarrow> numbered b es \<and> entry_index e = b + length es + 1"
  by (auto simp: numbered_def nth_append less_Suc_eq)

lemma numbered_append:
  "numbered b (es @ fs) \<longleftrightarrow> numbered b es \<and> numbered (b + length es) fs"
proof (induction fs rule: rev_induct)
  case (snoc f fs)
  then show ?case unfolding append_assoc [symmetric] numbered_snoc by auto
qed simp

lemma numbered_Cons: "numbered b (e # es) \<longleftrightarrow> entry_index e = b + 1 \<and> numbered (b + 1) es"
  using numbered_append [of b "[e]" es] numbered_snoc [of b "[]" e] by simp

lemma numbered_last: "numbered b es \<Longrightarrow> es \<noteq> [] \<Longrightarrow> entry_index (last es) = b + length es"
  by (cases es rule: rev_cases) auto

definition last_term :: "LogEntry list \<Rightarrow> Term" where
  "last_term es = (if es = [] then 0 else entry_term (last es))"

lemma last_term_simps [simp]: "last_term [] = 0" "last_term (es @ [e]) = entry_term e"
  by (simp_all add: last_term_def)

locale log_storage =
  fixes inv :: "'s \<Rightarrow> bool"
    and base :: "'s \<Rightarrow> LogIndex"
    and ents :: "'s \<Rightarrow> LogEntry list"
    and anchor :: "'s \<Rightarrow> SnapshotAnchor"
    and LastIndex :: "'s \<Rightarrow> LogIndex"
    and LastTerm :: "'s \<Rightarrow> Term"
    and Get :: "'s \<Rightarrow> LogIndex \<Rightarrow> LogEntry option"
    and GetTerm :: "'s \<Rightarrow> LogIndex \<Rightarrow> Term"
    and GetRange :: "'s \<Rightarrow> LogIndex \<Rightarrow> nat \<Rightarrow> LogEntry list"
    and SetSnapshotAnchor :: "LogIndex \<Rightarrow> Term \<Rightarrow> 's \<Rightarrow> 's"
    and Append :: "LogEntry \<Rightarrow> bool \<Rightarrow> 's \<Rightarrow> LogIndex \<times> 's"
    and TruncateFrom :: "LogIndex \<Rightarrow> 's \<Rightarrow> 's"
    and CompactUpTo :: "LogIndex \<Rightarrow> 's \<Rightarrow> 's"
    and Clear :: "'s \<Rightarrow> 's"
  assumes inv_numbered: "inv s \<Longrightarrow> numbered (base s) (ents s)"
    and LastIndex: "inv s \<Longrightarrow> LastIndex s = base s + length (ents s)"
    and LastTerm: "inv s \<Longrightarrow> LastTerm s = last_term (ents s)"
    and Get_present:
      "inv s \<Longrightarrow> base s < i \<Longrightarrow> i \<le> LastIndex s \<Longrightarrow> Get s i = Some (ents s ! (i - base s - 1))"
    and Get_absent: "inv s \<Longrightarrow> i < base s \<or> LastIndex s < i \<Longrightarrow> Get s i = None"
    and GetTerm_anchor:
      "inv s \<Longrightarrow> 0 < i \<Longrightarrow> i = anchor_index (anchor s) \<Longrightarrow> GetTerm s i = anchor_term (anchor s)"
    and GetTerm_entry:
      "inv s \<Longrightarrow> base s < i \<Longrightarrow> i \<noteq> anchor_index (anchor s) \<Longrightarrow>
       GetTerm s i = (case Get s i of None \<Rightarrow> 0 | Some e \<Rightarrow> entry_term e)"
    and GetRange:
      "inv s \<Longrightarrow> base s < i \<Longrightarrow> i \<le> LastIndex s \<Longrightarrow>
       GetRange s i n = (let es = drop (i - base s - 1) (ents s) in if n = 0 then es else take n es)"
    and SetSnapshotAnchor:
      "inv s \<Longrightarrow> inv (SetSnapshotAnchor i t s)"
      "base (SetSnapshotAnchor i t s) = base s" "ents (SetSnapshotAnchor i t s) = ents s"
      "anchor (SetSnapshotAnchor i t s) = \<lparr>anchor_index = i, anchor_term = t\<rparr>"
    and Append:
      "inv s \<Longrightarrow> Append e fl s = (idx, s') \<Longrightarrow>
       inv s' \<and> idx = LastIndex s + 1 \<and> base s' = base s
       \<and> ents s' = ents s @ [e\<lparr>entry_index := LastIndex s + 1\<rparr>] \<and> anchor s' = anchor s"
    and TruncateFrom:
      "inv s \<Longrightarrow> base s < n \<Longrightarrow> n \<le> LastIndex s \<Longrightarrow>
       inv (TruncateFrom n s) \<and> base (TruncateFrom n s) = base s
       \<and> ents (TruncateFrom n s) = take (n - base s) (ents s) \<and> anchor (TruncateFrom n s) = anchor s"
    and TruncateFrom_0:
      "inv s \<Longrightarrow> base s = 0 \<Longrightarrow>
       inv (TruncateFrom 0 s) \<and> base (TruncateFrom 0 s) = 0 \<and> ents (TruncateFrom 0 s) = []"
    and CompactUpTo:
      "inv s \<Longrightarrow> base s < n \<Longrightarrow> n < LastIndex s \<Longrightarrow>
       inv (CompactUpTo n s) \<and> base (CompactUpTo n s) = n
       \<and> ents (CompactUpTo n s) = drop (n - base s) (ents s) \<and> anchor (CompactUpTo n s) = anchor s"
    and Clear: "inv s \<Longrightarrow> inv (Clear s) \<and> base (Clear s) = 0 \<and> ents (Clear s) = []"
begin

lemma Get_Some_iff:
  assumes "inv s" and "base s < i"
  shows "Get s i = Some e \<longleftrightarrow> i \<le> LastIndex s \<and> e = ents s ! (i - base s - 1)"
  using assms Get_present Get_absent by (cases "i \<le> LastIndex s") auto

lemma Get_index:
  assumes "inv s" and "base s < i" and "Get s i = Some e"
  shows "entry_index e = i"
  using assms Get_Some_iff inv_numbered [of s] LastIndex [of s] by (auto simp: numbered_def)

lemma Append_Get_new:
  assumes "inv s" and "Append e fl s = (idx, s')"
  shows "Get s' idx = Some (e\<lparr>entry_index := idx\<rparr>)" and "LastIndex s' = idx"
    and "LastTerm s' = entry_term e"
proof -
  note app = Append [OF assms]
  then have inv: "inv s'" by blast
  show li: "LastIndex s' = idx" using app LastIndex [OF inv] LastIndex [OF assms(1)] by simp
  show "Get s' idx = Some (e\<lparr>entry_index := idx\<rparr>)"
    using app Get_present [OF inv, of idx] li LastIndex [OF assms(1)] by simp
  show "LastTerm s' = entry_term e" using app LastTerm [OF inv] by simp
qed

lemma Append_Get_old:
  assumes "inv s" and "Append e fl s = (idx, s')" and "base s < i" and "i \<le> LastIndex s"
  shows "Get s' i = Get s i"
proof -
  note app = Append [OF assms(1,2)]
  moreover have "Get s i = Some (ents s ! (i - base s - 1))"
    using assms by (intro Get_present)
  ultimately show ?thesis
    using assms(3,4) Get_present [of s' i] LastIndex [of s] LastIndex [of s'] assms(1)
    by (auto simp: nth_append)
qed

lemma TruncateFrom_Get:
  assumes "inv s" and "base s < n" and "n \<le> LastIndex s" and "base s < i"
  shows "Get (TruncateFrom n s) i = (if i \<le> n then Get s i else None)"
proof -
  note tr = TruncateFrom [OF assms(1,2,3)]
  then have li: "LastIndex (TruncateFrom n s) = n"
    using LastIndex [of "TruncateFrom n s"] LastIndex [OF assms(1)] assms(2,3) by simp
  show ?thesis
  proof (cases "i \<le> n")
    case True
    then have "Get s i = Some (ents s ! (i - base s - 1))"
      using assms by (intro Get_present) auto
    then show ?thesis
      using True tr li assms(2,4) Get_present [of "TruncateFrom n s" i] by simp
  next
    case False
    then show ?thesis using tr li Get_absent [of "TruncateFrom n s" i] by simp
  qed
qed

lemma CompactUpTo_Get:
  assumes "inv s" and "base s < n" and "n < LastIndex s" and "n < i"
  shows "Get (CompactUpTo n s) i = Get s i"
proof -
  note co = CompactUpTo [OF assms(1,2,3)]
  then have li: "LastIndex (CompactUpTo n s) = LastIndex s"
    using LastIndex [of "CompactUpTo n s"] LastIndex [OF assms(1)] assms(2,3) by simp
  show ?thesis
  proof (cases "i \<le> LastIndex s")
    case True
    then show ?thesis
      using co li assms Get_present [of "CompactUpTo n s" i] Get_present [of s i]
        LastIndex [OF assms(1)] by (simp add: Suc_diff_Suc less_imp_le)
  next
    case False
    then show ?thesis
      using co li assms Get_absent [of "CompactUpTo n s" i] Get_absent [of s i] by simp
  qed
qed

end

end
