(* ===== verification/Command_Log.thy ===== *)
theory Command_Log
  imports Log_Storage
begin

text \<open>
  The in-memory log, \<^verbatim>\<open>server/raft/command_log.{h,cc}\<close>. \<open>cl_entries ! i\<close> is the entry of index
  \<open>cl_base + i\<close>; element 0 is a sentinel. \<open>resize\<close> is \<^verbatim>\<open>std::vector::resize\<close>, which pads with
  default entries when it grows (the range check in \<^verbatim>\<open>TruncateFrom\<close> is a debug assertion).
\<close>

record CommandLog =
  cl_anchor :: SnapshotAnchor
  cl_base :: LogIndex
  cl_entries :: "LogEntry list"

definition resize :: "nat \<Rightarrow> LogEntry list \<Rightarrow> LogEntry list" where
  "resize n es = take n es @ replicate (n - length es) (mk_entry 0 0 [])"

definition cl_init :: CommandLog where
  "cl_init = \<lparr>cl_anchor = \<lparr>anchor_index = 0, anchor_term = 0\<rparr>, cl_base = 0,
     cl_entries = [mk_entry 0 0 []]\<rparr>"

definition cl_LastIndex :: "CommandLog \<Rightarrow> LogIndex" where
  "cl_LastIndex s = (if length (cl_entries s) \<le> 1 then 0 else cl_base s + length (cl_entries s) - 1)"

definition cl_FirstIndex :: "CommandLog \<Rightarrow> LogIndex" where
  "cl_FirstIndex s =
     (if length (cl_entries s) \<le> 1 then 0
      else if cl_base s + 1 \<le> cl_LastIndex s then cl_base s + 1 else 0)"

definition cl_LogSize :: "CommandLog \<Rightarrow> nat" where
  "cl_LogSize s = (if length (cl_entries s) \<le> 1 then 0 else cl_LastIndex s - cl_FirstIndex s + 1)"

definition cl_LastTerm :: "CommandLog \<Rightarrow> Term" where
  "cl_LastTerm s = (if length (cl_entries s) \<le> 1 then 0 else entry_term (last (cl_entries s)))"

definition cl_Get :: "CommandLog \<Rightarrow> LogIndex \<Rightarrow> LogEntry option" where
  "cl_Get s index =
     (if index < cl_base s \<or> cl_LastIndex s < index then None
      else Some (cl_entries s ! (index - cl_base s)))"

definition cl_GetTerm :: "CommandLog \<Rightarrow> LogIndex \<Rightarrow> Term" where
  "cl_GetTerm s index =
     (if index = anchor_index (cl_anchor s) \<and> 0 < anchor_index (cl_anchor s)
      then anchor_term (cl_anchor s)
      else case cl_Get s index of None \<Rightarrow> 0 | Some e \<Rightarrow> entry_term e)"

definition cl_SetSnapshotAnchor :: "LogIndex \<Rightarrow> Term \<Rightarrow> CommandLog \<Rightarrow> CommandLog" where
  "cl_SetSnapshotAnchor i t s = s\<lparr>cl_anchor := \<lparr>anchor_index = i, anchor_term = t\<rparr>\<rparr>"

definition cl_Append :: "LogEntry \<Rightarrow> bool \<Rightarrow> CommandLog \<Rightarrow> LogIndex \<times> CommandLog" where
  "cl_Append e flush s =
     (let idx = cl_LastIndex s + 1
      in (idx, s\<lparr>cl_entries := cl_entries s @ [e\<lparr>entry_index := idx\<rparr>]\<rparr>))"

definition cl_GetRange :: "CommandLog \<Rightarrow> LogIndex \<Rightarrow> nat \<Rightarrow> LogEntry list" where
  "cl_GetRange s start limit =
     (if start < cl_FirstIndex s \<or> cl_LastIndex s < start then []
      else
        let p = start - cl_base s;
            e = (if limit = 0 then length (cl_entries s) else min (length (cl_entries s)) (p + limit))
        in take (e - p) (drop p (cl_entries s)))"

definition cl_TruncateFrom :: "LogIndex \<Rightarrow> CommandLog \<Rightarrow> CommandLog" where
  "cl_TruncateFrom new_last s =
     (if new_last \<le> cl_base s then s\<lparr>cl_entries := resize 1 (cl_entries s)\<rparr>
      else s\<lparr>cl_entries := resize (new_last - cl_base s + 1) (cl_entries s)\<rparr>)"

definition cl_CompactUpTo :: "LogIndex \<Rightarrow> CommandLog \<Rightarrow> CommandLog" where
  "cl_CompactUpTo index s =
     (if index \<le> cl_base s then s
      else if cl_LastIndex s \<le> index
      then s\<lparr>cl_base := index, cl_entries := resize 1 (cl_entries s)\<rparr>
      else
        let keep_from = index - cl_base s + 1;
            es = (if keep_from < length (cl_entries s)
                  then hd (cl_entries s) # drop keep_from (cl_entries s)
                  else resize 1 (cl_entries s))
        in s\<lparr>cl_base := index, cl_entries := es\<rparr>)"

definition cl_Clear :: "CommandLog \<Rightarrow> CommandLog" where
  "cl_Clear s = s\<lparr>cl_base := 0, cl_entries := resize 1 (cl_entries s)\<rparr>"

definition cl_AppendLog :: "LogEntry list \<Rightarrow> CommandLog \<Rightarrow> CommandLog" where
  "cl_AppendLog es s = fold (\<lambda>e s. snd (cl_Append e True s)) es s"

definition cl_AppendBatch :: "LogEntry list \<Rightarrow> CommandLog \<Rightarrow> CommandLog" where
  "cl_AppendBatch es s = cl_AppendLog es s"

lemmas [op_defs] = cl_LastIndex_def cl_FirstIndex_def cl_LastTerm_def cl_Get_def cl_GetTerm_def
  cl_Append_def cl_GetRange_def cl_TruncateFrom_def cl_CompactUpTo_def cl_Clear_def

section \<open>The contract\<close>

text \<open>The invariant: the sentinel is there, entries are numbered from \<open>cl_base + 1\<close>, and the log is
  not both compacted and empty, where \<open>cl_LastIndex\<close> forgets the compaction point.\<close>

definition cl_inv :: "CommandLog \<Rightarrow> bool" where
  "cl_inv s \<longleftrightarrow> cl_entries s \<noteq> [] \<and> numbered (cl_base s) (tl (cl_entries s))
     \<and> (cl_base s = 0 \<or> tl (cl_entries s) \<noteq> [])"

definition cl_ents :: "CommandLog \<Rightarrow> LogEntry list" where
  "cl_ents s = tl (cl_entries s)"

lemma cl_entries_cases:
  assumes "cl_inv s"
  obtains h es where "cl_entries s = h # es" and "cl_ents s = es" and "numbered (cl_base s) es"
    and "cl_base s = 0 \<or> es \<noteq> []"
  using assms by (cases "cl_entries s") (auto simp: cl_inv_def cl_ents_def)

lemma cl_LastIndex_inv: "cl_inv s \<Longrightarrow> cl_LastIndex s = cl_base s + length (cl_ents s)"
  by (erule cl_entries_cases) (auto simp: cl_LastIndex_def)

lemma resize_shrink: "n \<le> length es \<Longrightarrow> resize n es = take n es"
  by (simp add: resize_def)

lemma resize_1 [simp]: "es \<noteq> [] \<Longrightarrow> resize (Suc 0) es = [hd es]"
  by (cases es) (simp_all add: resize_def)

lemma cl_LastTerm_inv: "cl_inv s \<Longrightarrow> cl_LastTerm s = last_term (cl_ents s)"
  by (erule cl_entries_cases) (auto simp: cl_LastTerm_def last_term_def)

lemma cl_init_inv: "cl_inv cl_init" and cl_init_ents: "cl_ents cl_init = []" "cl_base cl_init = 0"
  by (simp_all add: cl_init_def cl_inv_def cl_ents_def)

interpretation cl: log_storage cl_inv cl_base cl_ents cl_anchor cl_LastIndex cl_LastTerm cl_Get
  cl_GetTerm cl_GetRange cl_SetSnapshotAnchor cl_Append cl_TruncateFrom cl_CompactUpTo cl_Clear
proof unfold_locales
  fix s i
  assume s: "cl_inv s" and i: "cl_base s < i" "i \<le> cl_LastIndex s"
  from s obtain h es where "cl_entries s = h # es" "cl_ents s = es" by (rule cl_entries_cases)
  then show "cl_Get s i = Some (cl_ents s ! (i - cl_base s - 1))"
    using i by (simp add: cl_Get_def nth_Cons')
next
  fix s e fl idx s'
  assume s: "cl_inv s" and a: "cl_Append e fl s = (idx, s')"
  from s obtain h es where es: "cl_entries s = h # es" "cl_ents s = es" "numbered (cl_base s) es"
    by (rule cl_entries_cases)
  then show "cl_inv s' \<and> idx = cl_LastIndex s + 1 \<and> cl_base s' = cl_base s
      \<and> cl_ents s' = cl_ents s @ [e\<lparr>entry_index := cl_LastIndex s + 1\<rparr>] \<and> cl_anchor s' = cl_anchor s"
    using a cl_LastIndex_inv [OF s] by (auto simp: cl_Append_def cl_inv_def cl_ents_def Let_def)
next
  fix s n
  assume s: "cl_inv s" and n: "cl_base s < n" "n \<le> cl_LastIndex s"
  from s obtain h es where es: "cl_entries s = h # es" "cl_ents s = es" "numbered (cl_base s) es"
    by (rule cl_entries_cases)
  moreover have "resize (n - cl_base s + 1) (h # es) = h # take (n - cl_base s) es"
    using n cl_LastIndex_inv [OF s] es by (subst resize_shrink) auto
  ultimately show "cl_inv (cl_TruncateFrom n s) \<and> cl_base (cl_TruncateFrom n s) = cl_base s
      \<and> cl_ents (cl_TruncateFrom n s) = take (n - cl_base s) (cl_ents s)
      \<and> cl_anchor (cl_TruncateFrom n s) = cl_anchor s"
    using n cl_LastIndex_inv [OF s] by (auto simp: cl_TruncateFrom_def cl_inv_def cl_ents_def numbered_take)
next
  fix s n
  assume s: "cl_inv s" and n: "cl_base s < n" "n < cl_LastIndex s"
  from s obtain h es where es: "cl_entries s = h # es" "cl_ents s = es" "numbered (cl_base s) es"
    by (rule cl_entries_cases)
  then show "cl_inv (cl_CompactUpTo n s) \<and> cl_base (cl_CompactUpTo n s) = n
      \<and> cl_ents (cl_CompactUpTo n s) = drop (n - cl_base s) (cl_ents s)
      \<and> cl_anchor (cl_CompactUpTo n s) = cl_anchor s"
    using n cl_LastIndex_inv [OF s] numbered_drop [of "cl_base s" es "n - cl_base s"]
    by (auto simp: cl_CompactUpTo_def cl_inv_def cl_ents_def Let_def)
next
  fix s i n
  assume s: "cl_inv s" and i: "cl_base s < i" "i \<le> cl_LastIndex s"
  from s obtain h es where es: "cl_entries s = h # es" "cl_ents s = es" by (rule cl_entries_cases)
  then show "cl_GetRange s i n =
      (let es = drop (i - cl_base s - 1) (cl_ents s) in if n = 0 then es else take n es)"
    using i cl_LastIndex_inv [OF s]
    by (cases "i - cl_base s")
       (auto simp: cl_GetRange_def cl_FirstIndex_def Let_def min_def)
qed (auto elim!: cl_entries_cases simp: cl_inv_def cl_ents_def cl_LastIndex_inv cl_LastTerm_inv
      cl_Get_def cl_GetTerm_def cl_SetSnapshotAnchor_def cl_TruncateFrom_def
      cl_Clear_def)

end
