(* ===== verification/Segment_Log.thy ===== *)
theory Segment_Log
  imports Wal Log_Storage Command_Log
begin

text \<open>
  The segmented write-ahead log, \<^verbatim>\<open>server/raft/segment_log_storage.{h,cc}\<close>, on the file system of
  \<open>File_System\<close>. The record holds the members of the class; \<open>sl_has_dir\<close> is \<^verbatim>\<open>!dir_.empty()\<close>,
  \<open>sl_disk\<close> is the content of the directory, and \<open>sl_crashed\<close> records a dereference of a null writer
  or an access behind the end of the entry vector, after which the process is gone.
\<close>

record SegmentLog =
  sl_anchor :: SnapshotAnchor
  sl_has_dir :: bool
  sl_disk :: directory
  sl_manifest :: nat
  sl_writer :: "WalWriter option"
  sl_cur :: nat
  sl_base :: LogIndex
  sl_entries :: "LogEntry list"
  sl_index :: WalIndex
  sl_last_index :: LogIndex
  sl_last_term :: Term
  sl_fsync :: bool
  sl_crashed :: bool

definition kMaxSegmentBytes :: nat where
  "kMaxSegmentBytes = 64 * 1024 * 1024"

definition sl_new :: "bool \<Rightarrow> directory \<Rightarrow> SegmentLog" where
  "sl_new has_dir d =
     \<lparr>sl_anchor = \<lparr>anchor_index = 0, anchor_term = 0\<rparr>, sl_has_dir = has_dir, sl_disk = d,
      sl_manifest = 0, sl_writer = None, sl_cur = 0, sl_base = 0, sl_entries = [mk_entry 0 0 []],
      sl_index = wi_Clear, sl_last_index = 0, sl_last_term = 0, sl_fsync = True, sl_crashed = False\<rparr>"

section \<open>Segment files\<close>

definition segment_name :: "nat \<Rightarrow> string" where
  "segment_name seg =
     ''segment_'' @ replicate (8 - length (to_string seg)) (CHR ''0'') @ to_string seg @ ''.log''"

definition parse_segment_name :: "string \<Rightarrow> nat option" where
  "parse_segment_name name =
     (if \<not> starts_with ''segment_'' name then None
      else if length name < 13 then None
      else if drop (length name - 4) name \<noteq> ''.log'' then None
      else case strtoull (drop 8 name) of
             None \<Rightarrow> None
           | Some (v, rest) \<Rightarrow>
               if rest \<noteq> [] \<and> hd rest = CHR ''.'' then Some (v mod 2 ^ 32) else None)"

definition DiscoverSegments :: "directory \<Rightarrow> nat list" where
  "DiscoverSegments d = sort (List.map_filter parse_segment_name (fs_names d))"

definition RebuildIndex :: "LogIndex \<Rightarrow> Term \<Rightarrow> nat \<Rightarrow> nat \<Rightarrow> SegmentLog \<Rightarrow> SegmentLog" where
  "RebuildIndex index t seg off s =
     s\<lparr>sl_index := wi_Add index seg off (sl_index s), sl_last_index := index, sl_last_term := t\<rparr>"

text \<open>The loop of \<^verbatim>\<open>ScanSegment\<close> on the unread bytes of the segment.\<close>

function scan_records :: "nat \<Rightarrow> nat \<Rightarrow> string \<Rightarrow> SegmentLog \<Rightarrow> SegmentLog" where
  "scan_records seg off bs s =
     (if length bs < kHeaderSize then s
      else
        let h = read_header bs; payload = drop kHeaderSize bs in
        if hdr_size h = 0 then s
        else if hdr_index h \<le> sl_last_index s then s
        else if length payload < hdr_size h then s
        else
          let cmd = take (hdr_size h) payload in
          if unat (crc32 cmd) \<noteq> hdr_crc32 h then s
          else
            scan_records seg (off + kHeaderSize + hdr_size h) (drop (hdr_size h) payload)
              (RebuildIndex (hdr_index h) (hdr_term h) seg off
                 (s\<lparr>sl_entries := sl_entries s @ [mk_entry (hdr_term h) (hdr_index h) cmd]\<rparr>)))"
  by pat_completeness auto
termination
  by (relation "measure (\<lambda>(seg, off, bs, s). length bs)") (auto simp: kHeaderSize_def)

declare scan_records.simps [simp del]

definition ScanSegment :: "SegmentLog \<Rightarrow> nat \<Rightarrow> SegmentLog" where
  "ScanSegment s seg =
     (case fs_read (sl_disk s) (segment_name seg) of
        None \<Rightarrow> s
      | Some bs \<Rightarrow> scan_records seg 0 bs s)"

definition LoadSegments :: "SegmentLog \<Rightarrow> SegmentLog" where
  "LoadSegments s = foldl ScanSegment s (DiscoverSegments (sl_disk s))"

section \<open>The writer of the current segment\<close>

definition sl_EnsureWriter :: "SegmentLog \<Rightarrow> bool \<times> SegmentLog" where
  "sl_EnsureWriter s =
     (if (case sl_writer s of None \<Rightarrow> False | Some w \<Rightarrow> ww_IsOpen w) then (True, s)
      else case ww_OpenAppend (segment_name (sl_cur s)) (sl_disk s, ww_new) of
             (ok, d, w) \<Rightarrow>
               if ok then (True, s\<lparr>sl_disk := d, sl_writer := Some w\<rparr>)
               else (False, s\<lparr>sl_disk := d, sl_writer := None\<rparr>))"

definition close_writer :: "SegmentLog \<Rightarrow> SegmentLog" where
  "close_writer s =
     (case sl_writer s of
        None \<Rightarrow> s
      | Some w \<Rightarrow> s\<lparr>sl_disk := fst (ww_Close (sl_disk s, w)), sl_writer := None\<rparr>)"

definition set_segment :: "nat \<Rightarrow> SegmentLog \<Rightarrow> SegmentLog" where
  "set_segment seg s = s\<lparr>sl_manifest := seg, sl_disk := manifest_Save seg (sl_disk s)\<rparr>"

definition RollSegment :: "SegmentLog \<Rightarrow> bool \<times> SegmentLog" where
  "RollSegment s =
     (let s1 = close_writer s;
          s2 = s1\<lparr>sl_cur := (sl_cur s1 + 1) mod 2 ^ 32\<rparr>
      in sl_EnsureWriter (set_segment (sl_cur s2) s2))"

text \<open>The steps of \<^verbatim>\<open>Open\<close>: the base index of a log whose first segments are gone, the writer on the
  last segment, and their composition.\<close>

definition rebase :: "SegmentLog \<Rightarrow> SegmentLog" where
  "rebase s =
     (if 1 < length (sl_entries s) \<and> sl_base s = 0 \<and> 1 < entry_index (sl_entries s ! 1)
      then s\<lparr>sl_base := entry_index (sl_entries s ! 1) - 1\<rparr> else s)"

definition open_last_segment :: "SegmentLog \<Rightarrow> bool \<times> SegmentLog" where
  "open_last_segment s =
     (let segs = DiscoverSegments (sl_disk s)
      in if segs = [] then (True, s)
         else
           case ww_OpenAppend (segment_name (last segs)) (sl_disk s, ww_new) of
             (ok, d, w) \<Rightarrow>
               if ok then (True, s\<lparr>sl_cur := last segs, sl_disk := d, sl_writer := Some w\<rparr>)
               else (False, s\<lparr>sl_cur := last segs, sl_disk := d, sl_writer := None\<rparr>))"

definition sl_Open :: "SegmentLog \<Rightarrow> bool \<times> SegmentLog" where
  "sl_Open s =
     (if \<not> sl_has_dir s then (True, s)
      else
        let (m, d) = manifest_Load (sl_manifest s) (sl_disk s)
        in open_last_segment (rebase (LoadSegments (s\<lparr>sl_manifest := m, sl_disk := d\<rparr>))))"

section \<open>The log operations\<close>

definition sl_LogSize :: "SegmentLog \<Rightarrow> nat" where
  "sl_LogSize s = (if length (sl_entries s) \<le> 1 then 0 else length (sl_entries s) - 1)"

definition sl_FirstIndex :: "SegmentLog \<Rightarrow> LogIndex" where
  "sl_FirstIndex s =
     (if length (sl_entries s) \<le> 1 then 0
      else if sl_base s + 1 \<le> sl_last_index s then sl_base s + 1 else 0)"

definition sl_LastIndex :: "SegmentLog \<Rightarrow> LogIndex" where
  "sl_LastIndex s = sl_last_index s"

definition sl_LastTerm :: "SegmentLog \<Rightarrow> Term" where
  "sl_LastTerm s = sl_last_term s"

definition sl_Get :: "SegmentLog \<Rightarrow> LogIndex \<Rightarrow> LogEntry option" where
  "sl_Get s index =
     (if index < sl_base s \<or> sl_last_index s < index then None
      else
        let p = index - sl_base s in
        if p < length (sl_entries s) \<and> entry_index (sl_entries s ! p) = index
        then Some (sl_entries s ! p)
        else List.find (\<lambda>e. entry_index e = index) (tl (sl_entries s)))"

definition sl_GetTerm :: "SegmentLog \<Rightarrow> LogIndex \<Rightarrow> Term" where
  "sl_GetTerm s index =
     (if index = anchor_index (sl_anchor s) \<and> 0 < anchor_index (sl_anchor s)
      then anchor_term (sl_anchor s)
      else case sl_Get s index of None \<Rightarrow> 0 | Some e \<Rightarrow> entry_term e)"

definition sl_SetSnapshotAnchor :: "LogIndex \<Rightarrow> Term \<Rightarrow> SegmentLog \<Rightarrow> SegmentLog" where
  "sl_SetSnapshotAnchor i t s = s\<lparr>sl_anchor := \<lparr>anchor_index = i, anchor_term = t\<rparr>\<rparr>"

text \<open>The on-disk half of \<^verbatim>\<open>Append\<close>: write the record, index it, roll a full segment.\<close>

definition append_disk :: "LogEntry \<Rightarrow> bool \<Rightarrow> WalWriter \<Rightarrow> SegmentLog \<Rightarrow> SegmentLog" where
  "append_disk e flush w s =
     (let off = ww_next_write_offset w;
          (_, d, w') = (if flush \<and> sl_fsync s then ww_Flush (sl_disk s, ww_Append e w)
                        else ww_WriteNoSync (sl_disk s, ww_Append e w));
          s' = s\<lparr>sl_disk := d, sl_writer := Some w',
                 sl_index := wi_Add (entry_index e) (sl_cur s) off (sl_index s)\<rparr>
      in if kMaxSegmentBytes \<le> ww_file_size w' then snd (RollSegment s') else s')"

definition sl_Append :: "LogEntry \<Rightarrow> bool \<Rightarrow> SegmentLog \<Rightarrow> LogIndex \<times> SegmentLog" where
  "sl_Append e flush s =
     (if \<not> sl_has_dir s then
        let idx = sl_last_index s + 1
        in (idx, s\<lparr>sl_last_index := idx, sl_last_term := entry_term e,
                   sl_entries := sl_entries s @ [e\<lparr>entry_index := idx\<rparr>]\<rparr>)
      else
        let (ok, s0) = (if sl_last_index s = 0 \<and> sl_writer s = None then sl_EnsureWriter s
                        else (True, s))
        in if \<not> ok then (0, s0)
           else
             let idx = sl_last_index s0 + 1;
                 e' = e\<lparr>entry_index := idx\<rparr>;
                 s1 = s0\<lparr>sl_last_index := idx, sl_last_term := entry_term e,
                         sl_entries := sl_entries s0 @ [e']\<rparr>
             in case sl_writer s1 of
                  None \<Rightarrow> (idx, s1\<lparr>sl_crashed := True\<rparr>)
                | Some w \<Rightarrow> (idx, append_disk e' flush w s1))"

definition sl_GetRange :: "SegmentLog \<Rightarrow> LogIndex \<Rightarrow> nat \<Rightarrow> LogEntry list" where
  "sl_GetRange s start limit =
     (if start < sl_FirstIndex s \<or> sl_LastIndex s < start then []
      else
        let p = start - sl_base s;
            e = (if limit = 0 then length (sl_entries s) else min (length (sl_entries s)) (p + limit))
        in take (e - p) (drop p (sl_entries s)))"

definition unlink_segments :: "nat list \<Rightarrow> directory \<Rightarrow> directory" where
  "unlink_segments segs d = fold (\<lambda>seg. fs_unlink (segment_name seg)) segs d"

definition DeleteAllSegments :: "SegmentLog \<Rightarrow> SegmentLog" where
  "DeleteAllSegments s =
     (if \<not> sl_has_dir s then s
      else set_segment 0 (s\<lparr>sl_disk := unlink_segments (DiscoverSegments (sl_disk s)) (sl_disk s)\<rparr>))"

definition sl_Clear :: "SegmentLog \<Rightarrow> SegmentLog" where
  "sl_Clear s =
     DeleteAllSegments (close_writer
       (s\<lparr>sl_base := 0, sl_index := wi_Clear, sl_last_index := 0, sl_last_term := 0,
          sl_entries := resize 1 (sl_entries s), sl_anchor := \<lparr>anchor_index = 0, anchor_term = 0\<rparr>\<rparr>))"

text \<open>The on-disk half of \<^verbatim>\<open>TruncateFrom\<close>.\<close>

definition truncate_disk :: "LogIndex \<Rightarrow> LogEntry \<Rightarrow> SegmentLog \<Rightarrow> SegmentLog" where
  "truncate_disk new_last keep s =
     (case (wi_Find new_last (sl_index s), sl_writer s) of
        (Some loc, Some w) \<Rightarrow>
          let keep_segment = loc_segment loc;
              keep_end = loc_offset loc + kHeaderSize + length (command keep);
              d1 = fs_truncate (segment_name keep_segment) keep_end (sl_disk s);
              d2 = unlink_segments (filter (\<lambda>seg. keep_segment < seg) (DiscoverSegments d1)) d1;
              s1 = close_writer (s\<lparr>sl_disk := d2\<rparr>)
          in snd (sl_EnsureWriter (set_segment keep_segment (s1\<lparr>sl_cur := keep_segment\<rparr>)))
      | _ \<Rightarrow> s)"

definition sl_TruncateFrom :: "LogIndex \<Rightarrow> SegmentLog \<Rightarrow> SegmentLog" where
  "sl_TruncateFrom new_last s =
     (if new_last \<le> sl_base s then sl_Clear s
      else
        let p = new_last - sl_base s in
        if length (sl_entries s) \<le> p then s\<lparr>sl_crashed := True\<rparr>
        else
          truncate_disk new_last (sl_entries s ! p)
            (s\<lparr>sl_index := wi_Truncate new_last (sl_index s), sl_last_index := new_last,
               sl_last_term := entry_term (sl_entries s ! p),
               sl_entries := resize (p + 1) (sl_entries s)\<rparr>))"

definition sl_CompactUpTo :: "LogIndex \<Rightarrow> SegmentLog \<Rightarrow> SegmentLog" where
  "sl_CompactUpTo index s =
     (if index \<le> sl_base s then s
      else if sl_last_index s \<le> index
      then s\<lparr>sl_base := index, sl_index := wi_Clear, sl_last_index := index, sl_last_term := 0,
             sl_entries := resize 1 (sl_entries s)\<rparr>
      else
        let keep_from = index - sl_base s + 1;
            es = (if keep_from < length (sl_entries s)
                  then hd (sl_entries s) # drop keep_from (sl_entries s)
                  else resize 1 (sl_entries s))
        in s\<lparr>sl_base := index, sl_entries := es, sl_index := wi_TrimUpTo index (sl_index s)\<rparr>)"

definition CompactSegments :: "LogIndex \<Rightarrow> SegmentLog \<Rightarrow> SegmentLog" where
  "CompactSegments snapshot_index s =
     (if \<not> sl_has_dir s then s
      else case wi_Find snapshot_index (sl_index s) of
             None \<Rightarrow> s
           | Some loc \<Rightarrow>
               let keep = loc_segment loc;
                   s1 = s\<lparr>sl_disk := unlink_segments
                            (takeWhile (\<lambda>seg. seg < keep) (DiscoverSegments (sl_disk s))) (sl_disk s)\<rparr>
               in if sl_manifest s1 < keep then set_segment keep s1 else s1)"

definition sl_CompactLogs :: "LogIndex \<Rightarrow> Term \<Rightarrow> SegmentLog \<Rightarrow> SegmentLog" where
  "sl_CompactLogs i t s = sl_CompactUpTo i (CompactSegments i (sl_SetSnapshotAnchor i t s))"

definition sl_Flush :: "SegmentLog \<Rightarrow> bool \<times> SegmentLog" where
  "sl_Flush s =
     (case sl_writer s of
        None \<Rightarrow> (True, s)
      | Some w \<Rightarrow>
          if ww_IsOpen w
          then (case ww_Flush (sl_disk s, w) of (ok, d, w') \<Rightarrow> (ok, s\<lparr>sl_disk := d, sl_writer := Some w'\<rparr>))
          else (True, s))"

definition sl_Persist :: "SegmentLog \<Rightarrow> SegmentLog" where
  "sl_Persist s = (if sl_fsync s then snd (sl_Flush s) else s)"

definition sl_PruneCompacted :: "SegmentLog \<Rightarrow> SegmentLog" where
  "sl_PruneCompacted s =
     (if anchor_index (sl_anchor s) = 0 \<or> length (sl_entries s) \<le> 1 then s
      else
        let a = anchor_index (sl_anchor s);
            kept = dropWhile (\<lambda>e. entry_index e \<le> a) (tl (sl_entries s))
        in if kept = [] then s\<lparr>sl_base := a, sl_entries := resize 1 (sl_entries s)\<rparr>
           else if length kept < length (tl (sl_entries s))
           then s\<lparr>sl_entries := hd (sl_entries s) # kept, sl_base := a\<rparr>
           else s)"

definition sl_SetFsyncPerAppend :: "bool \<Rightarrow> SegmentLog \<Rightarrow> SegmentLog" where
  "sl_SetFsyncPerAppend v s = s\<lparr>sl_fsync := v\<rparr>"

section \<open>Frames\<close>

text \<open>What the operations on the files leave alone.\<close>

lemma EnsureWriter_frame [frame_simps]:
  "sl_anchor (snd (sl_EnsureWriter s)) = sl_anchor s"
  "sl_has_dir (snd (sl_EnsureWriter s)) = sl_has_dir s"
  "sl_base (snd (sl_EnsureWriter s)) = sl_base s"
  "sl_entries (snd (sl_EnsureWriter s)) = sl_entries s"
  "sl_index (snd (sl_EnsureWriter s)) = sl_index s"
  "sl_last_index (snd (sl_EnsureWriter s)) = sl_last_index s"
  "sl_last_term (snd (sl_EnsureWriter s)) = sl_last_term s"
  "sl_fsync (snd (sl_EnsureWriter s)) = sl_fsync s"
  "sl_crashed (snd (sl_EnsureWriter s)) = sl_crashed s"
  by (simp_all add: sl_EnsureWriter_def split: prod.splits option.splits)

lemma close_writer_frame [frame_simps]:
  "sl_anchor (close_writer s) = sl_anchor s"
  "sl_has_dir (close_writer s) = sl_has_dir s"
  "sl_base (close_writer s) = sl_base s"
  "sl_entries (close_writer s) = sl_entries s"
  "sl_index (close_writer s) = sl_index s"
  "sl_last_index (close_writer s) = sl_last_index s"
  "sl_last_term (close_writer s) = sl_last_term s"
  "sl_fsync (close_writer s) = sl_fsync s"
  "sl_crashed (close_writer s) = sl_crashed s"
  by (simp_all add: close_writer_def split: option.splits)

lemma set_segment_frame [frame_simps]:
  "sl_anchor (set_segment seg s) = sl_anchor s"
  "sl_has_dir (set_segment seg s) = sl_has_dir s"
  "sl_base (set_segment seg s) = sl_base s"
  "sl_entries (set_segment seg s) = sl_entries s"
  "sl_index (set_segment seg s) = sl_index s"
  "sl_last_index (set_segment seg s) = sl_last_index s"
  "sl_last_term (set_segment seg s) = sl_last_term s"
  "sl_fsync (set_segment seg s) = sl_fsync s"
  "sl_crashed (set_segment seg s) = sl_crashed s"
  by (simp_all add: set_segment_def)

lemma RollSegment_frame [frame_simps]:
  "sl_anchor (snd (RollSegment s)) = sl_anchor s"
  "sl_has_dir (snd (RollSegment s)) = sl_has_dir s"
  "sl_base (snd (RollSegment s)) = sl_base s"
  "sl_entries (snd (RollSegment s)) = sl_entries s"
  "sl_index (snd (RollSegment s)) = sl_index s"
  "sl_last_index (snd (RollSegment s)) = sl_last_index s"
  "sl_last_term (snd (RollSegment s)) = sl_last_term s"
  "sl_fsync (snd (RollSegment s)) = sl_fsync s"
  "sl_crashed (snd (RollSegment s)) = sl_crashed s"
  by (simp_all add: RollSegment_def Let_def frame_simps)

lemma DeleteAllSegments_frame [frame_simps]:
  "sl_anchor (DeleteAllSegments s) = sl_anchor s"
  "sl_has_dir (DeleteAllSegments s) = sl_has_dir s"
  "sl_base (DeleteAllSegments s) = sl_base s"
  "sl_entries (DeleteAllSegments s) = sl_entries s"
  "sl_index (DeleteAllSegments s) = sl_index s"
  "sl_last_index (DeleteAllSegments s) = sl_last_index s"
  "sl_last_term (DeleteAllSegments s) = sl_last_term s"
  "sl_fsync (DeleteAllSegments s) = sl_fsync s"
  "sl_crashed (DeleteAllSegments s) = sl_crashed s"
  by (simp_all add: DeleteAllSegments_def frame_simps)

lemma truncate_disk_frame [frame_simps]:
  "sl_anchor (truncate_disk n e s) = sl_anchor s"
  "sl_has_dir (truncate_disk n e s) = sl_has_dir s"
  "sl_base (truncate_disk n e s) = sl_base s"
  "sl_entries (truncate_disk n e s) = sl_entries s"
  "sl_index (truncate_disk n e s) = sl_index s"
  "sl_last_index (truncate_disk n e s) = sl_last_index s"
  "sl_last_term (truncate_disk n e s) = sl_last_term s"
  "sl_fsync (truncate_disk n e s) = sl_fsync s"
  "sl_crashed (truncate_disk n e s) = sl_crashed s"
  by (simp_all add: truncate_disk_def Let_def frame_simps split: option.splits)

lemma EnsureWriter_writer:
  assumes "sl_EnsureWriter s = (ok, s')"
  shows "ok" and "\<exists>w. sl_writer s' = Some w \<and> ww_IsOpen w"
  using assms by (auto simp: sl_EnsureWriter_def ww_OpenAppend_def ww_new_def ww_IsOpen_def Let_def
      split: option.splits if_splits)

lemma close_writer_None [simp]: "sl_writer (close_writer s) = None"
  by (simp add: close_writer_def split: option.splits)

lemma writer_frame [frame_simps]:
  "sl_writer (set_segment seg s) = sl_writer s"
  "sl_writer (DeleteAllSegments s) = sl_writer s"
  by (simp_all add: set_segment_def DeleteAllSegments_def)

section \<open>The contract\<close>

definition sl_ents :: "SegmentLog \<Rightarrow> LogEntry list" where
  "sl_ents s = tl (sl_entries s)"

definition writer_ok :: "SegmentLog \<Rightarrow> bool" where
  "writer_ok s \<longleftrightarrow> (case sl_writer s of
       None \<Rightarrow> sl_has_dir s \<longrightarrow> sl_last_index s = 0
     | Some w \<Rightarrow> ww_IsOpen w)"

definition sl_inv :: "SegmentLog \<Rightarrow> bool" where
  "sl_inv s \<longleftrightarrow> sl_entries s \<noteq> [] \<and> numbered (sl_base s) (sl_ents s)
     \<and> sl_last_index s = sl_base s + length (sl_ents s) \<and> sl_last_term s = last_term (sl_ents s)
     \<and> \<not> sl_crashed s \<and> writer_ok s"

lemma sl_entries_cases:
  assumes "sl_inv s"
  obtains h es where "sl_entries s = h # es" and "sl_ents s = es" and "numbered (sl_base s) es"
    and "sl_last_index s = sl_base s + length es"
  using assms by (cases "sl_entries s") (auto simp: sl_inv_def sl_ents_def)

lemma sl_new_inv: "sl_inv (sl_new b d)"
  by (simp add: sl_inv_def sl_new_def sl_ents_def writer_ok_def)

lemma RollSegment_writer: "\<exists>w. sl_writer (snd (RollSegment s)) = Some w \<and> ww_IsOpen w"
  using EnsureWriter_writer(2) [OF surjective_pairing] by (simp add: RollSegment_def Let_def)

lemma ww_write_writer:
  "ww_Flush (d, w) = (ok, d', w') \<Longrightarrow> ww_IsOpen w' = ww_IsOpen w"
  "ww_WriteNoSync (d, w) = (ok, d', w') \<Longrightarrow> ww_IsOpen w' = ww_IsOpen w"
  by (auto simp: ww_Flush_def ww_WriteNoSync_def ww_IsOpen_def split: option.splits if_splits)

lemma append_disk_frame [frame_simps]:
  "sl_anchor (append_disk e fl w s) = sl_anchor s"
  "sl_has_dir (append_disk e fl w s) = sl_has_dir s"
  "sl_base (append_disk e fl w s) = sl_base s"
  "sl_entries (append_disk e fl w s) = sl_entries s"
  "sl_last_index (append_disk e fl w s) = sl_last_index s"
  "sl_last_term (append_disk e fl w s) = sl_last_term s"
  "sl_fsync (append_disk e fl w s) = sl_fsync s"
  "sl_crashed (append_disk e fl w s) = sl_crashed s"
  by (simp_all add: append_disk_def Let_def frame_simps split: prod.splits)

lemma ww_Append_IsOpen [simp]: "ww_IsOpen (ww_Append e w) = ww_IsOpen w"
  by (simp add: ww_Append_def ww_IsOpen_def)

lemma append_disk_writer:
  assumes "ww_IsOpen w"
  shows "\<exists>w'. sl_writer (append_disk e fl w s) = Some w' \<and> ww_IsOpen w'"
  using assms RollSegment_writer ww_write_writer
  by (fastforce simp: append_disk_def Let_def split: prod.splits)

text \<open>The state in which \<open>sl_Append\<close> writes: a writer is open, nothing else has changed.\<close>

definition append_ready :: "SegmentLog \<Rightarrow> SegmentLog" where
  "append_ready s =
     (if sl_last_index s = 0 \<and> sl_writer s = None then snd (sl_EnsureWriter s) else s)"

definition append_mem :: "LogEntry \<Rightarrow> SegmentLog \<Rightarrow> SegmentLog" where
  "append_mem e s = s\<lparr>sl_last_index := entry_index e, sl_last_term := entry_term e,
     sl_entries := sl_entries s @ [e]\<rparr>"

lemma append_ready_frame [frame_simps]:
  "sl_anchor (append_ready s) = sl_anchor s" "sl_has_dir (append_ready s) = sl_has_dir s"
  "sl_base (append_ready s) = sl_base s" "sl_entries (append_ready s) = sl_entries s"
  "sl_index (append_ready s) = sl_index s"
  "sl_last_index (append_ready s) = sl_last_index s" "sl_last_term (append_ready s) = sl_last_term s"
  "sl_fsync (append_ready s) = sl_fsync s" "sl_crashed (append_ready s) = sl_crashed s"
  by (simp_all add: append_ready_def frame_simps)

lemma append_ready_writer:
  assumes "sl_inv s" and "sl_has_dir s"
  obtains w where "sl_writer (append_ready s) = Some w" and "ww_IsOpen w"
  using assms EnsureWriter_writer(2) [OF surjective_pairing, of s]
  by (auto simp: append_ready_def sl_inv_def writer_ok_def split: option.splits)

lemma sl_Append_disk:
  assumes "sl_inv s" and "sl_has_dir s" and "sl_writer (append_ready s) = Some w"
  shows "sl_Append e fl s =
    (sl_last_index s + 1,
     append_disk (e\<lparr>entry_index := sl_last_index s + 1\<rparr>) fl w
       (append_mem (e\<lparr>entry_index := sl_last_index s + 1\<rparr>) (append_ready s)))"
  using assms EnsureWriter_writer(1) [OF surjective_pairing, of s] append_ready_frame(4,6) [of s]
  by (auto simp: sl_Append_def append_ready_def append_mem_def Let_def frame_simps split: prod.splits)

lemma sl_Append_core:
  assumes "sl_inv s" and "sl_Append e fl s = (idx, s')"
  shows "idx = sl_last_index s + 1" and "sl_base s' = sl_base s" and "sl_anchor s' = sl_anchor s"
    and "sl_entries s' = sl_entries s @ [e\<lparr>entry_index := idx\<rparr>]"
    and "sl_last_index s' = idx" and "sl_last_term s' = entry_term e"
    and "sl_has_dir s' = sl_has_dir s" and "sl_fsync s' = sl_fsync s"
    and "sl_crashed s' = sl_crashed s" and "writer_ok s'"
proof -
  consider "\<not> sl_has_dir s" | w where "sl_has_dir s" "sl_writer (append_ready s) = Some w" "ww_IsOpen w"
    using append_ready_writer [OF assms(1)] by blast
  then have "idx = sl_last_index s + 1 \<and> sl_base s' = sl_base s \<and> sl_anchor s' = sl_anchor s
    \<and> sl_entries s' = sl_entries s @ [e\<lparr>entry_index := idx\<rparr>] \<and> sl_last_index s' = idx
    \<and> sl_last_term s' = entry_term e \<and> sl_has_dir s' = sl_has_dir s \<and> sl_fsync s' = sl_fsync s
    \<and> sl_crashed s' = sl_crashed s \<and> writer_ok s'"
  proof cases
    case 1
    then show ?thesis using assms by (auto simp: sl_Append_def sl_inv_def writer_ok_def Let_def
          split: option.splits)
  next
    case 2
    let ?e = "e\<lparr>entry_index := sl_last_index s + 1\<rparr>"
    obtain w' where "sl_writer (append_disk ?e fl w (append_mem ?e (append_ready s))) = Some w'"
      "ww_IsOpen w'" using append_disk_writer [OF 2(3)] by blast
    then show ?thesis
      using assms(2) sl_Append_disk [OF assms(1) 2(1,2), of e fl]
      by (auto simp: frame_simps append_mem_def writer_ok_def)
  qed
  then show "idx = sl_last_index s + 1" "sl_base s' = sl_base s" "sl_anchor s' = sl_anchor s"
    "sl_entries s' = sl_entries s @ [e\<lparr>entry_index := idx\<rparr>]" "sl_last_index s' = idx"
    "sl_last_term s' = entry_term e" "sl_has_dir s' = sl_has_dir s" "sl_fsync s' = sl_fsync s"
    "sl_crashed s' = sl_crashed s" "writer_ok s'" by auto
qed

lemma truncate_disk_writer_ok:
  assumes "writer_ok s"
  shows "writer_ok (truncate_disk n e s)"
proof (cases "wi_Find n (sl_index s) = None \<or> sl_writer s = None")
  case True
  then show ?thesis using assms by (auto simp: truncate_disk_def split: option.splits)
next
  case False
  then obtain loc w where "wi_Find n (sl_index s) = Some loc" "sl_writer s = Some w" by auto
  moreover have "writer_ok (snd (sl_EnsureWriter t))" for t
    using EnsureWriter_writer(2) [OF surjective_pairing, of t] by (auto simp: writer_ok_def)
  ultimately show ?thesis by (simp add: truncate_disk_def Let_def)
qed

lemma sl_TruncateFrom_core:
  assumes "sl_inv s" and "sl_base s < n" and "n \<le> sl_last_index s"
  shows "sl_base (sl_TruncateFrom n s) = sl_base s" and "sl_anchor (sl_TruncateFrom n s) = sl_anchor s"
    and "sl_entries (sl_TruncateFrom n s) = hd (sl_entries s) # take (n - sl_base s) (sl_ents s)"
    and "sl_inv (sl_TruncateFrom n s)"
proof -
  obtain h es where es: "sl_entries s = h # es" "sl_ents s = es" "numbered (sl_base s) es"
    "sl_last_index s = sl_base s + length es" using assms(1) by (rule sl_entries_cases)
  let ?p = "n - sl_base s"
  let ?k = "sl_entries s ! ?p"
  let ?t = "s\<lparr>sl_index := wi_Truncate n (sl_index s), sl_last_index := n,
      sl_last_term := entry_term ?k, sl_entries := resize (?p + 1) (sl_entries s)\<rparr>"
  have tr: "sl_TruncateFrom n s = truncate_disk n ?k ?t"
    using assms(2,3) es by (simp add: sl_TruncateFrom_def Let_def)
  have rs: "resize (?p + 1) (sl_entries s) = h # take ?p es"
    using assms(2,3) es by (subst resize_shrink) auto
  have wr: "writer_ok (truncate_disk n ?k ?t)"
    using assms by (intro truncate_disk_writer_ok) (auto simp: writer_ok_def sl_inv_def split: option.splits)
  show "sl_base (sl_TruncateFrom n s) = sl_base s" "sl_anchor (sl_TruncateFrom n s) = sl_anchor s"
    "sl_entries (sl_TruncateFrom n s) = hd (sl_entries s) # take ?p (sl_ents s)"
    using rs by (simp_all add: tr frame_simps es)
  have p: "0 < ?p" "?p \<le> length es" using assms(2,3) es(4) by auto
  have "last (take ?p es) = es ! (?p - 1)" using p by (subst last_conv_nth) (auto simp: min_def)
  moreover have "?k = es ! (?p - 1)" using p by (simp add: es(1) nth_Cons')
  moreover have "take ?p es \<noteq> []" using p by auto
  ultimately have lt: "last_term (take ?p es) = entry_term ?k" by (simp add: last_term_def)
  have len: "sl_base s + length (take ?p es) = n" using assms(2,3) es(4) by simp
  have "\<not> sl_crashed s" using assms(1) by (simp add: sl_inv_def)
  then show "sl_inv (sl_TruncateFrom n s)"
    unfolding sl_inv_def sl_ents_def
    using rs wr numbered_take [OF es(3), of ?p] lt len by (simp add: tr frame_simps)
qed

lemma sl_Clear_core:
  assumes "sl_entries s \<noteq> []" and "\<not> sl_crashed s"
  shows "sl_inv (sl_Clear s)" and "sl_base (sl_Clear s) = 0" and "sl_ents (sl_Clear s) = []"
    and "sl_anchor (sl_Clear s) = \<lparr>anchor_index = 0, anchor_term = 0\<rparr>"
    and "sl_last_index (sl_Clear s) = 0"
  using assms by (simp_all add: sl_Clear_def sl_inv_def sl_ents_def writer_ok_def frame_simps)

interpretation sl: log_storage sl_inv sl_base sl_ents sl_anchor sl_LastIndex sl_LastTerm sl_Get
  sl_GetTerm sl_GetRange sl_SetSnapshotAnchor sl_Append sl_TruncateFrom sl_CompactUpTo sl_Clear
proof unfold_locales
  fix s i
  assume s: "sl_inv s" and i: "sl_base s < i" "i \<le> sl_LastIndex s"
  from s obtain h es where es: "sl_entries s = h # es" "sl_ents s = es" "numbered (sl_base s) es"
    "sl_last_index s = sl_base s + length es" by (rule sl_entries_cases)
  then have "entry_index (es ! (i - sl_base s - 1)) = i"
    using i by (auto simp: numbered_def sl_LastIndex_def)
  moreover have "i - sl_base s < Suc (length es)" using i es by (simp add: sl_LastIndex_def)
  ultimately show "sl_Get s i = Some (sl_ents s ! (i - sl_base s - 1))"
    using i es by (simp add: sl_Get_def sl_LastIndex_def nth_Cons' Let_def)
next
  fix s i
  assume "sl_inv s" "i < sl_base s \<or> sl_LastIndex s < i"
  then show "sl_Get s i = None" by (simp add: sl_Get_def sl_LastIndex_def)
next
  fix s e fl idx s'
  assume s: "sl_inv s" and a: "sl_Append e fl s = (idx, s')"
  note core = sl_Append_core [OF s a]
  then show "sl_inv s' \<and> idx = sl_LastIndex s + 1 \<and> sl_base s' = sl_base s
      \<and> sl_ents s' = sl_ents s @ [e\<lparr>entry_index := sl_LastIndex s + 1\<rparr>] \<and> sl_anchor s' = sl_anchor s"
    using s by (simp add: sl_inv_def sl_ents_def sl_LastIndex_def)
next
  fix s n
  assume s: "sl_inv s" and n: "sl_base s < n" "n \<le> sl_LastIndex s"
  then show "sl_inv (sl_TruncateFrom n s) \<and> sl_base (sl_TruncateFrom n s) = sl_base s
      \<and> sl_ents (sl_TruncateFrom n s) = take (n - sl_base s) (sl_ents s)
      \<and> sl_anchor (sl_TruncateFrom n s) = sl_anchor s"
    using sl_TruncateFrom_core [OF s n(1)] by (simp add: sl_LastIndex_def sl_ents_def)
next
  fix s n
  assume s: "sl_inv s" and n: "sl_base s < n" "n < sl_LastIndex s"
  from s obtain h es where es: "sl_entries s = h # es" "sl_ents s = es" "numbered (sl_base s) es"
    "sl_last_index s = sl_base s + length es" by (rule sl_entries_cases)
  then have "last_term (drop (n - sl_base s) es) = last_term es"
    using n by (simp add: last_term_def sl_LastIndex_def)
  then show "sl_inv (sl_CompactUpTo n s) \<and> sl_base (sl_CompactUpTo n s) = n
      \<and> sl_ents (sl_CompactUpTo n s) = drop (n - sl_base s) (sl_ents s)
      \<and> sl_anchor (sl_CompactUpTo n s) = sl_anchor s"
    using s n es numbered_drop [of "sl_base s" es "n - sl_base s"]
    by (auto simp: sl_CompactUpTo_def sl_inv_def sl_ents_def sl_LastIndex_def writer_ok_def Let_def
        split: option.splits)
next
  fix s i n
  assume s: "sl_inv s" and i: "sl_base s < i" "i \<le> sl_LastIndex s"
  from s obtain h es where es: "sl_entries s = h # es" "sl_ents s = es" "numbered (sl_base s) es"
    "sl_last_index s = sl_base s + length es" by (rule sl_entries_cases)
  then show "sl_GetRange s i n =
      (let es = drop (i - sl_base s - 1) (sl_ents s) in if n = 0 then es else take n es)"
    using i by (cases "i - sl_base s")
      (auto simp: sl_GetRange_def sl_FirstIndex_def sl_LastIndex_def Let_def min_def)
next
  fix s
  assume "sl_inv s" "sl_base s = 0"
  then show "sl_inv (sl_TruncateFrom 0 s) \<and> sl_base (sl_TruncateFrom 0 s) = 0
      \<and> sl_ents (sl_TruncateFrom 0 s) = []"
    using sl_Clear_core [of s] by (simp add: sl_TruncateFrom_def sl_inv_def)
next
  fix s
  assume "sl_inv s"
  then show "sl_inv (sl_Clear s) \<and> sl_base (sl_Clear s) = 0 \<and> sl_ents (sl_Clear s) = []"
    using sl_Clear_core [of s] by (simp add: sl_inv_def)
qed (auto simp: sl_inv_def sl_LastIndex_def sl_LastTerm_def sl_GetTerm_def sl_SetSnapshotAnchor_def
    sl_ents_def writer_ok_def split: option.splits)

end
