(* ===== verification/Wal_Recovery.thy ===== *)
theory Wal_Recovery
  imports Segment_Log
begin

text \<open>
  Crash recovery of the segmented log: what \<open>sl_Open\<close> rebuilds from the bytes the appends left on
  disk, after a clean shutdown, after a torn write and after a power failure.
\<close>

section \<open>Scanning records\<close>

definition seg_bytes :: "LogEntry list \<Rightarrow> string" where
  "seg_bytes es = concat (map record_bytes es)"

lemma seg_bytes_simps [simp]:
  "seg_bytes [] = []" "seg_bytes (e # es) = record_bytes e @ seg_bytes es"
  "seg_bytes (es @ fs) = seg_bytes es @ seg_bytes fs"
  by (simp_all add: seg_bytes_def)

definition push_record :: "nat \<Rightarrow> nat \<Rightarrow> LogEntry \<Rightarrow> SegmentLog \<Rightarrow> SegmentLog" where
  "push_record seg off e s =
     RebuildIndex (entry_index e) (entry_term e) seg off (s\<lparr>sl_entries := sl_entries s @ [e]\<rparr>)"

lemma push_record_simps [simp]:
  "sl_entries (push_record seg off e s) = sl_entries s @ [e]"
  "sl_last_index (push_record seg off e s) = entry_index e"
  "sl_last_term (push_record seg off e s) = entry_term e"
  "sl_disk (push_record seg off e s) = sl_disk s"
  "sl_base (push_record seg off e s) = sl_base s"
  "sl_has_dir (push_record seg off e s) = sl_has_dir s"
  "sl_crashed (push_record seg off e s) = sl_crashed s"
  "sl_fsync (push_record seg off e s) = sl_fsync s"
  "sl_anchor (push_record seg off e s) = sl_anchor s"
  "sl_writer (push_record seg off e s) = sl_writer s"
  by (simp_all add: push_record_def RebuildIndex_def)

lemma mk_entry_fields: "mk_entry (entry_term e) (entry_index e) (command e) = e"
  by (simp add: mk_entry_def)

lemma scan_records_record:
  assumes "entry_ok e" and "sl_last_index s < entry_index e"
  shows "scan_records seg off (record_bytes e @ rest) s
    = scan_records seg (off + 24 + length (command e)) rest (push_record seg off e s)"
proof -
  have hd: "read_header (record_bytes e @ rest) = header_of e"
    using assms(1) by (rule read_header_record)
  have pl: "drop 24 (record_bytes e) = command e"
    by (simp add: record_bytes_def)
  have sz: "hdr_size (header_of e) = length (command e)" "length (command e) \<noteq> 0"
    using assms(1) by (auto simp: header_of_def entry_ok_def)
  show ?thesis
    using assms(2) sz
    by (subst scan_records.simps)
      (simp add: hd pl kHeaderSize_def Let_def push_record_def header_of_def mk_entry_fields)
qed

text \<open>A torn write: a proper prefix of a record.\<close>

definition torn :: "string \<Rightarrow> bool" where
  "torn t \<longleftrightarrow> (\<exists>e k. entry_ok e \<and> k < length (record_bytes e) \<and> t = take k (record_bytes e))"

lemma torn_Nil [simp]: "torn []"
  unfolding torn_def
  by (intro exI [of _ "mk_entry 0 1 ''x''"] exI [of _ 0]) (simp add: entry_ok_def)

lemma scan_records_torn:
  assumes "torn t"
  shows "scan_records seg off t s = s"
proof -
  obtain e k where e: "entry_ok e" and k: "k < length (record_bytes e)" and t: "t = take k (record_bytes e)"
    using assms by (auto simp: torn_def)
  show ?thesis
  proof (cases "k < 24")
    case True
    then show ?thesis by (subst scan_records.simps) (simp add: t kHeaderSize_def)
  next
    case False
    then have split: "t = header_bytes (header_of e) @ take (k - 24) (command e)"
      by (simp add: t record_bytes_def)
    have "unat (crc32 (command e)) < 2 ^ 32" using unsigned_less [of "crc32 (command e)"] by simp
    then have "read_header t = header_of e"
      unfolding split using e by (intro read_header_bytes) (auto simp: header_of_def entry_ok_def)
    moreover have "hdr_size (header_of e) = length (command e)"
      using e by (simp add: header_of_def entry_ok_def)
    moreover have "length (drop 24 t) < length (command e)" using k False by (simp add: split)
    ultimately show ?thesis by (subst scan_records.simps) (simp add: Let_def kHeaderSize_def)
  qed
qed

text \<open>Bytes at which a scan stops without reading a record.\<close>

definition stops :: "string \<Rightarrow> bool" where
  "stops t \<longleftrightarrow> (\<forall>seg off s. scan_records seg off t s = s)"

lemma torn_stops: "torn t \<Longrightarrow> stops t"
  by (simp add: stops_def scan_records_torn)

lemma stops_Nil [simp]: "stops []"
  by (simp add: torn_stops)

text \<open>Entries in increasing order of their indices, above a bound.\<close>

fun ascending :: "LogIndex \<Rightarrow> LogEntry list \<Rightarrow> bool" where
  "ascending b [] \<longleftrightarrow> True"
| "ascending b (e # es) \<longleftrightarrow> b < entry_index e \<and> ascending (entry_index e) es"

lemma numbered_ascending: "numbered b es \<Longrightarrow> c \<le> b \<Longrightarrow> ascending c es"
  by (induction es arbitrary: b c) (auto simp: numbered_Cons)

text \<open>The state after a scan, as far as the log is concerned.\<close>

definition loaded :: "LogEntry list \<Rightarrow> SegmentLog \<Rightarrow> SegmentLog \<Rightarrow> bool" where
  "loaded es s s' \<longleftrightarrow> sl_entries s' = sl_entries s @ es
     \<and> sl_last_index s' = (if es = [] then sl_last_index s else entry_index (last es))
     \<and> sl_last_term s' = (if es = [] then sl_last_term s else entry_term (last es))
     \<and> sl_disk s' = sl_disk s \<and> sl_base s' = sl_base s \<and> sl_has_dir s' = sl_has_dir s
     \<and> sl_crashed s' = sl_crashed s \<and> sl_fsync s' = sl_fsync s \<and> sl_anchor s' = sl_anchor s
     \<and> sl_writer s' = sl_writer s"

lemma loaded_refl [simp]: "loaded [] s s"
  by (simp add: loaded_def)

lemma loaded_trans: "loaded es s s' \<Longrightarrow> loaded fs s' s'' \<Longrightarrow> loaded (es @ fs) s s''"
  by (simp add: loaded_def)

lemma loaded_push: "loaded [e] s (push_record seg off e s)"
  by (simp add: loaded_def)

lemma scan_records_loaded:
  assumes "list_all entry_ok es" and "ascending (sl_last_index s) es" and "stops t"
  shows "loaded es s (scan_records seg off (seg_bytes es @ t) s)"
  using assms(1,2)
proof (induction es arbitrary: off s)
  case Nil
  then show ?case using assms(3) by (simp add: stops_def)
next
  case (Cons e es)
  let ?s = "push_record seg off e s"
  have "loaded es ?s (scan_records seg (off + 24 + length (command e)) (seg_bytes es @ t) ?s)"
    using Cons by simp
  then have "loaded ([e] @ es) s (scan_records seg (off + 24 + length (command e)) (seg_bytes es @ t) ?s)"
    by (rule loaded_trans [OF loaded_push])
  then show ?case using Cons.prems by (simp add: scan_records_record)
qed

section \<open>Loading all segments\<close>

text \<open>\<open>chunks\<close> pairs each segment on disk with the entries recorded in it; a segment may end in
  bytes a scan stops at.\<close>

definition disk_holds :: "(nat \<times> LogEntry list) list \<Rightarrow> directory \<Rightarrow> bool" where
  "disk_holds chunks d \<longleftrightarrow> DiscoverSegments d = map fst chunks
     \<and> (\<forall>c \<in> set chunks. \<exists>t. stops t \<and> fs_read d (segment_name (fst c)) = Some (seg_bytes (snd c) @ t))"

abbreviation chunk_entries :: "(nat \<times> LogEntry list) list \<Rightarrow> LogEntry list" where
  "chunk_entries chunks \<equiv> concat (map snd chunks)"

lemma foldl_ScanSegment:
  assumes "\<forall>c \<in> set chunks. \<exists>t. stops t \<and> fs_read (sl_disk s) (segment_name (fst c)) = Some (seg_bytes (snd c) @ t)"
    and "list_all entry_ok (chunk_entries chunks)" and "numbered b (chunk_entries chunks)"
    and "sl_last_index s \<le> b"
  shows "loaded (chunk_entries chunks) s (foldl ScanSegment s (map fst chunks))"
  using assms
proof (induction chunks arbitrary: s b)
  case (Cons c chunks)
  let ?s = "ScanSegment s (fst c)"
  obtain t where t: "stops t" "fs_read (sl_disk s) (segment_name (fst c)) = Some (seg_bytes (snd c) @ t)"
    using Cons.prems(1) by auto
  have num: "numbered b (snd c)" "numbered (b + length (snd c)) (chunk_entries chunks)"
    using Cons.prems(3) by (simp_all add: numbered_append)
  have l: "loaded (snd c) s ?s"
    using scan_records_loaded [OF _ numbered_ascending [OF num(1) Cons.prems(4)] t(1)] Cons.prems(2) t(2)
    by (simp add: ScanSegment_def)
  have last: "sl_last_index ?s \<le> b + length (snd c)"
  proof (cases "snd c = []")
    case False
    then have "entry_index (last (snd c)) = b + length (snd c)"
      using num(1) by (rule numbered_last [rotated])
    with False show ?thesis using l by (simp add: loaded_def)
  qed (use l Cons.prems(4) in \<open>simp add: loaded_def\<close>)
  have "loaded (chunk_entries chunks) ?s (foldl ScanSegment ?s (map fst chunks))"
    using Cons.prems num(2) last l by (intro Cons.IH) (auto simp: loaded_def)
  from loaded_trans [OF l this] show ?case by simp
qed simp

lemma LoadSegments_loaded:
  assumes "disk_holds chunks (sl_disk s)" and "list_all entry_ok (chunk_entries chunks)"
    and "numbered b (chunk_entries chunks)" and "sl_last_index s \<le> b"
  shows "loaded (chunk_entries chunks) s (LoadSegments s)"
proof -
  have "loaded (chunk_entries chunks) s (foldl ScanSegment s (map fst chunks))"
    using assms by (intro foldl_ScanSegment [of chunks s b]) (simp_all add: disk_holds_def)
  then show ?thesis using assms(1) by (simp add: LoadSegments_def disk_holds_def)
qed

section \<open>Segment names\<close>

lemma dec_val_zeros [simp]: "dec_val 0 (replicate k (CHR ''0'') @ ds) = dec_val 0 ds"
  by (induction k) (simp_all add: digit_val_def)

lemma parse_segment_name_segment_name [simp]:
  assumes "seg < 2 ^ 32"
  shows "parse_segment_name (segment_name seg) = Some seg"
proof -
  let ?ds = "replicate (8 - length (to_string seg)) (CHR ''0'') @ to_string seg"
  have "is_digit (CHR ''0'')" by (simp add: is_digit_def)
  then have dig: "list_all is_digit ?ds" by (auto simp: list_all_iff)
  have st: "strtoull (?ds @ ''.log'') = Some (seg, ''.log'')"
    using strtoull_digits [OF _ dig, of "''.log''"] assms by simp
  have "drop 8 (segment_name seg) = ?ds @ ''.log''" by (simp add: segment_name_def)
  moreover have "starts_with ''segment_'' (segment_name seg)" by (simp add: segment_name_def)
  moreover have "13 \<le> length (segment_name seg)"
    using to_string_not_Nil [of seg] by (cases "to_string seg") (auto simp: segment_name_def)
  moreover have "drop (length (segment_name seg) - 4) (segment_name seg) = ''.log''"
    by (simp add: segment_name_def)
  ultimately show ?thesis using st assms by (simp add: parse_segment_name_def)
qed

lemma segment_name_inject:
  "i < 2 ^ 32 \<Longrightarrow> j < 2 ^ 32 \<Longrightarrow> segment_name i = segment_name j \<longleftrightarrow> i = j"
  by (metis option.inject parse_segment_name_segment_name)

lemma parse_manifest_names [simp]:
  "parse_segment_name manifest_name = None" "parse_segment_name (manifest_name @ ''.tmp'') = None"
  by (simp_all add: parse_segment_name_def manifest_name_def)

lemma segment_name_not_manifest [simp]:
  "segment_name i \<noteq> manifest_name" "segment_name i \<noteq> manifest_name @ ''.tmp''"
  by (simp_all add: segment_name_def manifest_name_def)

text \<open>The ids in directory order, before sorting.\<close>

definition seg_ids :: "directory \<Rightarrow> nat list" where
  "seg_ids d = List.map_filter parse_segment_name (fs_names d)"

lemma DiscoverSegments_seg_ids: "DiscoverSegments d = sort (seg_ids d)"
  by (simp add: DiscoverSegments_def seg_ids_def)

lemma map_filter_Cons':
  "List.map_filter f (x # xs) = (case f x of None \<Rightarrow> List.map_filter f xs | Some y \<Rightarrow> y # List.map_filter f xs)"
  by (cases "f x") (simp_all add: List.map_filter_def)

lemma map_filter_append': "List.map_filter f (xs @ ys) = List.map_filter f xs @ List.map_filter f ys"
  by (simp add: List.map_filter_def)

lemma seg_ids_append [simp]: "seg_ids (fs_append n bs d) = seg_ids d"
  by (simp add: seg_ids_def)

lemma seg_ids_sync [simp]: "seg_ids (fs_sync n d) = seg_ids d"
  by (simp add: seg_ids_def)

lemma seg_ids_put_old: "map_of d n = Some x \<Longrightarrow> seg_ids (fs_put n f d) = seg_ids d"
  by (simp add: seg_ids_def fs_names_def map_fst_alist_put_Some)

lemma seg_ids_put_new:
  "map_of d n = None \<Longrightarrow> seg_ids (fs_put n f d)
     = seg_ids d @ (case parse_segment_name n of None \<Rightarrow> [] | Some i \<Rightarrow> [i])"
  using map_fst_alist_put(2) [of n d f]
  by (auto simp: seg_ids_def fs_names_def map_of_eq_None_iff map_filter_append' map_filter_Cons'
      List.map_filter_def split: option.splits)

lemma seg_ids_put_other: "parse_segment_name n = None \<Longrightarrow> seg_ids (fs_put n f d) = seg_ids d"
  by (cases "map_of d n") (simp_all add: seg_ids_put_old seg_ids_put_new)

lemma seg_ids_unlink_other: "parse_segment_name n = None \<Longrightarrow> seg_ids (fs_unlink n d) = seg_ids d"
  by (induction d) (auto simp: seg_ids_def fs_names_def fs_unlink_def alist_del_def map_filter_Cons' split: option.splits)

lemma seg_ids_truncate [simp]: "seg_ids (fs_truncate n k d) = seg_ids d"
  by (auto simp: fs_truncate_def seg_ids_put_old split: option.splits)

lemma seg_ids_manifest_Save [simp]: "seg_ids (manifest_Save seg d) = seg_ids d"
  by (simp add: manifest_Save_def fs_rename_def fs_open_trunc_def Let_def seg_ids_put_other
      seg_ids_unlink_other split: option.splits)

lemma fs_read_manifest_Save_segment [simp]:
  "fs_read (manifest_Save seg d) (segment_name i) = fs_read d (segment_name i)"
  by (simp add: fs_read_manifest_Save)

lemma map_of_manifest_Save_segment [simp]:
  "map_of (manifest_Save seg d) (segment_name i) = map_of d (segment_name i)"
  by (simp add: manifest_Save_def fs_rename_def fs_open_trunc_def fs_append_def fs_sync_def Let_def
      split: option.splits)

lemma manifest_Load_segments [simp]:
  "seg_ids (snd (manifest_Load m d)) = seg_ids d"
  "fs_read (snd (manifest_Load m d)) (segment_name i) = fs_read d (segment_name i)"
  "map_of (snd (manifest_Load m d)) (segment_name i) = map_of d (segment_name i)"
  by (auto simp: manifest_Load_def split: option.splits)

lemma disk_holds_manifest_Load [simp]:
  "disk_holds chunks (snd (manifest_Load m d)) \<longleftrightarrow> disk_holds chunks d"
  by (simp add: disk_holds_def DiscoverSegments_seg_ids)

section \<open>Recovery\<close>

definition recover :: "directory \<Rightarrow> SegmentLog" where
  "recover d = snd (sl_Open (sl_new True d))"

lemma open_last_segment_frame [frame_simps]:
  "sl_entries (snd (open_last_segment s)) = sl_entries s"
  "sl_base (snd (open_last_segment s)) = sl_base s"
  "sl_last_index (snd (open_last_segment s)) = sl_last_index s"
  "sl_last_term (snd (open_last_segment s)) = sl_last_term s"
  "sl_crashed (snd (open_last_segment s)) = sl_crashed s"
  "sl_has_dir (snd (open_last_segment s)) = sl_has_dir s"
  "sl_fsync (snd (open_last_segment s)) = sl_fsync s"
  "sl_anchor (snd (open_last_segment s)) = sl_anchor s"
  by (simp_all add: open_last_segment_def Let_def split: prod.splits)

lemma open_last_segment_writer:
  "DiscoverSegments (sl_disk s) \<noteq> [] \<Longrightarrow>
   sl_writer (snd (open_last_segment s)) =
     Some (snd (snd (ww_OpenAppend (segment_name (last (DiscoverSegments (sl_disk s)))) (sl_disk s, ww_new))))"
  "DiscoverSegments (sl_disk s) = [] \<Longrightarrow> open_last_segment s = (True, s)"
  by (simp_all add: open_last_segment_def ww_OpenAppend_def ww_new_def Let_def)

lemma rebase_frame [frame_simps]:
  "sl_entries (rebase s) = sl_entries s" "sl_last_index (rebase s) = sl_last_index s"
  "sl_last_term (rebase s) = sl_last_term s" "sl_crashed (rebase s) = sl_crashed s"
  "sl_has_dir (rebase s) = sl_has_dir s" "sl_disk (rebase s) = sl_disk s"
  "sl_writer (rebase s) = sl_writer s" "sl_fsync (rebase s) = sl_fsync s"
  "sl_anchor (rebase s) = sl_anchor s"
  by (simp_all add: rebase_def)

lemma rebase_base:
  assumes "sl_entries s = h # es" and "sl_base s = 0" and "numbered b es" and "es = [] \<Longrightarrow> b = 0"
  shows "sl_base (rebase s) = b"
  using assms by (cases es) (auto simp: rebase_def numbered_Cons)

lemma recover_log:
  assumes "disk_holds chunks d" and "list_all entry_ok (chunk_entries chunks)"
    and "numbered b (chunk_entries chunks)" and "chunk_entries chunks = [] \<Longrightarrow> b = 0"
  shows "sl_ents (recover d) = chunk_entries chunks" and "sl_base (recover d) = b"
    and "sl_inv (recover d)" and "sl_has_dir (recover d)" and "sl_fsync (recover d)"
    and "sl_anchor (recover d) = \<lparr>anchor_index = 0, anchor_term = 0\<rparr>"
proof -
  obtain m d1 where md: "manifest_Load 0 d = (m, d1)" by fastforce
  let ?s0 = "(sl_new True d)\<lparr>sl_manifest := m, sl_disk := d1\<rparr>"
  let ?s1 = "LoadSegments ?s0"
  have rec: "recover d = snd (open_last_segment (rebase ?s1))"
    using md by (simp add: recover_def sl_Open_def sl_new_def)
  have holds: "disk_holds chunks d1"
    using assms(1) disk_holds_manifest_Load [of chunks 0 d] md by simp
  have "loaded (chunk_entries chunks) ?s0 ?s1"
    using holds assms(2,3) by (intro LoadSegments_loaded) (simp_all add: sl_new_def)
  then have e1: "sl_entries ?s1 = mk_entry 0 0 [] # chunk_entries chunks" "sl_base ?s1 = 0"
    "sl_has_dir ?s1" "\<not> sl_crashed ?s1" "sl_writer ?s1 = None" "sl_fsync ?s1" "sl_disk ?s1 = d1"
    "sl_anchor ?s1 = \<lparr>anchor_index = 0, anchor_term = 0\<rparr>"
    "sl_last_index ?s1 = (if chunk_entries chunks = [] then 0 else entry_index (last (chunk_entries chunks)))"
    "sl_last_term ?s1 = last_term (chunk_entries chunks)"
    by (simp_all add: loaded_def sl_new_def last_term_def)
  have last: "sl_last_index ?s1 = b + length (chunk_entries chunks)"
    using e1(9) assms(4) numbered_last [OF assms(3)] by auto
  have b: "sl_base (rebase ?s1) = b" using e1(1,2) assms(3,4) by (rule rebase_base)
  show "sl_ents (recover d) = chunk_entries chunks" "sl_base (recover d) = b"
    "sl_has_dir (recover d)" "sl_fsync (recover d)"
    "sl_anchor (recover d) = \<lparr>anchor_index = 0, anchor_term = 0\<rparr>"
    using e1 b by (simp_all add: rec frame_simps sl_ents_def)
  have "writer_ok (recover d)"
  proof (cases "DiscoverSegments d1 = []")
    case True
    then have "chunks = []" using holds by (simp add: disk_holds_def)
    then show ?thesis using True e1 by (simp add: rec open_last_segment_writer frame_simps writer_ok_def)
  next
    case False
    then show ?thesis using e1
      by (simp add: rec open_last_segment_writer frame_simps writer_ok_def ww_OpenAppend_def ww_new_def
          ww_IsOpen_def Let_def)
  qed
  then show "sl_inv (recover d)"
    using e1 b last assms(3) by (simp add: sl_inv_def rec frame_simps sl_ents_def)
qed

section \<open>Appends with fsync are durable\<close>

definition synced_file :: "directory \<Rightarrow> string \<Rightarrow> string \<Rightarrow> bool" where
  "synced_file d n bs \<longleftrightarrow> map_of d n = Some \<lparr>f_data = bs, f_synced = length bs\<rparr>"

text \<open>The disk mirrors the log: segments \<open>0, 1, \<dots>\<close> hold the records of all entries, everything is
  synced, and the writer stands at the end of the last segment.\<close>

definition wal_inv :: "(nat \<times> LogEntry list) list \<Rightarrow> SegmentLog \<Rightarrow> bool" where
  "wal_inv chunks s \<longleftrightarrow> sl_inv s \<and> sl_has_dir s \<and> sl_base s = 0 \<and> sl_fsync s
     \<and> seg_ids (sl_disk s) = map fst chunks \<and> map fst chunks = [0..<length chunks]
     \<and> length chunks \<le> length (sl_ents s) + 1
     \<and> (\<forall>c \<in> set chunks. synced_file (sl_disk s) (segment_name (fst c)) (seg_bytes (snd c)))
     \<and> chunk_entries chunks = sl_ents s \<and> list_all entry_ok (sl_ents s)
     \<and> (if chunks = [] then sl_writer s = None \<and> sl_cur s = 0
        else sl_cur s = length chunks - 1
          \<and> sl_writer s = Some \<lparr>ww_file = Some (segment_name (sl_cur s)),
               ww_file_size = length (seg_bytes (snd (last chunks))), ww_buf = []\<rparr>)"

lemma segment_fresh:
  assumes "seg_ids d = [0..<n]" and "n < 2 ^ 32"
  shows "map_of d (segment_name n) = None"
proof (rule ccontr)
  assume "map_of d (segment_name n) \<noteq> None"
  then have "segment_name n \<in> set (fs_names d)" by (simp add: fs_names_read fs_read_def)
  then have "n \<in> set (seg_ids d)"
    using assms(2) by (force simp: seg_ids_def List.map_filter_def)
  then show False using assms(1) by simp
qed

text \<open>Opening a new last segment.\<close>

lemma wal_open_segment:
  assumes ids: "seg_ids (sl_disk s) = [0..<n]" and n: "n < 2 ^ 32" and "sl_cur s = n" "sl_writer s = None"
  shows "snd (sl_EnsureWriter s) = s\<lparr>sl_disk := fs_put (segment_name n) \<lparr>f_data = [], f_synced = 0\<rparr> (sl_disk s),
      sl_writer := Some \<lparr>ww_file = Some (segment_name n), ww_file_size = 0, ww_buf = []\<rparr>\<rparr>"
    and "seg_ids (fs_put (segment_name n) \<lparr>f_data = [], f_synced = 0\<rparr> (sl_disk s)) = [0..<n + 1]"
proof -
  note fresh = segment_fresh [OF ids n]
  then show "snd (sl_EnsureWriter s) = s\<lparr>sl_disk := fs_put (segment_name n) \<lparr>f_data = [], f_synced = 0\<rparr> (sl_disk s),
      sl_writer := Some \<lparr>ww_file = Some (segment_name n), ww_file_size = 0, ww_buf = []\<rparr>\<rparr>"
    using assms(3,4) by (simp add: sl_EnsureWriter_def ww_OpenAppend_def ww_new_def fs_open_append_def
        fs_exists_def Let_def)
  show "seg_ids (fs_put (segment_name n) \<lparr>f_data = [], f_synced = 0\<rparr> (sl_disk s)) = [0..<n + 1]"
    using fresh ids n by (simp add: seg_ids_put_new)
qed

lemma synced_file_put [simp]:
  "synced_file (fs_put n f d) m bs \<longleftrightarrow>
     (if m = n then f = \<lparr>f_data = bs, f_synced = length bs\<rparr> else synced_file d m bs)"
  by (auto simp: synced_file_def)

lemma synced_file_read [simp]: "synced_file d n bs \<Longrightarrow> fs_read d n = Some bs"
  by (simp add: synced_file_def fs_read_def)

lemma wal_inv_ready:
  assumes "wal_inv chunks s"
  shows "wal_inv (if chunks = [] then [(0, [])] else chunks) (append_ready s)"
proof (cases "chunks = []")
  case True
  then have "sl_ents s = []" "sl_last_index s = 0" "sl_writer s = None" "sl_cur s = 0"
    "seg_ids (sl_disk s) = [0..<0]"
    using assms by (auto simp: wal_inv_def sl_inv_def)
  moreover from this have "append_ready s = snd (sl_EnsureWriter s)" by (simp add: append_ready_def)
  ultimately show ?thesis
    using assms True wal_open_segment [of s 0]
    by (auto simp: wal_inv_def sl_inv_def sl_ents_def writer_ok_def ww_IsOpen_def)
next
  case False
  then have "sl_writer s \<noteq> None" using assms by (simp add: wal_inv_def)
  then show ?thesis using assms False by (auto simp: append_ready_def)
qed

lemma fs_write_sync:
  assumes "synced_file d n bs"
  shows "map_of (fs_sync n (fs_append n xs d)) =
    (map_of d)(n \<mapsto> \<lparr>f_data = bs @ xs, f_synced = length (bs @ xs)\<rparr>)"
  using assms by (simp add: synced_file_def fs_sync_def fs_append_def)

lemma record_bytes_not_Nil [simp]: "record_bytes e \<noteq> []"
  using length_record_bytes [of e] by (metis add_is_0 list.size(3) zero_neq_numeral)

lemma wal_inv_last:
  assumes "wal_inv chunks s" and "chunks \<noteq> []"
  obtains cs es where "chunks = cs @ [(length cs, es)]" and "sl_cur s = length cs"
    and "sl_writer s = Some \<lparr>ww_file = Some (segment_name (length cs)),
        ww_file_size = length (seg_bytes es), ww_buf = []\<rparr>"
    and "synced_file (sl_disk s) (segment_name (length cs)) (seg_bytes es)"
proof -
  obtain cs n es where c: "chunks = cs @ [(n, es)]" using assms(2) by (metis prod.exhaust rev_exhaust)
  moreover have "n = length cs"
    using assms(1) c by (auto simp: wal_inv_def)
  ultimately show ?thesis using assms(1) that by (auto simp: wal_inv_def)
qed

lemma chunk_ids_bound:
  assumes "map fst (cs @ [(length cs, es)]) = [0..<length cs + 1]" and "c \<in> set cs"
  shows "fst c < length cs"
  using assms by (metis append1_eq_conv atLeastLessThan_iff fst_conv image_eqI list.set_map
      list.simps(8,9) map_append set_upt upt_Suc_append zero_le add.commute plus_1_eq_Suc)

text \<open>Writing one record into the last segment, before the size check.\<close>

lemma wal_inv_write:
  assumes inv: "wal_inv (cs @ [(length cs, es)]) s" and e: "entry_ok e" "entry_index e = sl_last_index s + 1"
    and small: "length cs < 2 ^ 32"
  shows "wal_inv (cs @ [(length cs, es @ [e])])
    ((append_mem e s)\<lparr>sl_disk := fs_sync (segment_name (length cs))
          (fs_append (segment_name (length cs)) (record_bytes e) (sl_disk s)),
        sl_writer := Some \<lparr>ww_file = Some (segment_name (length cs)),
          ww_file_size = length (seg_bytes (es @ [e])), ww_buf = []\<rparr>,
        sl_index := ix\<rparr>)" (is "wal_inv ?chunks ?t")
proof -
  let ?n = "segment_name (length cs)"
  let ?d = "fs_sync ?n (fs_append ?n (record_bytes e) (sl_disk s))"
  have fl: "synced_file (sl_disk s) ?n (seg_bytes es)" using inv by (simp add: wal_inv_def)
  have d: "map_of ?d = (map_of (sl_disk s))(?n \<mapsto>
      \<lparr>f_data = seg_bytes es @ record_bytes e, f_synced = length (seg_bytes es @ record_bytes e)\<rparr>)"
    using fs_write_sync [OF fl, of "record_bytes e"] .
  have ids: "map fst (cs @ [(length cs, es)]) = [0..<length cs + 1]" using inv by (simp add: wal_inv_def)
  have other: "synced_file ?d (segment_name (fst c)) (seg_bytes (snd c))" if "c \<in> set cs" for c
  proof -
    have "fst c < length cs" using ids that by (rule chunk_ids_bound)
    then have "segment_name (fst c) \<noteq> ?n" using small by (simp add: segment_name_inject)
    moreover have "synced_file (sl_disk s) (segment_name (fst c)) (seg_bytes (snd c))"
      using inv that by (simp add: wal_inv_def)
    ultimately show ?thesis by (simp add: synced_file_def d)
  qed
  have ne: "sl_entries s \<noteq> []" using inv by (simp add: wal_inv_def sl_inv_def)
  then have ents': "sl_ents ?t = sl_ents s @ [e]" by (simp add: sl_ents_def append_mem_def)
  have "sl_inv ?t"
    unfolding sl_inv_def ents' using inv e(2)
    by (auto simp: wal_inv_def sl_inv_def append_mem_def writer_ok_def ww_IsOpen_def)
  then show ?thesis
    using inv other d e(1) unfolding wal_inv_def ents'
    by (auto simp: append_mem_def synced_file_def)
qed

lemma wal_inv_roll:
  assumes inv: "wal_inv chunks s" and "chunks \<noteq> []" and "length chunks \<le> length (sl_ents s)"
    and small: "length chunks < 2 ^ 32"
  shows "wal_inv (chunks @ [(length chunks, [])]) (snd (RollSegment s))"
proof -
  obtain cs es where c: "chunks = cs @ [(length cs, es)]" "sl_cur s = length cs"
    "sl_writer s = Some \<lparr>ww_file = Some (segment_name (length cs)),
        ww_file_size = length (seg_bytes es), ww_buf = []\<rparr>"
    using inv assms(2) by (rule wal_inv_last)
  let ?n = "length chunks"
  let ?s1 = "s\<lparr>sl_writer := None, sl_cur := ?n, sl_manifest := ?n, sl_disk := manifest_Save ?n (sl_disk s)\<rparr>"
  have roll: "snd (RollSegment s) = snd (sl_EnsureWriter ?s1)"
    using c small by (simp add: RollSegment_def close_writer_def ww_Close_def ww_Flush_def set_segment_def)
  have ids: "seg_ids (sl_disk ?s1) = [0..<?n]" using inv by (simp add: wal_inv_def)
  have len: "Suc ?n \<le> length (sl_entries s)"
    using inv assms(3) by (cases "sl_entries s") (auto simp: wal_inv_def sl_inv_def sl_ents_def)
  have other: "synced_file (manifest_Save ?n (sl_disk s)) (segment_name (fst c)) (seg_bytes (snd c))"
    "segment_name (fst c) \<noteq> segment_name ?n" if "c \<in> set chunks" for c
  proof -
    have "fst c \<in> set (map fst chunks)" using that by auto
    moreover have "map fst chunks = [0..<?n]" using inv by (simp add: wal_inv_def)
    ultimately have "fst c < ?n" by simp
    then show "segment_name (fst c) \<noteq> segment_name ?n" using small by (simp add: segment_name_inject)
    show "synced_file (manifest_Save ?n (sl_disk s)) (segment_name (fst c)) (seg_bytes (snd c))"
      using inv that by (simp add: wal_inv_def synced_file_def)
  qed
  have "snd (RollSegment s) = ?s1\<lparr>sl_disk := fs_put (segment_name ?n) \<lparr>f_data = [], f_synced = 0\<rparr> (sl_disk ?s1),
      sl_writer := Some \<lparr>ww_file = Some (segment_name ?n), ww_file_size = 0, ww_buf = []\<rparr>\<rparr>"
    unfolding roll by (rule wal_open_segment(1) [OF ids small]) simp_all
  moreover have "seg_ids (fs_put (segment_name ?n) \<lparr>f_data = [], f_synced = 0\<rparr> (sl_disk ?s1)) = [0..<?n + 1]"
    by (rule wal_open_segment(2) [OF ids small]) simp_all
  ultimately show ?thesis
    using inv other len
    by (auto simp: wal_inv_def sl_inv_def sl_ents_def writer_ok_def ww_IsOpen_def)
qed

lemma wal_inv_Append:
  assumes inv: "wal_inv chunks s" and e: "entry_ok (e\<lparr>entry_index := sl_last_index s + 1\<rparr>)"
    and small: "length (sl_ents s) + 1 < 2 ^ 32"
  shows "\<exists>chunks'. wal_inv chunks' (snd (sl_Append e True s))"
proof -
  let ?e = "e\<lparr>entry_index := sl_last_index s + 1\<rparr>"
  let ?chunks = "if chunks = [] then [(0, [])] else chunks"
  let ?s = "append_ready s"
  have r: "wal_inv ?chunks ?s" using inv by (rule wal_inv_ready)
  obtain cs es where c: "?chunks = cs @ [(length cs, es)]" "sl_cur ?s = length cs"
    "sl_writer ?s = Some \<lparr>ww_file = Some (segment_name (length cs)),
        ww_file_size = length (seg_bytes es), ww_buf = []\<rparr>"
    using r by (rule wal_inv_last) auto
  have len: "length cs \<le> length (sl_ents s)" "sl_ents ?s = sl_ents s"
    using r c(1) by (simp_all add: wal_inv_def sl_ents_def frame_simps)
  let ?t = "(append_mem ?e ?s)\<lparr>sl_disk := fs_sync (segment_name (length cs))
          (fs_append (segment_name (length cs)) (record_bytes ?e) (sl_disk ?s)),
        sl_writer := Some \<lparr>ww_file = Some (segment_name (length cs)),
          ww_file_size = length (seg_bytes (es @ [?e])), ww_buf = []\<rparr>,
        sl_index := wi_Add (entry_index ?e) (length cs) (length (seg_bytes es)) (sl_index ?s)\<rparr>"
  have t: "wal_inv (cs @ [(length cs, es @ [?e])]) ?t"
    using r c(1) e len small by (intro wal_inv_write) (simp_all add: frame_simps)
  have "sl_inv s" "sl_has_dir s" "sl_fsync ?s" using inv r by (simp_all add: wal_inv_def)
  then have "snd (sl_Append e True s) =
      (if kMaxSegmentBytes \<le> length (seg_bytes (es @ [?e])) then snd (RollSegment ?t) else ?t)"
    using sl_Append_disk [OF _ _ c(3), of e True] c(2)
    by (simp add: append_disk_def append_mem_def ww_Append_def ww_Flush_def ww_next_write_offset_def)
  moreover have "sl_ents ?t = sl_ents s @ [?e]"
    using len(2) r by (simp add: sl_ents_def append_mem_def wal_inv_def sl_inv_def)
  ultimately show ?thesis
    using t wal_inv_roll [OF t] len small by (auto split: if_splits)
qed

section \<open>Runs of appends\<close>

definition appends :: "LogEntry list \<Rightarrow> SegmentLog \<Rightarrow> SegmentLog" where
  "appends es s = fold (\<lambda>e s. snd (sl_Append e True s)) es s"

primrec renumber :: "LogIndex \<Rightarrow> LogEntry list \<Rightarrow> LogEntry list" where
  "renumber b [] = []"
| "renumber b (e # es) = e\<lparr>entry_index := b + 1\<rparr> # renumber (b + 1) es"

definition cmd_ok :: "LogEntry \<Rightarrow> bool" where
  "cmd_ok e \<longleftrightarrow> entry_term e < 2 ^ 64 \<and> length (command e) < 2 ^ 32 \<and> command e \<noteq> []"

lemma entry_ok_renumbered: "cmd_ok e \<Longrightarrow> i < 2 ^ 64 \<Longrightarrow> entry_ok (e\<lparr>entry_index := i\<rparr>)"
  by (simp add: cmd_ok_def entry_ok_def)

lemma wal_inv_appends:
  assumes "wal_inv chunks s" and "list_all cmd_ok es" and "length (sl_ents s) + length es < 2 ^ 32"
  shows "\<exists>chunks'. wal_inv chunks' (appends es s)"
    and "sl_ents (appends es s) = sl_ents s @ renumber (length (sl_ents s)) es"
proof -
  have "(\<exists>chunks'. wal_inv chunks' (appends es s))
      \<and> sl_ents (appends es s) = sl_ents s @ renumber (length (sl_ents s)) es"
    using assms
  proof (induction es arbitrary: chunks s)
    case (Cons e es)
    obtain idx s' where a: "sl_Append e True s = (idx, s')" by fastforce
    have inv: "sl_inv s" "sl_last_index s = length (sl_ents s)"
      using Cons.prems(1) by (auto simp: wal_inv_def sl_inv_def)
    have ents: "sl_ents s' = sl_ents s @ [e\<lparr>entry_index := length (sl_ents s) + 1\<rparr>]"
      using sl.Append [OF inv(1) a] inv(2) by (simp add: sl_LastIndex_def)
    have "entry_ok (e\<lparr>entry_index := sl_last_index s + 1\<rparr>)"
      using Cons.prems inv(2) by (intro entry_ok_renumbered) auto
    then obtain chunks' where "wal_inv chunks' s'"
      using wal_inv_Append [OF Cons.prems(1)] Cons.prems(3) a by fastforce
    from Cons.IH [OF this] show ?case using Cons.prems(2,3) a ents by (simp add: appends_def)
  qed (auto simp: appends_def)
  then show "\<exists>chunks'. wal_inv chunks' (appends es s)"
    "sl_ents (appends es s) = sl_ents s @ renumber (length (sl_ents s)) es" by auto
qed

lemma wal_inv_fresh: "wal_inv [] (recover [])"
proof -
  have h: "disk_holds [] []" by (simp add: disk_holds_def DiscoverSegments_def fs_names_def List.map_filter_def)
  have "seg_ids [] = []" by (simp add: seg_ids_def fs_names_def List.map_filter_def)
  then have "seg_ids (manifest_Save 0 []) = []" by simp
  moreover have "snd (open_last_segment (rebase (LoadSegments (sl_new True d\<lparr>sl_disk := manifest_Save 0 []\<rparr>))))
      = sl_new True d\<lparr>sl_disk := manifest_Save 0 []\<rparr>" for d
    using calculation by (simp add: LoadSegments_def DiscoverSegments_seg_ids sl_new_def rebase_def
        open_last_segment_def)
  ultimately have r: "seg_ids (sl_disk (recover [])) = []" "sl_writer (recover []) = None" "sl_cur (recover []) = 0"
    by (simp_all add: recover_def sl_Open_def sl_new_def manifest_Load_def fs_read_def)
  show ?thesis using recover_log [OF h, of 0] r by (simp add: wal_inv_def)
qed

lemma wal_inv_disk_holds:
  assumes "wal_inv chunks s" and "power_failure (sl_disk s) d"
  shows "disk_holds chunks d"
proof -
  have "seg_ids d = seg_ids (sl_disk s)"
    using power_failure_names [OF assms(2)] by (simp add: seg_ids_def)
  then have "DiscoverSegments d = map fst chunks"
    using assms(1) by (simp add: DiscoverSegments_seg_ids wal_inv_def sorted_sort_id)
  moreover have "fs_read d (segment_name (fst c)) = Some (seg_bytes (snd c))" if "c \<in> set chunks" for c
  proof -
    have f: "map_of (sl_disk s) (segment_name (fst c))
        = Some \<lparr>f_data = seg_bytes (snd c), f_synced = length (seg_bytes (snd c))\<rparr>"
      using assms(1) that by (simp add: wal_inv_def synced_file_def)
    show ?thesis using power_failure_synced [OF assms(2) f] f by (simp add: fs_read_def)
  qed
  ultimately show ?thesis by (auto simp: disk_holds_def intro: exI [of _ "[]"])
qed

lemma wal_inv_recover:
  assumes "wal_inv chunks s" and "disk_holds chunks d"
  shows "sl_ents (recover d) = sl_ents s"
  using recover_log(1) [OF assms(2), of 0] assms(1) by (auto simp: wal_inv_def sl_inv_def)

lemma power_failure_Cons [simp]:
  "power_failure (x # d) (y # d') \<longleftrightarrow> fst x = fst y \<and> file_cut (snd x) (snd y) \<and> power_failure d d'"
  by (simp add: power_failure_def)

lemma power_failure_put:
  "map_of d n = Some f \<Longrightarrow> file_cut g f \<Longrightarrow> power_failure (fs_put n g d) d"
  by (induction d) (auto split: if_splits)

lemma power_failure_unsynced:
  assumes "synced_file d n bs"
  shows "power_failure (fs_append n xs d) d"
proof -
  have "file_cut \<lparr>f_data = bs @ xs, f_synced = length bs\<rparr> \<lparr>f_data = bs, f_synced = length bs\<rparr>"
    unfolding file_cut_def by (rule exI [of _ "length bs"]) simp
  then show ?thesis using assms power_failure_put [of d n] by (simp add: synced_file_def fs_append_def)
qed

lemma run_of_appends:
  assumes "list_all cmd_ok es" and "length es < 2 ^ 32"
  obtains chunks where "wal_inv chunks (appends es (recover []))"
    and "sl_ents (appends es (recover [])) = renumber 0 es"
proof -
  have "sl_ents (recover []) = []" using wal_inv_fresh by (simp add: wal_inv_def)
  then show ?thesis using wal_inv_appends [OF wal_inv_fresh assms(1)] assms(2) that by auto
qed

lemma length_renumber [simp]: "length (renumber b es) = length es"
  by (induction es arbitrary: b) auto

text \<open>What \<open>sl_Append\<close> without a flush leaves behind, in the last segment and in the writer.\<close>

lemma wal_Append_unflushed:
  assumes inv: "wal_inv chunks s" and cur: "sl_cur (snd (sl_Append e False s)) = sl_cur s"
    and small: "length (sl_ents s) + 1 < 2 ^ 32"
  obtains cs es where "wal_inv (cs @ [(length cs, es)]) (append_ready s)"
    and "sl_disk (snd (sl_Append e False s)) = fs_append (segment_name (length cs))
        (record_bytes (e\<lparr>entry_index := sl_last_index s + 1\<rparr>)) (sl_disk (append_ready s))"
    and "\<exists>w. sl_writer (snd (sl_Append e False s)) = Some w \<and> ww_IsOpen w \<and> ww_buf w = []"
proof -
  let ?e = "e\<lparr>entry_index := sl_last_index s + 1\<rparr>"
  let ?s = "append_ready s"
  have r: "wal_inv (if chunks = [] then [(0, [])] else chunks) ?s" using inv by (rule wal_inv_ready)
  obtain cs es where c: "(if chunks = [] then [(0, [])] else chunks) = cs @ [(length cs, es)]"
    "sl_cur ?s = length cs"
    "sl_writer ?s = Some \<lparr>ww_file = Some (segment_name (length cs)),
        ww_file_size = length (seg_bytes es), ww_buf = []\<rparr>"
    using r by (rule wal_inv_last) auto
  let ?t = "(append_mem ?e ?s)\<lparr>sl_disk := fs_append (segment_name (length cs)) (record_bytes ?e) (sl_disk ?s),
        sl_writer := Some \<lparr>ww_file = Some (segment_name (length cs)),
          ww_file_size = length (seg_bytes (es @ [?e])), ww_buf = []\<rparr>,
        sl_index := wi_Add (entry_index ?e) (length cs) (length (seg_bytes es)) (sl_index ?s)\<rparr>"
  have "length cs \<le> length (sl_ents s)" using r c(1) by (simp add: wal_inv_def sl_ents_def frame_simps)
  then have wrap: "(length cs + 1) mod 2 ^ 32 \<noteq> length cs" using small by simp
  have "sl_inv s" "sl_has_dir s" using inv by (simp_all add: wal_inv_def)
  then have app: "snd (sl_Append e False s) =
      (if kMaxSegmentBytes \<le> length (seg_bytes (es @ [?e])) then snd (RollSegment ?t) else ?t)"
    using sl_Append_disk [OF _ _ c(3), of e False] c(2)
    by (simp add: append_disk_def append_mem_def ww_Append_def ww_WriteNoSync_def ww_next_write_offset_def)
  have "sl_cur s = sl_cur ?s" using inv r c(1,2) by (auto simp: wal_inv_def split: if_splits)
  moreover have "sl_cur (snd (RollSegment ?t)) = (length cs + 1) mod 2 ^ 32"
    using c(2) by (simp add: RollSegment_def sl_EnsureWriter_def set_segment_def close_writer_def
        append_mem_def ww_OpenAppend_def ww_new_def Let_def)
  ultimately have "snd (sl_Append e False s) = ?t" using app cur c(2) wrap by (auto split: if_splits)
  then show ?thesis using that r c(1) by (simp add: ww_IsOpen_def)
qed

text \<open>Bytes behind the last record of the last segment.\<close>

lemma disk_holds_tail:
  assumes inv: "wal_inv (cs @ [(length cs, es)]) s" and "stops t" and small: "length cs < 2 ^ 32"
  shows "disk_holds (cs @ [(length cs, es)]) (fs_append (segment_name (length cs)) t (sl_disk s))"
proof -
  let ?d = "fs_append (segment_name (length cs)) t (sl_disk s)"
  have ids: "map fst (cs @ [(length cs, es)]) = [0..<length cs + 1]"
    "seg_ids (sl_disk s) = map fst (cs @ [(length cs, es)])" using inv by (simp_all add: wal_inv_def)
  have "DiscoverSegments ?d = map fst (cs @ [(length cs, es)])"
    using ids by (simp add: DiscoverSegments_seg_ids sorted_sort_id del: upt_Suc)
  moreover have "\<exists>t. stops t \<and> fs_read ?d (segment_name (fst c)) = Some (seg_bytes (snd c) @ t)"
    if "c \<in> set (cs @ [(length cs, es)])" for c
  proof (cases "c \<in> set cs")
    case True
    then have "fst c < length cs" using ids(1) by (intro chunk_ids_bound)
    then have "segment_name (fst c) \<noteq> segment_name (length cs)" using small by (simp add: segment_name_inject)
    moreover have "synced_file (sl_disk s) (segment_name (fst c)) (seg_bytes (snd c))"
      using inv True by (simp add: wal_inv_def)
    ultimately show ?thesis by (intro exI [of _ "[]"]) simp
  next
    case False
    then have "c = (length cs, es)" using that by simp
    moreover have "synced_file (sl_disk s) (segment_name (length cs)) (seg_bytes es)"
      using inv by (simp add: wal_inv_def)
    ultimately show ?thesis using assms(2) by (intro exI [of _ t]) simp
  qed
  ultimately show ?thesis unfolding disk_holds_def by blast
qed

text \<open>A record that starts one byte late is not read: its size field is shifted by a byte.\<close>

lemma take_le_bytes: "j \<le> k \<Longrightarrow> take j (le_bytes k v) = le_bytes j v"
proof (induction k arbitrary: j v)
  case (Suc k)
  then show ?case by (cases j) auto
qed simp

lemma drop_le_bytes: "drop j (le_bytes (j + k) v) = le_bytes k (v div 256 ^ j)"
  by (induction j arbitrary: v) (simp_all add: div_mult2_eq)

lemma scan_records_shifted:
  assumes "entry_term e < 2 ^ 56" and "length (command e) < 2 ^ 24" and "command e \<noteq> []"
  shows "scan_records seg off (c # record_bytes e) s = s"
proof -
  let ?n = "length (command e)"
  have t: "drop 7 (le_bytes 8 (entry_term e)) = le_bytes 1 (entry_term e div 256 ^ 7)"
    using drop_le_bytes [of 7 1 "entry_term e"] by simp
  have z: "entry_term e div 256 ^ 7 = 0" using assms(1) by simp
  have "take 4 (drop 15 (record_bytes e)) = le_bytes 1 0 @ le_bytes 3 ?n"
    using assms(2) t z take_le_bytes [of 3 4 ?n]
    by (simp add: record_bytes_def header_bytes_def header_of_def)
  then have "hdr_size (read_header (c # record_bytes e)) = le_val (le_bytes 1 0 @ le_bytes 3 ?n)"
    by (simp add: read_header_def)
  also have "\<dots> = 256 * ?n" using assms(2) by simp
  finally have "hdr_size (read_header (c # record_bytes e)) = 256 * ?n" .
  moreover have "Suc 0 < 255 * ?n" using assms(3) by (cases "command e") auto
  ultimately show ?thesis
    by (subst scan_records.simps) (simp add: kHeaderSize_def Let_def)
qed

lemma torn_byte: "torn [c]"
proof -
  have "take 1 (record_bytes (mk_entry 0 (of_char c) ''x'')) = [c]"
    using take_le_bytes [of 1 8 "of_char c"] by (simp add: record_bytes_def header_bytes_def header_of_def)
  moreover have "entry_ok (mk_entry 0 (of_char c) ''x'')"
    using less_trans [OF nat_of_char_less_256 [of c], of "2 ^ 64"] by (simp add: entry_ok_def)
  ultimately show ?thesis unfolding torn_def
    by (intro exI [of _ "mk_entry 0 (of_char c) ''x''"] exI [of _ 1]) simp
qed

text \<open>The file and the writer \<open>recover\<close> continues with.\<close>

lemma recover_writer:
  assumes "disk_holds (cs @ [(n, es)]) d" and "list_all entry_ok (chunk_entries (cs @ [(n, es)]))"
    and "numbered b (chunk_entries (cs @ [(n, es)]))" and "fs_read d (segment_name n) = Some bs"
  shows "sl_disk (recover d) = snd (manifest_Load 0 d)" and "sl_cur (recover d) = n"
    and "sl_writer (recover d) =
      Some \<lparr>ww_file = Some (segment_name n), ww_file_size = length bs, ww_buf = []\<rparr>"
proof -
  obtain m d1 where md: "manifest_Load 0 d = (m, d1)" by fastforce
  let ?s0 = "(sl_new True d)\<lparr>sl_manifest := m, sl_disk := d1\<rparr>"
  let ?s1 = "rebase (LoadSegments ?s0)"
  have rec: "recover d = snd (open_last_segment ?s1)"
    using md by (simp add: recover_def sl_Open_def sl_new_def)
  have holds: "disk_holds (cs @ [(n, es)]) d1"
    using assms(1) disk_holds_manifest_Load [of _ 0 d] md by simp
  have "loaded (chunk_entries (cs @ [(n, es)])) ?s0 (LoadSegments ?s0)"
    using holds assms(2,3) by (intro LoadSegments_loaded) (simp_all add: sl_new_def)
  then have d1: "sl_disk ?s1 = d1" by (simp add: loaded_def frame_simps sl_new_def)
  have ds: "DiscoverSegments d1 = map fst cs @ [n]" using holds by (simp add: disk_holds_def)
  have rd: "fs_read d1 (segment_name n) = Some bs"
    using assms(4) manifest_Load_segments(2) [of 0 d n] md by simp
  then have op: "fs_open_append (segment_name n) d1 = d1"
    by (simp add: fs_open_append_def fs_exists_read)
  show "sl_disk (recover d) = snd (manifest_Load 0 d)" "sl_cur (recover d) = n"
    "sl_writer (recover d) =
      Some \<lparr>ww_file = Some (segment_name n), ww_file_size = length bs, ww_buf = []\<rparr>"
    unfolding rec open_last_segment_def d1 ds ww_OpenAppend_def
    using op rd md by (simp_all add: ww_new_def)
qed

lemma recover_torn_byte:
  fixes c m
  assumes "numbered 0 es" and "list_all entry_ok es"
    and "entry_term e < 2 ^ 56" and "length (command e) < 2 ^ 24" and "command e \<noteq> []"
    and "length (seg_bytes es) + 25 + length (command e) < kMaxSegmentBytes"
  defines "d \<equiv> [(segment_name 0, \<lparr>f_data = seg_bytes es @ [c], f_synced = m\<rparr>)]"
  shows "sl_ents (recover d) = es"
    and "sl_ents (snd (sl_Append e True (recover d))) = es @ [e\<lparr>entry_index := length es + 1\<rparr>]"
    and "sl_ents (recover (sl_disk (snd (sl_Append e True (recover d))))) = es"
proof -
  let ?e = "e\<lparr>entry_index := length es + 1\<rparr>"
  have ids: "seg_ids d = [0]"
    by (simp add: d_def seg_ids_def fs_names_def map_filter_Cons' List.map_filter_def)
  have rd: "fs_read d (segment_name 0) = Some (seg_bytes es @ [c])" by (simp add: d_def fs_read_def)
  have holds: "disk_holds ([] @ [(0, es)]) d"
    using ids rd torn_stops [OF torn_byte, of c] by (auto simp: disk_holds_def DiscoverSegments_seg_ids)
  note rec = recover_log [OF holds, of 0]
  have inv: "sl_ents (recover d) = es" "sl_inv (recover d)" "sl_has_dir (recover d)"
    "sl_fsync (recover d)" "sl_base (recover d) = 0"
    using rec assms(1,2) by simp_all
  then have li: "sl_last_index (recover d) = length es" by (simp add: sl_inv_def)
  note wr = recover_writer [OF holds, of 0, OF _ _ rd]
  have w: "sl_disk (recover d) = snd (manifest_Load 0 d)" "sl_cur (recover d) = 0"
    "sl_writer (recover d) = Some \<lparr>ww_file = Some (segment_name 0),
      ww_file_size = length (seg_bytes es @ [c]), ww_buf = []\<rparr>"
    using wr assms(1,2) by simp_all
  then have ready: "append_ready (recover d) = recover d" by (simp add: append_ready_def)
  have len: "length (seg_bytes es) + 25 + length (command ?e) < kMaxSegmentBytes" using assms(6) by simp
  have d2: "sl_disk (snd (sl_Append e True (recover d))) = fs_sync (segment_name 0)
      (fs_append (segment_name 0) (record_bytes ?e) (snd (manifest_Load 0 d)))"
    using sl_Append_disk [OF inv(2,3), of _ e True] ready w li inv(4) len
    by (simp add: append_disk_def append_mem_def ww_Append_def ww_Flush_def)
  show "sl_ents (recover d) = es" by (rule inv(1))
  obtain idx s' where a: "sl_Append e True (recover d) = (idx, s')" by fastforce
  show "sl_ents (snd (sl_Append e True (recover d))) = es @ [?e]"
    using sl.Append [OF inv(2) a] a inv(1) li by (simp add: sl_LastIndex_def)
  let ?d2 = "sl_disk (snd (sl_Append e True (recover d)))"
  have "stops (c # record_bytes ?e)"
    unfolding stops_def using assms(3,4,5) by (intro allI scan_records_shifted) simp_all
  moreover have "fs_read ?d2 (segment_name 0) = Some (seg_bytes es @ c # record_bytes ?e)"
    using rd by (simp add: d2)
  moreover have "DiscoverSegments ?d2 = [0]" using ids by (simp add: d2 DiscoverSegments_seg_ids)
  ultimately have "disk_holds [(0, es)] ?d2" by (auto simp: disk_holds_def)
  from recover_log(1) [OF this, of 0] assms(1,2)
  show "sl_ents (recover ?d2) = es" by simp
qed

section \<open>Properties\<close>



text \<open>C28: a torn write is harmless. If the process dies while the record of the next entry is
  written, so that any proper prefix of its bytes is in the file, reopening gives the log as it was
  before that append.\<close>

theorem torn_append_recovers_old_log:
  assumes "list_all cmd_ok es" and "length es + 1 < 2 ^ 32" and "cmd_ok e"
    and "k < length (record_bytes (e\<lparr>entry_index := length es + 1\<rparr>))"
  shows "sl_ents (recover (fs_append (segment_name (sl_cur (append_ready (appends es (recover [])))))
      (take k (record_bytes (e\<lparr>entry_index := length es + 1\<rparr>)))
      (sl_disk (append_ready (appends es (recover [])))))) = renumber 0 es"
proof -
  let ?s = "appends es (recover [])"
  let ?t = "take k (record_bytes (e\<lparr>entry_index := length es + 1\<rparr>))"
  have "length es < 2 ^ 32" using assms(2) by simp
  with assms(1) obtain chunks where c: "wal_inv chunks ?s" and e: "sl_ents ?s = renumber 0 es"
    by (rule run_of_appends)
  have r: "wal_inv (if chunks = [] then [(0, [])] else chunks) (append_ready ?s)"
    using c by (rule wal_inv_ready)
  obtain cs fs where l: "(if chunks = [] then [(0, [])] else chunks) = cs @ [(length cs, fs)]"
    "sl_cur (append_ready ?s) = length cs" using r by (rule wal_inv_last) auto
  have inv: "wal_inv (cs @ [(length cs, fs)]) (append_ready ?s)" using r l(1) by simp
  have ents: "sl_ents (append_ready ?s) = renumber 0 es" using e by (simp add: sl_ents_def frame_simps)
  have small: "length cs < 2 ^ 32" using inv ents assms(2) by (simp add: wal_inv_def)
  have "entry_ok (e\<lparr>entry_index := length es + 1\<rparr>)"
    using assms(2,3) by (intro entry_ok_renumbered) simp_all
  then have "torn ?t" using assms(4) unfolding torn_def by blast
  from disk_holds_tail [OF inv torn_stops [OF this] small]
  show ?thesis using wal_inv_recover [OF inv] l(2) ents by simp
qed

theorem torn_append_recovers_old_log_witness:
  "sl_ents (recover (fs_append (segment_name (sl_cur (append_ready (appends [mk_entry 1 0 ''a''] (recover [])))))
      (take 7 (record_bytes ((mk_entry 1 0 ''b'')\<lparr>entry_index := length [mk_entry 1 0 ''a''] + 1\<rparr>)))
      (sl_disk (append_ready (appends [mk_entry 1 0 ''a''] (recover [])))))) = renumber 0 [mk_entry 1 0 ''a'']"
  by (rule torn_append_recovers_old_log) (simp_all add: cmd_ok_def)

text \<open>C29: the deferred flush is lost. The leader appends with \<^verbatim>\<open>flush = false\<close> and calls
  \<^verbatim>\<open>Persist\<close> afterwards; the bytes have already left the writer's buffer, and \<^verbatim>\<open>WalWriter::Flush\<close>
  returns at once on an empty buffer. So after \<^verbatim>\<open>Persist\<close> a power failure can still remove the entry.\<close>

theorem Persist_does_not_sync:
  assumes "list_all cmd_ok es" and "length es + 1 < 2 ^ 32"
    and "sl_cur (snd (sl_Append e False (appends es (recover [])))) = sl_cur (appends es (recover []))"
  shows "\<exists>d. power_failure (sl_disk (sl_Persist (snd (sl_Append e False (appends es (recover [])))))) d
    \<and> sl_ents (recover d) = renumber 0 es"
proof -
  let ?s = "appends es (recover [])"
  let ?a = "snd (sl_Append e False ?s)"
  have "length es < 2 ^ 32" using assms(2) by simp
  with assms(1) obtain chunks where c: "wal_inv chunks ?s" and e: "sl_ents ?s = renumber 0 es"
    by (rule run_of_appends)
  obtain cs fs where r: "wal_inv (cs @ [(length cs, fs)]) (append_ready ?s)"
    and d: "sl_disk ?a = fs_append (segment_name (length cs))
        (record_bytes (e\<lparr>entry_index := sl_last_index ?s + 1\<rparr>)) (sl_disk (append_ready ?s))"
    and w: "\<exists>w. sl_writer ?a = Some w \<and> ww_IsOpen w \<and> ww_buf w = []"
    using c assms(3) by (rule wal_Append_unflushed) (use e assms(2) in simp)
  have "sl_disk (sl_Persist ?a) = sl_disk ?a"
    using w by (auto simp: sl_Persist_def sl_Flush_def ww_Flush_def split: option.splits)
  moreover have "power_failure (sl_disk ?a) (sl_disk (append_ready ?s))"
    unfolding d using r by (intro power_failure_unsynced [of _ _ "seg_bytes fs"]) (simp add: wal_inv_def)
  moreover have "sl_ents (recover (sl_disk (append_ready ?s))) = sl_ents (append_ready ?s)"
    using r by (rule wal_inv_recover) (rule wal_inv_disk_holds [OF r power_failure_refl])
  ultimately show ?thesis using e by (auto simp: sl_ents_def frame_simps)
qed

theorem Persist_does_not_sync_witness:
  "\<exists>d. power_failure (sl_disk (sl_Persist (snd (sl_Append (mk_entry 1 0 ''a'') False (appends [] (recover [])))))) d
    \<and> sl_ents (recover d) = renumber 0 []"
proof (rule Persist_does_not_sync)
  have w: "sl_inv (recover [])" "sl_has_dir (recover [])" "sl_cur (recover []) = 0" "sl_last_index (recover []) = 0"
    "sl_writer (recover []) = None" "seg_ids (sl_disk (recover [])) = [0..<0]"
    using wal_inv_fresh by (auto simp: wal_inv_def sl_inv_def)
  then have "append_ready (recover []) = (recover [])\<lparr>
      sl_disk := fs_put (segment_name 0) \<lparr>f_data = [], f_synced = 0\<rparr> (sl_disk (recover [])),
      sl_writer := Some \<lparr>ww_file = Some (segment_name 0), ww_file_size = 0, ww_buf = []\<rparr>\<rparr>"
    using wal_open_segment(1) [of "recover []" 0] by (simp add: append_ready_def)
  then show "sl_cur (snd (sl_Append (mk_entry 1 0 ''a'') False (appends [] (recover []))))
      = sl_cur (appends [] (recover []))"
    using sl_Append_disk [OF w(1,2), of _ "mk_entry 1 0 ''a''" False] w(3)
    by (simp add: appends_def append_disk_def append_mem_def ww_Append_def ww_WriteNoSync_def
        kMaxSegmentBytes_def mk_entry_def)
qed simp_all

text \<open>C30: a torn byte hides everything written after it. Reopening a segment that ends in one stray
  byte of an unfinished record recovers the records before it, but the writer continues behind the
  stray byte: an entry appended and synced from then on is in the log, and is gone after the next
  restart.\<close>

theorem torn_tail_hides_later_appends:
  assumes "numbered 0 es" and "list_all entry_ok es"
    and "entry_term e < 2 ^ 56" and "length (command e) < 2 ^ 24" and "command e \<noteq> []"
    and "length (seg_bytes es) + 25 + length (command e) < kMaxSegmentBytes"
    and "d = [(segment_name 0, \<lparr>f_data = seg_bytes es @ [c], f_synced = m\<rparr>)]"
  shows "sl_ents (recover d) = es
    \<and> sl_ents (snd (sl_Append e True (recover d))) = es @ [e\<lparr>entry_index := length es + 1\<rparr>]
    \<and> sl_ents (recover (sl_disk (snd (sl_Append e True (recover d))))) = es"
  unfolding assms(7) using recover_torn_byte [OF assms(1-6)] by simp

theorem torn_tail_hides_later_appends_witness:
  "sl_ents (recover [(segment_name 0, \<lparr>f_data = ''x'', f_synced = 1\<rparr>)]) = []
    \<and> sl_ents (snd (sl_Append (mk_entry 1 0 ''a'') True
        (recover [(segment_name 0, \<lparr>f_data = ''x'', f_synced = 1\<rparr>)]))) = [mk_entry 1 1 ''a'']
    \<and> sl_ents (recover (sl_disk (snd (sl_Append (mk_entry 1 0 ''a'') True
        (recover [(segment_name 0, \<lparr>f_data = ''x'', f_synced = 1\<rparr>)]))))) = []"
  using torn_tail_hides_later_appends [of "[]" "mk_entry 1 0 ''a''"
      "[(segment_name 0, \<lparr>f_data = ''x'', f_synced = 1\<rparr>)]" "CHR ''x''" 1]
  by (simp add: kMaxSegmentBytes_def mk_entry_def)



text \<open>C32: truncating a compacted segment log back to its compaction point does not keep that point:
  the log restarts from nothing, the snapshot anchor is forgotten and the next entry gets index 1
  instead of the index after the snapshot.\<close>

theorem TruncateFrom_base_forgets_snapshot:
  assumes "sl_inv s" and "n = sl_base s"
  shows "sl_LastIndex (sl_TruncateFrom n s) = 0
    \<and> anchor_index (sl_anchor (sl_TruncateFrom n s)) = 0
    \<and> fst (sl_Append e fl (sl_TruncateFrom n s)) = 1"
proof -
  have c: "sl_TruncateFrom n s = sl_Clear s" using assms(2) by (simp add: sl_TruncateFrom_def)
  have cl: "sl_inv (sl_Clear s)" "sl_last_index (sl_Clear s) = 0"
    "sl_anchor (sl_Clear s) = \<lparr>anchor_index = 0, anchor_term = 0\<rparr>"
    using sl_Clear_core [of s] assms(1) by (simp_all add: sl_inv_def)
  obtain idx s' where "sl_Append e fl (sl_Clear s) = (idx, s')" by fastforce
  then show ?thesis using c cl sl_Append_core(1) [OF cl(1)] by (simp add: sl_LastIndex_def)
qed

theorem TruncateFrom_base_forgets_snapshot_witness:
  "sl_LastIndex (sl_TruncateFrom 1 (sl_CompactUpTo 1
      (snd (sl_Append (mk_entry 1 0 ''b'') True (snd (sl_Append (mk_entry 1 0 ''a'') True (sl_new False []))))))) = 0
    \<and> anchor_index (sl_anchor (sl_TruncateFrom 1 (sl_CompactUpTo 1
      (snd (sl_Append (mk_entry 1 0 ''b'') True (snd (sl_Append (mk_entry 1 0 ''a'') True (sl_new False [])))))))) = 0
    \<and> fst (sl_Append (mk_entry 2 0 ''c'') True (sl_TruncateFrom 1 (sl_CompactUpTo 1
      (snd (sl_Append (mk_entry 1 0 ''b'') True (snd (sl_Append (mk_entry 1 0 ''a'') True (sl_new False [])))))))) = 1"
  by (rule TruncateFrom_base_forgets_snapshot)
     (simp_all add: sl_inv_def sl_CompactUpTo_def sl_Append_def sl_new_def sl_ents_def numbered_def
        last_term_def writer_ok_def mk_entry_def Let_def)

end
