(* ===== verification/State_Machine.thy ===== *)
theory State_Machine
  imports Raft_Types File_System
begin

text \<open>
  The interface between the replicated log and the data it replicates:
  \<^verbatim>\<open>server/state_machine/state_machine.h\<close>. The log hands committed entries to
  \<^verbatim>\<open>ApplyLogEntry\<close>, one at a time and in index order; here the operation takes the clock reading it
  may consult, the entry and the state. The locale states what replication needs of a state machine:
  an invariant kept by every entry, and a view of the state on which an entry acts as a function of the
  entry and the clock alone.
\<close>

datatype ApplyOp = ApplyOp_OK | ApplyOp_NOT_FOUND | ApplyOp_ERROR

record ApplyResult =
  ar_op :: ApplyOp
  ar_rows :: nat

definition apply_result :: "ApplyOp \<Rightarrow> nat \<Rightarrow> ApplyResult" where
  "apply_result op n = \<lparr>ar_op = op, ar_rows = n\<rparr>"

type_synonym 's apply_fun = "ms \<Rightarrow> LogEntry \<Rightarrow> 's \<Rightarrow> ApplyResult \<times> 's"

text \<open>The calls a node makes, as the table of a state machine: entries, and snapshot files (a failed load or
  save returns \<^verbatim>\<open>false\<close>).\<close>

record 's StateMachineOps =
  sm_ApplyLogEntry :: "'s apply_fun"
  sm_SaveSnapshot :: "string \<Rightarrow> 's \<Rightarrow> directory \<Rightarrow> bool \<times> directory"
  sm_LoadSnapshot :: "ms \<Rightarrow> string \<Rightarrow> directory \<Rightarrow> 's \<Rightarrow> bool \<times> 's"

text \<open>A run of committed entries, each with the clock at which it is applied.\<close>

primrec apply_all :: "'s apply_fun \<Rightarrow> (ms \<times> LogEntry) list \<Rightarrow> 's \<Rightarrow> ApplyResult list \<times> 's" where
  "apply_all f [] s = ([], s)"
| "apply_all f (x # xs) s =
     (let (r, s1) = f (fst x) (snd x) s; (rs, s2) = apply_all f xs s1 in (r # rs, s2))"

lemma apply_all_append:
  "apply_all f (xs @ ys) s =
     (fst (apply_all f xs s) @ fst (apply_all f ys (snd (apply_all f xs s))),
      snd (apply_all f ys (snd (apply_all f xs s))))"
  by (induction xs arbitrary: s) (simp_all add: case_prod_beta Let_def)

locale state_machine =
  fixes apply_entry :: "'s apply_fun"
    and sm_inv :: "'s \<Rightarrow> bool"
    and sm_view :: "'s \<Rightarrow> 'm"
    and spec_entry :: "'m apply_fun"
  assumes entry_result: "sm_inv s \<Longrightarrow> fst (apply_entry now e s) = fst (spec_entry now e (sm_view s))"
    and entry_view: "sm_inv s \<Longrightarrow> sm_view (snd (apply_entry now e s)) = snd (spec_entry now e (sm_view s))"
    and entry_inv: "sm_inv s \<Longrightarrow> sm_inv (snd (apply_entry now e s))"
begin

lemma run_refines:
  assumes "sm_inv s"
  shows "fst (apply_all apply_entry xs s) = fst (apply_all spec_entry xs (sm_view s))"
    and "sm_view (snd (apply_all apply_entry xs s)) = snd (apply_all spec_entry xs (sm_view s))"
    and "sm_inv (snd (apply_all apply_entry xs s))"
  using assms
  by (induction xs arbitrary: s)
    (simp_all add: case_prod_beta Let_def entry_result entry_view entry_inv)

end

end
