(* ===== verification/Kv_Store.thy ===== *)
theory Kv_Store
  imports Command_Codec State_Machine
begin

text \<open>
  The key-value store behind the replicated log: \<^verbatim>\<open>server/storage/{common_types.h,op_status.h,
  db_slice.*}\<close> and the command part of \<^verbatim>\<open>server/state_machine/kv_state_machine.*\<close>.

  A \<^verbatim>\<open>MainTable\<close> (an \<^verbatim>\<open>absl::flat_hash_map\<close>) is an association list with one entry per key. The
  operations of a slice are table operations lifted to database \<open>db\<close> of the slice; the code only
  touches active databases (debug assertions), here an inactive one reads as empty and is not
  written. The memory statistic of a slice is never read and is left out. Work on a shard runs in
  the shard's own queue, one task at a time, so a task is a function of the slice.

  \<^verbatim>\<open>XXH64\<close> and \<^verbatim>\<open>absl::SimpleAtoi\<close> are not part of the repository: they are the fields of
  \<open>KvEnv\<close>, an argument of every definition that uses them. \<open>now\<close> is the value of \<^verbatim>\<open>NowMs()\<close>.
\<close>

record PrimeValue =
  pv_value :: string
  pv_expire :: ms

type_synonym MainTable = "(string \<times> PrimeValue) list"

datatype OpStatus = OpStatus_OK | KEY_NOTFOUND

datatype 'a OpResult = OpValue 'a | OpError OpStatus

definition empty_value :: PrimeValue where
  "empty_value = \<lparr>pv_value = [], pv_expire = 0\<rparr>"

definition expired :: "ms \<Rightarrow> PrimeValue \<Rightarrow> bool" where
  "expired now v \<longleftrightarrow> pv_expire v \<noteq> 0 \<and> pv_expire v \<le> now"

section \<open>Tables\<close>

definition tbl_Find :: "ms \<Rightarrow> string \<Rightarrow> MainTable \<Rightarrow> PrimeValue OpResult \<times> MainTable" where
  "tbl_Find now key t =
     (case map_of t key of
        None \<Rightarrow> (OpError KEY_NOTFOUND, t)
      | Some v \<Rightarrow> if expired now v then (OpError KEY_NOTFOUND, alist_del key t) else (OpValue v, t))"

definition tbl_AddOrFind :: "ms \<Rightarrow> string \<Rightarrow> MainTable \<Rightarrow> bool \<times> MainTable" where
  "tbl_AddOrFind now key t =
     (case map_of t key of
        None \<Rightarrow> (True, alist_put key empty_value t)
      | Some v \<Rightarrow>
          if expired now v then (True, alist_put key empty_value (alist_del key t)) else (False, t))"

definition tbl_Del :: "string \<Rightarrow> MainTable \<Rightarrow> bool \<times> MainTable" where
  "tbl_Del key t = (if map_of t key = None then (False, t) else (True, alist_del key t))"

definition tbl_SetExpire :: "string \<Rightarrow> ms \<Rightarrow> MainTable \<Rightarrow> OpStatus \<times> MainTable" where
  "tbl_SetExpire key expire_at t =
     (case map_of t key of
        None \<Rightarrow> (KEY_NOTFOUND, t)
      | Some v \<Rightarrow> (OpStatus_OK, alist_put key (v\<lparr>pv_expire := expire_at\<rparr>) t))"

definition tbl_AddIfNotExist :: "string \<Rightarrow> PrimeValue \<Rightarrow> ms \<Rightarrow> MainTable \<Rightarrow> bool \<times> MainTable" where
  "tbl_AddIfNotExist key obj expire_at t =
     (if map_of t key \<noteq> None then (False, t)
      else (True, alist_put key (if expire_at \<noteq> 0 then obj\<lparr>pv_expire := expire_at\<rparr> else obj) t))"

text \<open>The assignment \<^verbatim>\<open>it->second.value = val\<close> through the iterator of \<open>key\<close>.\<close>

definition tbl_assign :: "string \<Rightarrow> string \<Rightarrow> MainTable \<Rightarrow> MainTable" where
  "tbl_assign key val t =
     (case map_of t key of None \<Rightarrow> t | Some v \<Rightarrow> alist_put key (v\<lparr>pv_value := val\<rparr>) t)"

section \<open>Slices\<close>

record DbSlice =
  ds_shard_id :: nat
  ds_dbs :: "MainTable option list"

definition ds_init :: "nat \<Rightarrow> DbSlice" where
  "ds_init index = \<lparr>ds_shard_id = index, ds_dbs = [Some []]\<rparr>"

definition IsDbValid :: "nat \<Rightarrow> DbSlice \<Rightarrow> bool" where
  "IsDbValid db s \<longleftrightarrow> db < length (ds_dbs s) \<and> ds_dbs s ! db \<noteq> None"

definition main_table :: "nat \<Rightarrow> DbSlice \<Rightarrow> MainTable" where
  "main_table db s = (if IsDbValid db s then the (ds_dbs s ! db) else [])"

definition put_table :: "nat \<Rightarrow> MainTable \<Rightarrow> DbSlice \<Rightarrow> DbSlice" where
  "put_table db t s = (if IsDbValid db s then s\<lparr>ds_dbs := (ds_dbs s)[db := Some t]\<rparr> else s)"

definition on_table :: "nat \<Rightarrow> (MainTable \<Rightarrow> 'a \<times> MainTable) \<Rightarrow> DbSlice \<Rightarrow> 'a \<times> DbSlice" where
  "on_table db f s = (case f (main_table db s) of (r, t) \<Rightarrow> (r, put_table db t s))"

definition ds_Find :: "ms \<Rightarrow> nat \<Rightarrow> string \<Rightarrow> DbSlice \<Rightarrow> PrimeValue OpResult \<times> DbSlice" where
  "ds_Find now db key = on_table db (tbl_Find now key)"

definition ds_AddOrFind :: "ms \<Rightarrow> nat \<Rightarrow> string \<Rightarrow> DbSlice \<Rightarrow> bool \<times> DbSlice" where
  "ds_AddOrFind now db key = on_table db (tbl_AddOrFind now key)"

definition ds_Del :: "nat \<Rightarrow> string \<Rightarrow> DbSlice \<Rightarrow> bool \<times> DbSlice" where
  "ds_Del db key = on_table db (tbl_Del key)"

definition ds_SetExpire :: "nat \<Rightarrow> string \<Rightarrow> ms \<Rightarrow> DbSlice \<Rightarrow> OpStatus \<times> DbSlice" where
  "ds_SetExpire db key expire_at = on_table db (tbl_SetExpire key expire_at)"

definition ds_AddIfNotExist :: "nat \<Rightarrow> string \<Rightarrow> PrimeValue \<Rightarrow> ms \<Rightarrow> DbSlice \<Rightarrow> bool \<times> DbSlice" where
  "ds_AddIfNotExist db key obj expire_at = on_table db (tbl_AddIfNotExist key obj expire_at)"

text \<open>\<^verbatim>\<open>AddNew\<close> aborts the process (\<open>None\<close>) when the key is present.\<close>

definition ds_AddNew :: "nat \<Rightarrow> string \<Rightarrow> PrimeValue \<Rightarrow> ms \<Rightarrow> DbSlice \<Rightarrow> DbSlice option" where
  "ds_AddNew db key obj expire_at s =
     (let (ok, s') = ds_AddIfNotExist db key obj expire_at s in if ok then Some s' else None)"

definition ds_CreateDbRedis :: "nat \<Rightarrow> DbSlice \<Rightarrow> DbSlice" where
  "ds_CreateDbRedis index s =
     (if index < length (ds_dbs s) \<and> ds_dbs s ! index = None
      then s\<lparr>ds_dbs := (ds_dbs s)[index := Some []]\<rparr> else s)"

definition ds_ActivateDb :: "nat \<Rightarrow> DbSlice \<Rightarrow> DbSlice" where
  "ds_ActivateDb db s =
     ds_CreateDbRedis db
       (if length (ds_dbs s) \<le> db
        then s\<lparr>ds_dbs := ds_dbs s @ replicate (db + 1 - length (ds_dbs s)) None\<rparr> else s)"

text \<open>\<^verbatim>\<open>Reserve\<close> sizes the hash table, which changes no entry.\<close>

definition ds_Reserve :: "nat \<Rightarrow> nat \<Rightarrow> DbSlice \<Rightarrow> DbSlice" where
  "ds_Reserve db key_size s = ds_ActivateDb db s"

definition ds_DbSize :: "nat \<Rightarrow> DbSlice \<Rightarrow> nat" where
  "ds_DbSize db s = (if IsDbValid db s then length (the (ds_dbs s ! db)) else 0)"

definition ds_Traverse :: "nat \<Rightarrow> DbSlice \<Rightarrow> (string \<times> PrimeValue) list" where
  "ds_Traverse db s = main_table db s"

section \<open>The state machine\<close>

record KvEnv =
  xxh64 :: "string \<Rightarrow> nat"
  SimpleAtoi :: "string \<Rightarrow> int option"

record KvState =
  kv_shards :: "DbSlice list"

definition kv_Shard :: "KvEnv \<Rightarrow> string \<Rightarrow> KvState \<Rightarrow> nat" where
  "kv_Shard env key s = xxh64 env key mod (length (kv_shards s) mod 2 ^ 16)"

definition on_shard :: "KvEnv \<Rightarrow> string \<Rightarrow> (DbSlice \<Rightarrow> 'a \<times> DbSlice) \<Rightarrow> KvState \<Rightarrow> 'a \<times> KvState" where
  "on_shard env key f s =
     (let sid = kv_Shard env key s in
      case f (kv_shards s ! sid) of (r, d) \<Rightarrow> (r, s\<lparr>kv_shards := (kv_shards s)[sid := d]\<rparr>))"

definition kv_Set :: "KvEnv \<Rightarrow> ms \<Rightarrow> nat \<Rightarrow> string \<Rightarrow> string \<Rightarrow> KvState \<Rightarrow> KvState" where
  "kv_Set env now db key val s =
     snd (on_shard env key (\<lambda>d.
       let (_, d1) = ds_AddOrFind now db key d
       in ((), put_table db (tbl_assign key val (main_table db d1)) d1)) s)"

definition kv_Del :: "KvEnv \<Rightarrow> nat \<Rightarrow> string \<Rightarrow> KvState \<Rightarrow> bool \<times> KvState" where
  "kv_Del env db key s = on_shard env key (ds_Del db key) s"

definition kv_Expire :: "KvEnv \<Rightarrow> nat \<Rightarrow> string \<Rightarrow> ms \<Rightarrow> KvState \<Rightarrow> bool \<times> KvState" where
  "kv_Expire env db key expire_at s =
     on_shard env key (\<lambda>d. let (st, d1) = ds_SetExpire db key expire_at d in (st = OpStatus_OK, d1)) s"

definition kv_ApplySet ::
  "KvEnv \<Rightarrow> ms \<Rightarrow> nat \<Rightarrow> string \<Rightarrow> string \<Rightarrow> bool \<Rightarrow> bool \<Rightarrow> ms \<Rightarrow> KvState \<Rightarrow> bool \<times> KvState" where
  "kv_ApplySet env now db key val nx xx expire_at s =
     on_shard env key (\<lambda>d.
       let (inserted, d1) = ds_AddOrFind now db key d in
       if nx \<and> \<not> inserted then (False, d1)
       else if xx \<and> inserted then (False, d1)
       else
         let d2 = put_table db (tbl_assign key val (main_table db d1)) d1
         in (True, if 0 < expire_at then snd (ds_SetExpire db key expire_at d2) else d2)) s"

definition kv_Get :: "KvEnv \<Rightarrow> ms \<Rightarrow> nat \<Rightarrow> string \<Rightarrow> ReadConsistency \<Rightarrow> KvState \<Rightarrow> string OpResult \<times> KvState" where
  "kv_Get env now db key consistency s =
     on_shard env key (\<lambda>d.
       case ds_Find now db key d of
         (OpValue v, d1) \<Rightarrow> (OpValue (pv_value v), d1)
       | (OpError st, d1) \<Rightarrow> (OpError st, d1)) s"

definition kv_DbSize :: "nat \<Rightarrow> KvState \<Rightarrow> nat" where
  "kv_DbSize db s = sum_list (map (ds_DbSize db) (kv_shards s))"

text \<open>\<^verbatim>\<open>Apply\<close> of a parsed command by its registry entry (arguments 1 and 2 are present by arity).\<close>

definition kv_Apply :: "KvEnv \<Rightarrow> ms \<Rightarrow> CommandId \<Rightarrow> string list \<Rightarrow> KvState \<Rightarrow> ApplyResult \<times> KvState" where
  "kv_Apply env now cid args s =
     (if cid_name cid = ''SET'' then
        (apply_result ApplyOp_OK 1, kv_Set env now 0 (args ! 1) (args ! 2) s)
      else if cid_name cid = ''DEL'' then
        let (deleted, s') = kv_Del env 0 (args ! 1) s
        in (apply_result ApplyOp_OK (if deleted then 1 else 0), s')
      else (apply_result ApplyOp_ERROR 0, s))"

section \<open>Applying a log entry\<close>

definition entry_args :: "string \<Rightarrow> string list option" where
  "entry_args cmd =
     (let (ok, out) = ParseRespArray cmd in
      if ok \<and> out = [] then None
      else
        let args = (if out = [] then legacy_split cmd else out)
        in if args = [] then None else Some args)"

text \<open>The option loop of SET: flags NX and XX and the expiry time; \<open>None\<close> is a malformed number.\<close>

datatype SetOption = Opt_NX | Opt_XX | Opt_EX | Opt_PX | Opt_other

definition set_option_of :: "string \<Rightarrow> SetOption" where
  "set_option_of opt =
     (if opt = ''NX'' then Opt_NX else if opt = ''XX'' then Opt_XX
      else if opt = ''EX'' then Opt_EX else if opt = ''PX'' then Opt_PX else Opt_other)"

definition ttl_deadline :: "KvEnv \<Rightarrow> ms \<Rightarrow> SetOption \<Rightarrow> string \<Rightarrow> ms option" where
  "ttl_deadline env now opt arg =
     (case SimpleAtoi env arg of
        None \<Rightarrow> None
      | Some ttl \<Rightarrow>
          if ttl < 0 then None
          else Some (add64 now (if opt = Opt_EX then mul64 (nat ttl) 1000 else nat ttl)))"

fun set_options ::
  "KvEnv \<Rightarrow> ms \<Rightarrow> string list \<Rightarrow> bool \<Rightarrow> bool \<Rightarrow> ms \<Rightarrow> (bool \<times> bool \<times> ms) option" where
  "set_options env now [] nx xx ex = Some (nx, xx, ex)"
| "set_options env now [opt] nx xx ex =
     Some (nx \<or> set_option_of opt = Opt_NX, xx \<or> set_option_of opt = Opt_XX, ex)"
| "set_options env now (opt # arg # rest) nx xx ex =
     (case set_option_of opt of
        Opt_NX \<Rightarrow> set_options env now (arg # rest) True xx ex
      | Opt_XX \<Rightarrow> set_options env now (arg # rest) nx True ex
      | Opt_other \<Rightarrow> set_options env now (arg # rest) nx xx ex
      | _ \<Rightarrow>
          (case ttl_deadline env now (set_option_of opt) arg of
             None \<Rightarrow> None
           | Some t \<Rightarrow> set_options env now rest nx xx t))"

primrec del_keys :: "KvEnv \<Rightarrow> string list \<Rightarrow> nat \<Rightarrow> KvState \<Rightarrow> nat \<times> KvState" where
  "del_keys env [] n s = (n, s)"
| "del_keys env (k # ks) n s =
     (let (deleted, s') = kv_Del env 0 k s
      in del_keys env ks (if deleted then n + 1 else n) s')"

definition apply_set :: "KvEnv \<Rightarrow> ms \<Rightarrow> string list \<Rightarrow> KvState \<Rightarrow> ApplyResult \<times> KvState" where
  "apply_set env now args s =
     (if length args < 3 then (apply_result ApplyOp_ERROR 0, s)
      else
        case set_options env now (drop 3 args) False False 0 of
          None \<Rightarrow> (apply_result ApplyOp_ERROR 0, s)
        | Some (nx, xx, ex) \<Rightarrow>
            let (applied, s') = kv_ApplySet env now 0 (args ! 1) (args ! 2) nx xx ex s
            in (apply_result ApplyOp_OK (if applied then 1 else 0), s'))"

definition apply_del :: "KvEnv \<Rightarrow> string list \<Rightarrow> KvState \<Rightarrow> ApplyResult \<times> KvState" where
  "apply_del env args s =
     (if length args < 2 then (apply_result ApplyOp_ERROR 0, s)
      else let (n, s') = del_keys env (tl args) 0 s in (apply_result ApplyOp_OK n, s'))"

definition apply_expire :: "KvEnv \<Rightarrow> ms \<Rightarrow> string list \<Rightarrow> KvState \<Rightarrow> ApplyResult \<times> KvState" where
  "apply_expire env now args s =
     (if length args < 3 then (apply_result ApplyOp_ERROR 0, s)
      else
        case SimpleAtoi env (args ! 2) of
          None \<Rightarrow> (apply_result ApplyOp_ERROR 0, s)
        | Some seconds \<Rightarrow>
            if seconds < 0 then (apply_result ApplyOp_ERROR 0, s)
            else
              let (found, s') = kv_Expire env 0 (args ! 1) (add64 now (mul64 (nat seconds) 1000)) s
              in (apply_result ApplyOp_OK (if found then 1 else 0), s'))"

definition ApplyLogEntry :: "KvEnv \<Rightarrow> ms \<Rightarrow> LogEntry \<Rightarrow> KvState \<Rightarrow> ApplyResult \<times> KvState" where
  "ApplyLogEntry env now e s =
     (case entry_args (command e) of
        None \<Rightarrow> (apply_result ApplyOp_ERROR 0, s)
      | Some args \<Rightarrow>
          if hd args = ''SET'' then apply_set env now args s
          else if hd args = ''DEL'' then apply_del env args s
          else if hd args = ''EXPIRE'' then apply_expire env now args s
          else (apply_result ApplyOp_ERROR 0, s))"

end
