(* ===== verification/Kv_Spec.thy ===== *)
theory Kv_Spec
  imports Kv_Store
begin

text \<open>
  What the key-value store promises: one map from keys to values with an expiry time, independent of
  the number of shards and of the hash that distributes the keys. The sharded store of \<open>Kv_Store\<close>
  refines it, operation by operation; the view of a store collects every key from its shard.
\<close>

type_synonym kv_map = "string \<rightharpoonup> PrimeValue"

section \<open>The specification\<close>

definition spec_add_or_find :: "ms \<Rightarrow> string \<Rightarrow> kv_map \<Rightarrow> bool \<times> kv_map" where
  "spec_add_or_find now k m =
     (case m k of
        None \<Rightarrow> (True, m(k \<mapsto> empty_value))
      | Some v \<Rightarrow> if expired now v then (True, m(k \<mapsto> empty_value)) else (False, m))"

definition spec_set :: "ms \<Rightarrow> string \<Rightarrow> string \<Rightarrow> bool \<Rightarrow> bool \<Rightarrow> ms \<Rightarrow> kv_map \<Rightarrow> bool \<times> kv_map" where
  "spec_set now k val nx xx ex m =
     (let (inserted, m1) = spec_add_or_find now k m in
      if nx \<and> \<not> inserted \<or> xx \<and> inserted then (False, m1)
      else
        let old = the (m1 k)
        in (True, m1(k \<mapsto> \<lparr>pv_value = val, pv_expire = (if 0 < ex then ex else pv_expire old)\<rparr>)))"

definition spec_del :: "string \<Rightarrow> kv_map \<Rightarrow> bool \<times> kv_map" where
  "spec_del k m = (m k \<noteq> None, m(k := None))"

definition spec_expire :: "string \<Rightarrow> ms \<Rightarrow> kv_map \<Rightarrow> bool \<times> kv_map" where
  "spec_expire k t m =
     (case m k of None \<Rightarrow> (False, m) | Some v \<Rightarrow> (True, m(k \<mapsto> v\<lparr>pv_expire := t\<rparr>)))"

definition spec_get :: "ms \<Rightarrow> string \<Rightarrow> kv_map \<Rightarrow> string OpResult \<times> kv_map" where
  "spec_get now k m =
     (case m k of
        None \<Rightarrow> (OpError KEY_NOTFOUND, m)
      | Some v \<Rightarrow> if expired now v then (OpError KEY_NOTFOUND, m(k := None)) else (OpValue (pv_value v), m))"

primrec spec_del_keys :: "string list \<Rightarrow> nat \<Rightarrow> kv_map \<Rightarrow> nat \<times> kv_map" where
  "spec_del_keys [] n m = (n, m)"
| "spec_del_keys (k # ks) n m =
     (let (deleted, m') = spec_del k m in spec_del_keys ks (if deleted then n + 1 else n) m')"

definition spec_apply_set :: "KvEnv \<Rightarrow> ms \<Rightarrow> string list \<Rightarrow> kv_map \<Rightarrow> ApplyResult \<times> kv_map" where
  "spec_apply_set env now args m =
     (if length args < 3 then (apply_result ApplyOp_ERROR 0, m)
      else
        case set_options env now (drop 3 args) False False 0 of
          None \<Rightarrow> (apply_result ApplyOp_ERROR 0, m)
        | Some (nx, xx, ex) \<Rightarrow>
            let (applied, m') = spec_set now (args ! 1) (args ! 2) nx xx ex m
            in (apply_result ApplyOp_OK (if applied then 1 else 0), m'))"

definition spec_apply_del :: "string list \<Rightarrow> kv_map \<Rightarrow> ApplyResult \<times> kv_map" where
  "spec_apply_del args m =
     (if length args < 2 then (apply_result ApplyOp_ERROR 0, m)
      else let (n, m') = spec_del_keys (tl args) 0 m in (apply_result ApplyOp_OK n, m'))"

definition spec_apply_expire :: "KvEnv \<Rightarrow> ms \<Rightarrow> string list \<Rightarrow> kv_map \<Rightarrow> ApplyResult \<times> kv_map" where
  "spec_apply_expire env now args m =
     (if length args < 3 then (apply_result ApplyOp_ERROR 0, m)
      else
        case SimpleAtoi env (args ! 2) of
          None \<Rightarrow> (apply_result ApplyOp_ERROR 0, m)
        | Some seconds \<Rightarrow>
            if seconds < 0 then (apply_result ApplyOp_ERROR 0, m)
            else
              let (found, m') = spec_expire (args ! 1) (add64 now (mul64 (nat seconds) 1000)) m
              in (apply_result ApplyOp_OK (if found then 1 else 0), m'))"

definition spec_apply :: "KvEnv \<Rightarrow> ms \<Rightarrow> LogEntry \<Rightarrow> kv_map \<Rightarrow> ApplyResult \<times> kv_map" where
  "spec_apply env now e m =
     (case entry_args (command e) of
        None \<Rightarrow> (apply_result ApplyOp_ERROR 0, m)
      | Some args \<Rightarrow>
          if hd args = ''SET'' then spec_apply_set env now args m
          else if hd args = ''DEL'' then spec_apply_del args m
          else if hd args = ''EXPIRE'' then spec_apply_expire env now args m
          else (apply_result ApplyOp_ERROR 0, m))"

section \<open>Invariant and view\<close>

definition kv_view :: "KvEnv \<Rightarrow> KvState \<Rightarrow> kv_map" where
  "kv_view env s k = map_of (main_table 0 (kv_shards s ! kv_Shard env k s)) k"

definition slice_ok :: "DbSlice \<Rightarrow> bool" where
  "slice_ok d \<longleftrightarrow> length (ds_dbs d) = 1 \<and> IsDbValid 0 d \<and> distinct (map fst (main_table 0 d))"

definition kv_inv :: "KvEnv \<Rightarrow> KvState \<Rightarrow> bool" where
  "kv_inv env s \<longleftrightarrow> 0 < length (kv_shards s) \<and> length (kv_shards s) < 2 ^ 16
     \<and> list_all slice_ok (kv_shards s)
     \<and> (\<forall>i < length (kv_shards s). \<forall>k \<in> fst ` set (main_table 0 (kv_shards s ! i)). kv_Shard env k s = i)"

definition kv_init :: "nat \<Rightarrow> KvState" where
  "kv_init n = \<lparr>kv_shards = map ds_init [0..<n]\<rparr>"

lemma kv_Shard_less: "kv_inv env s \<Longrightarrow> kv_Shard env k s < length (kv_shards s)"
  by (simp add: kv_inv_def kv_Shard_def)

lemma kv_inv_slice: "kv_inv env s \<Longrightarrow> slice_ok (kv_shards s ! kv_Shard env k s)"
  using kv_Shard_less [of env s k] by (auto simp: kv_inv_def list_all_length)

lemma main_table_put [simp]: "IsDbValid db d \<Longrightarrow> main_table db (put_table db t d) = t"
  by (simp add: main_table_def put_table_def IsDbValid_def)

lemma IsDbValid_put [simp]: "IsDbValid db' (put_table db t d) \<longleftrightarrow> IsDbValid db' d"
  by (auto simp: put_table_def IsDbValid_def nth_list_update)

lemma length_dbs_put [simp]: "length (ds_dbs (put_table db t d)) = length (ds_dbs d)"
  by (simp add: put_table_def)

lemma put_table_put [simp]: "put_table db t (put_table db u d) = put_table db t d"
  by (cases "IsDbValid db d") (auto simp: put_table_def IsDbValid_def)

lemma kv_init_inv: "0 < n \<Longrightarrow> n < 2 ^ 16 \<Longrightarrow> kv_inv env (kv_init n)"
  by (auto simp: kv_inv_def kv_init_def list_all_iff slice_ok_def ds_init_def main_table_def IsDbValid_def)

lemma kv_init_view: "0 < n \<Longrightarrow> n < 2 ^ 16 \<Longrightarrow> kv_view env (kv_init n) = Map.empty"
  by (rule ext) (simp add: kv_view_def kv_init_def kv_Shard_def ds_init_def main_table_def IsDbValid_def)

section \<open>Refinement, operation by operation\<close>

definition table_refines ::
  "(MainTable \<Rightarrow> 'a \<times> MainTable) \<Rightarrow> (kv_map \<Rightarrow> 'a \<times> kv_map) \<Rightarrow> bool" where
  "table_refines f g \<longleftrightarrow> (\<forall>t. distinct (map fst t) \<longrightarrow>
     fst (f t) = fst (g (map_of t)) \<and> map_of (snd (f t)) = snd (g (map_of t))
     \<and> distinct (map fst (snd (f t))))"

definition local_at :: "string \<Rightarrow> (kv_map \<Rightarrow> 'a \<times> kv_map) \<Rightarrow> bool" where
  "local_at k g \<longleftrightarrow>
     (\<forall>m m'. m k = m' k \<longrightarrow> fst (g m) = fst (g m') \<and> snd (g m) k = snd (g m') k)
     \<and> (\<forall>m j. j \<noteq> k \<longrightarrow> snd (g m) j = m j)"

text \<open>A task that is a table operation on database 0 of the shard of \<open>k\<close> acts on the view as its
  specification does.\<close>

lemma on_shard_refines:
  assumes inv: "kv_inv env s" and f: "table_refines f g" and loc: "local_at k g"
    and F: "\<And>d. IsDbValid 0 d \<Longrightarrow> F d = on_table 0 f d"
    and res: "on_shard env k F s = (r, s')"
  shows "r = fst (g (kv_view env s))" and "kv_view env s' = snd (g (kv_view env s))"
    and "kv_inv env s'"
proof -
  let ?i = "kv_Shard env k s"
  let ?d = "kv_shards s ! ?i"
  let ?t = "main_table 0 ?d"
  let ?t' = "snd (f ?t)"
  have i: "?i < length (kv_shards s)" using inv by (rule kv_Shard_less)
  have ok: "IsDbValid 0 ?d" "distinct (map fst ?t)"
    using kv_inv_slice [OF inv, of k] by (simp_all add: slice_ok_def)
  have s': "s' = s\<lparr>kv_shards := (kv_shards s)[?i := put_table 0 ?t' ?d]\<rparr>" and r: "r = fst (f ?t)"
    using res F [OF ok(1)] by (simp_all add: on_shard_def on_table_def Let_def case_prod_beta)
  have ref: "fst (f ?t) = fst (g (map_of ?t))" "map_of ?t' = snd (g (map_of ?t))" "distinct (map fst ?t')"
    using f ok(2) unfolding table_refines_def by blast+
  have sh: "kv_Shard env j s' = kv_Shard env j s" for j by (simp add: s' kv_Shard_def)
  have vk: "kv_view env s k = map_of ?t k" by (simp add: kv_view_def)
  have eqk: "fst (g m) = fst (g m')" "snd (g m) k = snd (g m') k" if "m k = m' k" for m m'
    using loc that unfolding local_at_def by blast+
  have eqj: "snd (g m) j = m j" if "j \<noteq> k" for m j using loc that unfolding local_at_def by blast
  show "r = fst (g (kv_view env s))" using r ref(1) eqk(1) [of "kv_view env s" "map_of ?t", OF vk] by simp
  have tab: "main_table 0 (kv_shards s' ! j) = (if j = ?i then ?t' else main_table 0 (kv_shards s ! j))" for j
    using i ok(1) by (simp add: s' nth_list_update)
  show "kv_view env s' = snd (g (kv_view env s))"
  proof
    fix j
    show "kv_view env s' j = snd (g (kv_view env s)) j"
    proof (cases "j = k")
      case True
      then have "kv_view env s' j = snd (g (map_of ?t)) k" by (simp add: kv_view_def sh tab ref(2))
      then show ?thesis using eqk(2) [of "kv_view env s" "map_of ?t", OF vk] True by simp
    next
      case False
      then have "map_of ?t' j = map_of ?t j" using ref(2) eqj by simp
      then have "kv_view env s' j = kv_view env s j" by (simp add: kv_view_def sh tab)
      then show ?thesis using eqj [OF False] by simp
    qed
  qed
  have own: "kv_Shard env j s = ?i" if "j \<in> fst ` set ?t'" for j
  proof (cases "j = k")
    case False
    have "map_of ?t' j \<noteq> None" using that by (metis map_of_eq_None_iff)
    then have "map_of ?t j \<noteq> None" using ref(2) eqj [OF False] by simp
    then have "j \<in> fst ` set ?t" by (metis map_of_eq_None_iff)
    then show ?thesis using inv i unfolding kv_inv_def by blast
  qed simp
  have new: "slice_ok (put_table 0 ?t' ?d)" using kv_inv_slice [OF inv, of k] ok(1) ref(3) by (simp add: slice_ok_def)
  have old: "list_all slice_ok (kv_shards s)" using inv by (simp add: kv_inv_def)
  have "set (kv_shards s') \<subseteq> insert (put_table 0 ?t' ?d) (set (kv_shards s))"
    by (simp add: s' set_update_subset_insert)
  then have slices: "list_all slice_ok (kv_shards s')"
    using new old unfolding list_all_iff by blast
  have len: "length (kv_shards s') = length (kv_shards s)" by (simp add: s')
  have "kv_Shard env j s' = n" if "n < length (kv_shards s)" "j \<in> fst ` set (main_table 0 (kv_shards s' ! n))" for n j
  proof (cases "n = ?i")
    case True
    then have "j \<in> fst ` set ?t'" using that(2) by (simp only: tab if_True simp_thms)
    from own [OF this] show ?thesis unfolding sh True .
  next
    case False
    then have "j \<in> fst ` set (main_table 0 (kv_shards s ! n))" using that(2) by (simp only: tab if_False)
    then show ?thesis using inv that(1) unfolding kv_inv_def sh by blast
  qed
  then show "kv_inv env s'" using inv slices len unfolding kv_inv_def by simp
qed

lemma alist_del_None: "map_of t k = None \<Longrightarrow> alist_del k t = t"
  by (induction t) (auto simp: alist_del_def)

text \<open>The SET task as one table operation.\<close>

definition tbl_set :: "ms \<Rightarrow> string \<Rightarrow> string \<Rightarrow> bool \<Rightarrow> bool \<Rightarrow> ms \<Rightarrow> MainTable \<Rightarrow> bool \<times> MainTable" where
  "tbl_set now key val nx xx ex t =
     (let (inserted, t1) = tbl_AddOrFind now key t in
      if nx \<and> \<not> inserted \<or> xx \<and> inserted then (False, t1)
      else let t2 = tbl_assign key val t1
           in (True, if 0 < ex then snd (tbl_SetExpire key ex t2) else t2))"

lemma tbl_AddOrFind_refines: "table_refines (tbl_AddOrFind now k) (spec_add_or_find now k)"
  by (auto simp: table_refines_def tbl_AddOrFind_def spec_add_or_find_def fun_eq_iff split: option.splits)

lemma spec_add_or_find_at [simp]: "snd (spec_add_or_find now k m) k \<noteq> None"
  by (auto simp: spec_add_or_find_def split: option.splits)

lemma tbl_set_refines: "table_refines (tbl_set now k val nx xx ex) (spec_set now k val nx xx ex)"
  unfolding table_refines_def
proof (intro allI impI)
  fix t :: MainTable
  assume d: "distinct (map fst t)"
  obtain ins t1 where a: "tbl_AddOrFind now k t = (ins, t1)" by fastforce
  have b: "fst (spec_add_or_find now k (map_of t)) = ins" "snd (spec_add_or_find now k (map_of t)) = map_of t1"
    and d1: "distinct (map fst t1)"
    using tbl_AddOrFind_refines [of now k] d a by (auto simp: table_refines_def)
  obtain v where v: "map_of t1 k = Some v" using spec_add_or_find_at [of now k "map_of t"] b by auto
  show "fst (tbl_set now k val nx xx ex t) = fst (spec_set now k val nx xx ex (map_of t)) \<and>
     map_of (snd (tbl_set now k val nx xx ex t)) = snd (spec_set now k val nx xx ex (map_of t)) \<and>
     distinct (map fst (snd (tbl_set now k val nx xx ex t)))"
    using b d1 v
    by (auto simp: tbl_set_def spec_set_def a case_prod_beta Let_def tbl_assign_def tbl_SetExpire_def fun_eq_iff)
qed

lemma tbl_Del_refines: "table_refines (tbl_Del k) (spec_del k)"
  by (auto simp: table_refines_def tbl_Del_def spec_del_def fun_eq_iff)

lemma tbl_SetExpire_refines:
  "table_refines (\<lambda>t. (fst (tbl_SetExpire k ex t) = OpStatus_OK, snd (tbl_SetExpire k ex t))) (spec_expire k ex)"
  by (auto simp: table_refines_def tbl_SetExpire_def spec_expire_def fun_eq_iff split: option.splits)

definition tbl_get :: "ms \<Rightarrow> string \<Rightarrow> MainTable \<Rightarrow> string OpResult \<times> MainTable" where
  "tbl_get now k t =
     (case tbl_Find now k t of (OpValue v, t1) \<Rightarrow> (OpValue (pv_value v), t1) | (OpError st, t1) \<Rightarrow> (OpError st, t1))"

lemma tbl_get_refines: "table_refines (tbl_get now k) (spec_get now k)"
  by (auto simp: table_refines_def tbl_get_def tbl_Find_def spec_get_def fun_eq_iff split: option.splits)

lemma local_specs:
  "local_at k (spec_set now k val nx xx ex)" "local_at k (spec_del k)" "local_at k (spec_expire k t)"
  "local_at k (spec_get now k)"
  by (auto simp: local_at_def spec_set_def spec_add_or_find_def spec_del_def spec_expire_def spec_get_def
      case_prod_beta Let_def split: option.splits)

text \<open>One refinement lemma per operation of the store.\<close>

lemma kv_ApplySet_refines:
  assumes "kv_inv env s" "kv_ApplySet env now 0 k val nx xx ex s = (r, s')"
  shows "r = fst (spec_set now k val nx xx ex (kv_view env s))"
    and "kv_view env s' = snd (spec_set now k val nx xx ex (kv_view env s))" and "kv_inv env s'"
  by (rule on_shard_refines [OF assms(1) tbl_set_refines [of now k val nx xx ex] local_specs(1) _
        assms(2) [unfolded kv_ApplySet_def]];
      simp add: on_table_def ds_AddOrFind_def ds_SetExpire_def tbl_set_def case_prod_beta Let_def)+

lemma kv_Del_refines:
  assumes "kv_inv env s" "kv_Del env 0 k s = (r, s')"
  shows "r = fst (spec_del k (kv_view env s))" and "kv_view env s' = snd (spec_del k (kv_view env s))"
    and "kv_inv env s'"
  by (rule on_shard_refines [OF assms(1) tbl_Del_refines local_specs(2) _ assms(2) [unfolded kv_Del_def]];
      simp add: ds_Del_def)+

lemma kv_Expire_refines:
  assumes "kv_inv env s" "kv_Expire env 0 k ex s = (r, s')"
  shows "r = fst (spec_expire k ex (kv_view env s))" and "kv_view env s' = snd (spec_expire k ex (kv_view env s))"
    and "kv_inv env s'"
  by (rule on_shard_refines [OF assms(1) tbl_SetExpire_refines [of k ex] local_specs(3) _ assms(2) [unfolded kv_Expire_def]];
      simp add: ds_SetExpire_def on_table_def case_prod_beta Let_def)+

lemma kv_Get_refines:
  assumes "kv_inv env s" "kv_Get env now 0 k c s = (r, s')"
  shows "r = fst (spec_get now k (kv_view env s))" and "kv_view env s' = snd (spec_get now k (kv_view env s))"
    and "kv_inv env s'"
  by (rule on_shard_refines [OF assms(1) tbl_get_refines [of now k] local_specs(4) _ assms(2) [unfolded kv_Get_def]];
      simp add: ds_Find_def on_table_def tbl_get_def case_prod_beta Let_def split: OpResult.splits prod.splits)+

lemma del_keys_refines:
  assumes "kv_inv env s" "del_keys env ks n s = (r, s')"
  shows "r = fst (spec_del_keys ks n (kv_view env s)) \<and> kv_view env s' = snd (spec_del_keys ks n (kv_view env s))
    \<and> kv_inv env s'"
  using assms
proof (induction ks arbitrary: n s)
  case (Cons k ks)
  obtain d s1 where d: "kv_Del env 0 k s = (d, s1)" by fastforce
  note R = kv_Del_refines [OF Cons.prems(1) d]
  show ?case
    using Cons.IH [OF R(3)] Cons.prems(2) d R(1,2) by (simp add: case_prod_beta Let_def)
qed simp

lemma ApplyLogEntry_refines:
  assumes "kv_inv env s" "ApplyLogEntry env now e s = (r, s')"
  shows "r = fst (spec_apply env now e (kv_view env s)) \<and> kv_view env s' = snd (spec_apply env now e (kv_view env s))
    \<and> kv_inv env s'"
proof (cases "entry_args (command e)")
  case None
  then show ?thesis using assms by (simp add: ApplyLogEntry_def spec_apply_def)
next
  case (Some args)
  consider "hd args = ''SET''" | "hd args = ''DEL''" | "hd args = ''EXPIRE''"
    | "hd args \<notin> {''SET'', ''DEL'', ''EXPIRE''}" by blast
  then show ?thesis
  proof cases
    case 1
    then have e: "apply_set env now args s = (r, s')" using assms(2) Some by (simp add: ApplyLogEntry_def)
    have g: "spec_apply env now e m = spec_apply_set env now args m" for m by (simp add: spec_apply_def Some 1)
    show ?thesis unfolding g
      using e assms(1) kv_ApplySet_refines [OF assms(1) prod.collapse [symmetric]]
      by (auto simp: apply_set_def spec_apply_set_def Let_def case_prod_beta split: if_split_asm option.splits)
  next
    case 2
    then have e: "apply_del env args s = (r, s')" using assms(2) Some by (simp add: ApplyLogEntry_def)
    have g: "spec_apply env now e m = spec_apply_del args m" for m by (simp add: spec_apply_def Some 2)
    show ?thesis unfolding g
      using e assms(1) del_keys_refines [OF assms(1) prod.collapse [symmetric]]
      by (auto simp: apply_del_def spec_apply_del_def Let_def case_prod_beta split: if_split_asm)
  next
    case 3
    then have e: "apply_expire env now args s = (r, s')" using assms(2) Some by (simp add: ApplyLogEntry_def)
    have g: "spec_apply env now e m = spec_apply_expire env now args m" for m by (simp add: spec_apply_def Some 3)
    show ?thesis unfolding g
      using e assms(1) kv_Expire_refines [OF assms(1) prod.collapse [symmetric]]
      by (auto simp: apply_expire_def spec_apply_expire_def Let_def case_prod_beta split: if_split_asm option.splits)
  next
    case 4
    then show ?thesis using assms by (simp add: ApplyLogEntry_def spec_apply_def Some)
  qed
qed

interpretation kv: state_machine "ApplyLogEntry env" "kv_inv env" "kv_view env" "spec_apply env" for env
  using ApplyLogEntry_refines [OF _ prod.collapse [symmetric]] by unfold_locales auto

lemma set_options_cong:
  "SimpleAtoi env1 = SimpleAtoi env2 \<Longrightarrow>
   set_options env1 now args nx xx ex = set_options env2 now args nx xx ex"
  by (induction env1 now args nx xx ex rule: set_options.induct)
    (simp_all add: ttl_deadline_def split: SetOption.split option.split)

lemma spec_apply_cong:
  assumes "SimpleAtoi env1 = SimpleAtoi env2"
  shows "spec_apply env1 = spec_apply env2"
  by (intro ext) (unfold spec_apply_def spec_apply_set_def spec_apply_expire_def set_options_cong [OF assms] assms, rule refl)

lemma entry_args_encode:
  "args \<noteq> [] \<Longrightarrow> length (EncodeRespArray args) < 2 ^ 64 \<Longrightarrow> entry_args (EncodeRespArray args) = Some args"
  using ParseRespArray_encode [of args "[]"] by (simp add: entry_args_def)

lemma set_option_of_simps [simp]:
  "set_option_of ''NX'' = Opt_NX" "set_option_of ''XX'' = Opt_XX" "set_option_of ''EX'' = Opt_EX"
  "set_option_of ''PX'' = Opt_PX"
  by (simp_all add: set_option_of_def)

text \<open>A decimal reader and a hash for examples.\<close>

definition plain_env :: KvEnv where
  "plain_env = \<lparr>xxh64 = length, SimpleAtoi =
     (\<lambda>s. if s \<noteq> [] \<and> list_all is_digit s then Some (int (dec_val 0 s)) else None)\<rparr>"

section \<open>Properties\<close>

text \<open>C33: replicas agree. Two stores that start empty, with any shard counts and any hash functions,
  and apply the same entries at the same clock readings, return the same results, hold the same
  contents, and answer every later GET alike.\<close>

theorem replicas_agree:
  assumes "SimpleAtoi env1 = SimpleAtoi env2"
    and "0 < n1" "n1 < 2 ^ 16" "0 < n2" "n2 < 2 ^ 16"
    and r1: "apply_all (ApplyLogEntry env1) log (kv_init n1) = (rs1, s1)"
    and r2: "apply_all (ApplyLogEntry env2) log (kv_init n2) = (rs2, s2)"
  shows "rs1 = rs2 \<and> kv_view env1 s1 = kv_view env2 s2
    \<and> fst (kv_Get env1 now 0 k c1 s1) = fst (kv_Get env2 now 0 k c2 s2)"
proof -
  note R1 = kv.run_refines [OF kv_init_inv [OF assms(2,3)], of env1 log, unfolded r1 fst_conv snd_conv]
  note R2 = kv.run_refines [OF kv_init_inv [OF assms(4,5)], of env2 log, unfolded r2 fst_conv snd_conv]
  have v: "kv_view env1 s1 = kv_view env2 s2"
    unfolding R1(2) R2(2) kv_init_view [OF assms(2,3)] kv_init_view [OF assms(4,5)]
      spec_apply_cong [OF assms(1)] ..
  have "rs1 = rs2"
    unfolding R1(1) R2(1) kv_init_view [OF assms(2,3)] kv_init_view [OF assms(4,5)]
      spec_apply_cong [OF assms(1)] ..
  moreover have "fst (kv_Get env1 now 0 k c1 s1) = fst (kv_Get env2 now 0 k c2 s2)"
    using kv_Get_refines(1) [OF R1(3) prod.collapse [symmetric]]
      kv_Get_refines(1) [OF R2(3) prod.collapse [symmetric]] v by simp
  ultimately show ?thesis using v by blast
qed

theorem replicas_agree_witness:
  "let env2 = plain_env\<lparr>xxh64 := \<lambda>_. 7\<rparr>;
       log = [(5, mk_entry 1 1 ''SET k v''), (6, mk_entry 1 2 ''DEL k'')];
       (rs1, s1) = apply_all (ApplyLogEntry plain_env) log (kv_init 3);
       (rs2, s2) = apply_all (ApplyLogEntry env2) log (kv_init 2)
   in rs1 = rs2 \<and> kv_view plain_env s1 = kv_view env2 s2"
  using replicas_agree [of plain_env "plain_env\<lparr>xxh64 := \<lambda>_. 7\<rparr>" 3 2
      "[(5, mk_entry 1 1 ''SET k v''), (6, mk_entry 1 2 ''DEL k'')]",
      OF _ _ _ _ _ prod.collapse [symmetric] prod.collapse [symmetric]]
  unfolding Let_def case_prod_beta by simp

text \<open>C34: the store keeps its invariant (every key is in the shard its hash names, once, and database 0
  exists in every shard) from the empty store through every sequence of entries, and holds at all times
  what the specification map holds.\<close>

theorem store_refines_map:
  assumes "0 < n" "n < 2 ^ 16"
  shows "kv_inv env (snd (apply_all (ApplyLogEntry env) log (kv_init n)))
    \<and> apply_all (spec_apply env) log Map.empty
      = (fst (apply_all (ApplyLogEntry env) log (kv_init n)),
         kv_view env (snd (apply_all (ApplyLogEntry env) log (kv_init n))))"
  using kv.run_refines [OF kv_init_inv [OF assms], of env log] by (simp add: kv_init_view [OF assms])

theorem store_refines_map_witness:
  "kv_inv plain_env (snd (apply_all (ApplyLogEntry plain_env) [(5, mk_entry 1 1 ''SET k v'')] (kv_init 3)))"
  using store_refines_map [of 3 plain_env "[(5, mk_entry 1 1 ''SET k v'')]"] by simp

text \<open>C35: a SET with the XX option on a key that is absent reports that nothing was applied, yet the
  key exists afterwards, with an empty value.\<close>

theorem set_XX_creates_missing_key:
  assumes "kv_inv env s" and "kv_view env s k = None"
    and "length (EncodeRespArray [''SET'', k, v, ''XX'']) < 2 ^ 64"
    and "command e = EncodeRespArray [''SET'', k, v, ''XX'']"
  shows "fst (ApplyLogEntry env now e s) = apply_result ApplyOp_OK 0
    \<and> kv_view env (snd (ApplyLogEntry env now e s)) k = Some empty_value"
proof -
  have a: "entry_args (command e) = Some [''SET'', k, v, ''XX'']"
    using assms(3,4) entry_args_encode by simp
  have "spec_apply env now e (kv_view env s)
      = (apply_result ApplyOp_OK 0, (kv_view env s)(k \<mapsto> empty_value))"
    by (simp add: spec_apply_def a spec_apply_set_def spec_set_def spec_add_or_find_def assms(2))
  then show ?thesis using kv.entry_result [OF assms(1)] kv.entry_view [OF assms(1)] by simp
qed

theorem set_XX_creates_missing_key_witness:
  "let e = mk_entry 1 1 (EncodeRespArray [''SET'', ''k'', ''v'', ''XX'']);
       s' = snd (ApplyLogEntry plain_env 5 e (kv_init 2))
   in kv_view plain_env s' ''k'' = Some empty_value"
  using set_XX_creates_missing_key [of plain_env "kv_init 2" "''k''" "''v''" "mk_entry 1 1 (EncodeRespArray [''SET'', ''k'', ''v'', ''XX''])" 5]
  by (simp add: kv_init_inv kv_init_view mk_entry_def EncodeRespArray_def encode_arg_def to_string_eval(1) Let_def)

text \<open>C36: deadlines come from the clock of the replica that applies the entry. Two replicas with the
  same contents that apply the same SET with an EX option at different times hold different values
  afterwards.\<close>

theorem expiry_depends_on_apply_clock:
  assumes "kv_inv env s" and "SimpleAtoi env t = Some ttl" and "0 \<le> ttl"
    and "now1 + nat ttl * 1000 < 2 ^ 64" and "now2 + nat ttl * 1000 < 2 ^ 64"
    and "0 < now1" and "0 < now2" and "now1 \<noteq> now2"
    and "length (EncodeRespArray [''SET'', k, v, ''EX'', t]) < 2 ^ 64"
    and "command e = EncodeRespArray [''SET'', k, v, ''EX'', t]"
  shows "kv_view env (snd (ApplyLogEntry env now1 e s)) k \<noteq> kv_view env (snd (ApplyLogEntry env now2 e s)) k"
proof -
  have a: "entry_args (command e) = Some [''SET'', k, v, ''EX'', t]"
    using assms(9,10) entry_args_encode by simp
  have "snd (spec_apply env now e m) k = Some \<lparr>pv_value = v, pv_expire = now + nat ttl * 1000\<rparr>"
    if "now + nat ttl * 1000 < 2 ^ 64" "0 < now" for now and m :: kv_map
  proof -
    have "mul64 (nat ttl) 1000 = nat ttl * 1000" using that(1) by simp
    then have d: "ttl_deadline env now Opt_EX t = Some (now + nat ttl * 1000)"
      using that(1) assms(2,3) by (simp add: ttl_deadline_def)
    show ?thesis using that(2)
      by (simp add: spec_apply_def a spec_apply_set_def spec_set_def case_prod_beta Let_def d)
  qed
  then show ?thesis using assms(4-8) kv.entry_view [OF assms(1)] by simp
qed

theorem expiry_depends_on_apply_clock_witness:
  "kv_view plain_env (snd (ApplyLogEntry plain_env 5 (mk_entry 1 1 (EncodeRespArray [''SET'', ''k'', ''v'', ''EX'', ''2''])) (kv_init 2))) ''k''
   \<noteq> kv_view plain_env (snd (ApplyLogEntry plain_env 8 (mk_entry 1 1 (EncodeRespArray [''SET'', ''k'', ''v'', ''EX'', ''2''])) (kv_init 2))) ''k''"
  by (rule expiry_depends_on_apply_clock [of _ _ "''2''" 2 _ _ _ "''v''"])
    (simp_all add: kv_init_inv mk_entry_def EncodeRespArray_def encode_arg_def to_string_eval(1)
      plain_env_def is_digit_def digit_val_def)

end
