(* ===== verification/Log_Store.thy ===== *)
theory Log_Store
  imports Command_Log Segment_Log
begin

text \<open>
  The pointer to \<^verbatim>\<open>ILogStorage\<close> a node holds: one of the two storages the server installs, with
  every virtual call dispatched to it. The dispatch keeps the contract of the interface.
\<close>

datatype LogStore = InMemory CommandLog | Segmented SegmentLog

definition ls_inv :: "LogStore \<Rightarrow> bool" where
  "ls_inv s = (case s of InMemory c \<Rightarrow> cl_inv c | Segmented g \<Rightarrow> sl_inv g)"

definition ls_base :: "LogStore \<Rightarrow> LogIndex" where
  "ls_base s = (case s of InMemory c \<Rightarrow> cl_base c | Segmented g \<Rightarrow> sl_base g)"

definition ls_ents :: "LogStore \<Rightarrow> LogEntry list" where
  "ls_ents s = (case s of InMemory c \<Rightarrow> cl_ents c | Segmented g \<Rightarrow> sl_ents g)"

definition ls_anchor :: "LogStore \<Rightarrow> SnapshotAnchor" where
  "ls_anchor s = (case s of InMemory c \<Rightarrow> cl_anchor c | Segmented g \<Rightarrow> sl_anchor g)"

definition ls_LastIndex :: "LogStore \<Rightarrow> LogIndex" where
  "ls_LastIndex s = (case s of InMemory c \<Rightarrow> cl_LastIndex c | Segmented g \<Rightarrow> sl_LastIndex g)"

definition ls_LastTerm :: "LogStore \<Rightarrow> Term" where
  "ls_LastTerm s = (case s of InMemory c \<Rightarrow> cl_LastTerm c | Segmented g \<Rightarrow> sl_LastTerm g)"

definition ls_Get :: "LogStore \<Rightarrow> LogIndex \<Rightarrow> LogEntry option" where
  "ls_Get s = (case s of InMemory c \<Rightarrow> cl_Get c | Segmented g \<Rightarrow> sl_Get g)"

definition ls_GetTerm :: "LogStore \<Rightarrow> LogIndex \<Rightarrow> Term" where
  "ls_GetTerm s = (case s of InMemory c \<Rightarrow> cl_GetTerm c | Segmented g \<Rightarrow> sl_GetTerm g)"

definition ls_GetRange :: "LogStore \<Rightarrow> LogIndex \<Rightarrow> nat \<Rightarrow> LogEntry list" where
  "ls_GetRange s = (case s of InMemory c \<Rightarrow> cl_GetRange c | Segmented g \<Rightarrow> sl_GetRange g)"

definition ls_SetSnapshotAnchor :: "LogIndex \<Rightarrow> Term \<Rightarrow> LogStore \<Rightarrow> LogStore" where
  "ls_SetSnapshotAnchor i t s =
     (case s of InMemory c \<Rightarrow> InMemory (cl_SetSnapshotAnchor i t c)
      | Segmented g \<Rightarrow> Segmented (sl_SetSnapshotAnchor i t g))"

definition ls_Append :: "LogEntry \<Rightarrow> bool \<Rightarrow> LogStore \<Rightarrow> LogIndex \<times> LogStore" where
  "ls_Append e fl s =
     (case s of InMemory c \<Rightarrow> map_prod (\<lambda>i. i) InMemory (cl_Append e fl c)
      | Segmented g \<Rightarrow> map_prod (\<lambda>i. i) Segmented (sl_Append e fl g))"

definition ls_TruncateFrom :: "LogIndex \<Rightarrow> LogStore \<Rightarrow> LogStore" where
  "ls_TruncateFrom n s =
     (case s of InMemory c \<Rightarrow> InMemory (cl_TruncateFrom n c) | Segmented g \<Rightarrow> Segmented (sl_TruncateFrom n g))"

definition ls_CompactUpTo :: "LogIndex \<Rightarrow> LogStore \<Rightarrow> LogStore" where
  "ls_CompactUpTo n s =
     (case s of InMemory c \<Rightarrow> InMemory (cl_CompactUpTo n c) | Segmented g \<Rightarrow> Segmented (sl_CompactUpTo n g))"

definition ls_Clear :: "LogStore \<Rightarrow> LogStore" where
  "ls_Clear s = (case s of InMemory c \<Rightarrow> InMemory (cl_Clear c) | Segmented g \<Rightarrow> Segmented (sl_Clear g))"

text \<open>Calls with a default in the interface; the in-memory log inherits the defaults.\<close>

definition ls_CompactLogs :: "LogIndex \<Rightarrow> Term \<Rightarrow> LogStore \<Rightarrow> LogStore" where
  "ls_CompactLogs i t s =
     (case s of InMemory c \<Rightarrow> InMemory (cl_CompactUpTo i (cl_SetSnapshotAnchor i t c))
      | Segmented g \<Rightarrow> Segmented (sl_CompactLogs i t g))"

definition ls_Persist :: "LogStore \<Rightarrow> LogStore" where
  "ls_Persist s = (case s of InMemory c \<Rightarrow> InMemory c | Segmented g \<Rightarrow> Segmented (sl_Persist g))"

definition ls_Flush :: "LogStore \<Rightarrow> LogStore" where
  "ls_Flush s = (case s of InMemory c \<Rightarrow> InMemory c | Segmented g \<Rightarrow> Segmented (snd (sl_Flush g)))"

definition ls_PruneCompacted :: "LogStore \<Rightarrow> LogStore" where
  "ls_PruneCompacted s = (case s of InMemory c \<Rightarrow> InMemory c | Segmented g \<Rightarrow> Segmented (sl_PruneCompacted g))"

lemmas ls_defs = ls_inv_def ls_base_def ls_ents_def ls_anchor_def ls_LastIndex_def ls_LastTerm_def ls_Get_def
  ls_GetTerm_def ls_GetRange_def ls_SetSnapshotAnchor_def ls_Append_def ls_TruncateFrom_def ls_CompactUpTo_def
  ls_Clear_def

interpretation ls: log_storage ls_inv ls_base ls_ents ls_anchor ls_LastIndex ls_LastTerm ls_Get
  ls_GetTerm ls_GetRange ls_SetSnapshotAnchor ls_Append ls_TruncateFrom ls_CompactUpTo ls_Clear
proof unfold_locales
  fix s i t n e fl idx s'
  show "ls_inv s \<Longrightarrow> numbered (ls_base s) (ls_ents s)"
    using cl.inv_numbered sl.inv_numbered by (cases s) (auto simp: ls_defs)
  show "ls_inv s \<Longrightarrow> ls_LastIndex s = ls_base s + length (ls_ents s)"
    using cl.LastIndex sl.LastIndex by (cases s) (auto simp: ls_defs)
  show "ls_inv s \<Longrightarrow> ls_LastTerm s = last_term (ls_ents s)"
    using cl.LastTerm sl.LastTerm by (cases s) (auto simp: ls_defs)
  show "ls_inv s \<Longrightarrow> ls_base s < i \<Longrightarrow> i \<le> ls_LastIndex s \<Longrightarrow> ls_Get s i = Some (ls_ents s ! (i - ls_base s - 1))"
    using cl.Get_present sl.Get_present by (cases s) (auto simp: ls_defs)
  show "ls_inv s \<Longrightarrow> i < ls_base s \<or> ls_LastIndex s < i \<Longrightarrow> ls_Get s i = None"
    using cl.Get_absent sl.Get_absent by (cases s) (auto simp: ls_defs)
  show "ls_inv s \<Longrightarrow> 0 < i \<Longrightarrow> i = anchor_index (ls_anchor s) \<Longrightarrow> ls_GetTerm s i = anchor_term (ls_anchor s)"
    using cl.GetTerm_anchor sl.GetTerm_anchor by (cases s) (auto simp: ls_defs)
  show "ls_inv s \<Longrightarrow> ls_base s < i \<Longrightarrow> i \<noteq> anchor_index (ls_anchor s) \<Longrightarrow>
      ls_GetTerm s i = (case ls_Get s i of None \<Rightarrow> 0 | Some e \<Rightarrow> entry_term e)"
    using cl.GetTerm_entry sl.GetTerm_entry by (cases s) (auto simp: ls_defs)
  show "ls_inv s \<Longrightarrow> ls_base s < i \<Longrightarrow> i \<le> ls_LastIndex s \<Longrightarrow>
      ls_GetRange s i n = (let es = drop (i - ls_base s - 1) (ls_ents s) in if n = 0 then es else take n es)"
    using cl.GetRange sl.GetRange by (cases s) (auto simp: ls_defs)
  show "ls_inv s \<Longrightarrow> ls_inv (ls_SetSnapshotAnchor i t s)"
    using cl.SetSnapshotAnchor(1) sl.SetSnapshotAnchor(1) by (cases s) (auto simp: ls_defs)
  show "ls_base (ls_SetSnapshotAnchor i t s) = ls_base s"
    using cl.SetSnapshotAnchor(2) sl.SetSnapshotAnchor(2) by (cases s) (auto simp: ls_defs)
  show "ls_ents (ls_SetSnapshotAnchor i t s) = ls_ents s"
    using cl.SetSnapshotAnchor(3) sl.SetSnapshotAnchor(3) by (cases s) (auto simp: ls_defs)
  show "ls_anchor (ls_SetSnapshotAnchor i t s) = \<lparr>anchor_index = i, anchor_term = t\<rparr>"
    using cl.SetSnapshotAnchor(4) sl.SetSnapshotAnchor(4) by (cases s) (auto simp: ls_defs)
  show "ls_inv s \<Longrightarrow> ls_Append e fl s = (idx, s') \<Longrightarrow>
      ls_inv s' \<and> idx = ls_LastIndex s + 1 \<and> ls_base s' = ls_base s
      \<and> ls_ents s' = ls_ents s @ [e\<lparr>entry_index := ls_LastIndex s + 1\<rparr>] \<and> ls_anchor s' = ls_anchor s"
    using cl.Append [OF _ prod.collapse [symmetric]] sl.Append [OF _ prod.collapse [symmetric]]
    by (cases s) (auto simp: ls_defs map_prod_def case_prod_beta)
  show "ls_inv s \<Longrightarrow> ls_base s < n \<Longrightarrow> n \<le> ls_LastIndex s \<Longrightarrow>
      ls_inv (ls_TruncateFrom n s) \<and> ls_base (ls_TruncateFrom n s) = ls_base s
      \<and> ls_ents (ls_TruncateFrom n s) = take (n - ls_base s) (ls_ents s) \<and> ls_anchor (ls_TruncateFrom n s) = ls_anchor s"
    using cl.TruncateFrom sl.TruncateFrom by (cases s) (auto simp: ls_defs)
  show "ls_inv s \<Longrightarrow> ls_base s = 0 \<Longrightarrow>
      ls_inv (ls_TruncateFrom 0 s) \<and> ls_base (ls_TruncateFrom 0 s) = 0 \<and> ls_ents (ls_TruncateFrom 0 s) = []"
    using cl.TruncateFrom_0 sl.TruncateFrom_0 by (cases s) (auto simp: ls_defs)
  show "ls_inv s \<Longrightarrow> ls_base s < n \<Longrightarrow> n < ls_LastIndex s \<Longrightarrow>
      ls_inv (ls_CompactUpTo n s) \<and> ls_base (ls_CompactUpTo n s) = n
      \<and> ls_ents (ls_CompactUpTo n s) = drop (n - ls_base s) (ls_ents s) \<and> ls_anchor (ls_CompactUpTo n s) = ls_anchor s"
    using cl.CompactUpTo sl.CompactUpTo by (cases s) (auto simp: ls_defs)
  show "ls_inv s \<Longrightarrow> ls_inv (ls_Clear s) \<and> ls_base (ls_Clear s) = 0 \<and> ls_ents (ls_Clear s) = []"
    using cl.Clear sl.Clear by (cases s) (auto simp: ls_defs)
qed

end
