(* ===== verification/Meta_Files.thy ===== *)
theory Meta_Files
  imports File_System Raft_Types
begin

text \<open>
  Small metadata files: the helpers shared by \<^verbatim>\<open>server/raft/{raft_storage,apply_progress,
  snapshot_meta}.cc\<close> (each file carries its own copy of them) and two of their clients, the apply
  progress and the snapshot metadata. A file is replaced by writing a temporary one, syncing and
  renaming it; its content is one line of JSON, read back by searching for quoted field names.

  A path is the name of a file in the modelled directory. The directories the code creates along the
  way (\<^verbatim>\<open>mkdir\<close>) exist here, and the system calls succeed.
\<close>

section \<open>Writing and reading a file\<close>

definition WriteAndFsync :: "string \<Rightarrow> string \<Rightarrow> directory \<Rightarrow> directory" where
  "WriteAndFsync tmp content d = fs_sync tmp (fs_append tmp content (fs_open_trunc tmp d))"

definition replace_file :: "string \<Rightarrow> string \<Rightarrow> directory \<Rightarrow> directory" where
  "replace_file path content d = fs_rename (path @ ''.tmp'') path (WriteAndFsync (path @ ''.tmp'') content d)"

definition ReadFile :: "string \<Rightarrow> directory \<Rightarrow> string" where
  "ReadFile path d = (case fs_read d path of None \<Rightarrow> [] | Some s \<Rightarrow> s)"

lemma fs_read_replace [simp]:
  "fs_read (replace_file path content d) name =
     (if name = path then Some content else if name = path @ ''.tmp'' then None else fs_read d name)"
  by (simp add: replace_file_def WriteAndFsync_def fs_rename_def fs_open_trunc_def fs_append_def
      fs_sync_def fs_read_def)

lemma ReadFile_replace [simp]: "ReadFile path (replace_file path content d) = content"
  by (simp add: ReadFile_def)

lemma replace_file_synced:
  "map_of (replace_file path content d) path = Some \<lparr>f_data = content, f_synced = length content\<rparr>"
  by (simp add: replace_file_def WriteAndFsync_def fs_rename_def fs_open_trunc_def fs_append_def fs_sync_def)

text \<open>The new content is on stable storage when the rename happens.\<close>

lemma ReadFile_power_failure:
  assumes "power_failure (replace_file path content d) d'"
  shows "ReadFile path d' = content"
  using power_failure_synced [OF assms replace_file_synced] by (simp add: ReadFile_def)

section \<open>Fields of a JSON line\<close>

definition quote :: "string \<Rightarrow> string" where
  "quote s = CHR 0x22 # s @ [CHR 0x22]"

definition is_blank :: "char \<Rightarrow> bool" where
  "is_blank c \<longleftrightarrow> c = CHR '' '' \<or> c = CHR 0x09"

text \<open>The text after the colon that follows the first occurrence of the quoted name.\<close>

definition find_field :: "string \<Rightarrow> string \<Rightarrow> string option" where
  "find_field name data =
     (case find_sub (quote name) data of
        None \<Rightarrow> None
      | Some pos \<Rightarrow>
          (case find_from '':'' data pos of
             None \<Rightarrow> None
           | Some colon \<Rightarrow> Some (dropWhile is_blank (drop (colon + 1) data))))"

definition parse_uint :: "string \<Rightarrow> string \<Rightarrow> nat option" where
  "parse_uint name data =
     (case find_field name data of None \<Rightarrow> None | Some s \<Rightarrow> map_option fst (strtoull s))"

text \<open>A line of fields as the writers lay it out.\<close>

definition field_text :: "string \<times> string \<Rightarrow> string" where
  "field_text f = quote (fst f) @ '':'' @ snd f"

primrec line_rest :: "(string \<times> string) list \<Rightarrow> string" where
  "line_rest [] = ''}'' @ [CHR 0x0A]"
| "line_rest (f # fs) = '','' @ field_text f @ line_rest fs"

definition json_line :: "(string \<times> string) list \<Rightarrow> string" where
  "json_line fs = ''{'' @ tl (line_rest fs)"

definition name_ok :: "string \<Rightarrow> bool" where
  "name_ok n \<longleftrightarrow> n \<noteq> [] \<and> set n \<inter> {CHR 0x22, CHR '':'', CHR '','', CHR ''{'', CHR ''}''} = {}"

lemma name_okD:
  assumes "name_ok n"
  shows "n \<noteq> []" "CHR 0x22 \<notin> set n" "CHR '':'' \<notin> set n" "CHR '','' \<notin> set n"
    and "hd n \<noteq> CHR '':''" "hd n \<noteq> CHR '',''" "hd n \<noteq> CHR ''{''" "hd n \<noteq> CHR ''}''"
  using assms by (cases n; auto simp: name_ok_def)+

text \<open>A value that cannot be mistaken for the quoted name: a number, or a quoted text other than it.\<close>

definition value_clean :: "string \<Rightarrow> string \<Rightarrow> bool" where
  "value_clean name v \<longleftrightarrow> CHR 0x22 \<notin> set v \<or> (\<exists>w. v = quote w \<and> CHR 0x22 \<notin> set w \<and> w \<noteq> name)"

lemma length_quote [simp]: "length (quote s) = length s + 2"
  by (simp add: quote_def)

lemma value_clean_to_string [simp]: "value_clean name (to_string n)"
  by (simp add: value_clean_def is_digit_def)

lemma value_clean_quote: "CHR 0x22 \<notin> set w \<Longrightarrow> w \<noteq> name \<Longrightarrow> value_clean name (quote w)"
  by (auto simp: value_clean_def)

lemma starts_with_quote:
  assumes "CHR 0x22 \<notin> set w" "CHR 0x22 \<notin> set name"
  shows "starts_with (quote name) (quote w @ rest) \<longleftrightarrow> w = name"
proof
  assume "starts_with (quote name) (quote w @ rest)"
  then have "starts_with (name @ [CHR 0x22]) (w @ CHR 0x22 # rest)" by (simp add: quote_def)
  then show "w = name" using assms
  proof (induction name arbitrary: w)
    case Nil
    then show ?case by (cases w) auto
  next
    case (Cons c name)
    then show ?case by (cases w) auto
  qed
next
  assume "w = name"
  then show "starts_with (quote name) (quote w @ rest)" by (simp only: starts_with_append)
qed

lemma find_sub_quote_step:
  assumes "CHR 0x22 \<notin> set w" "CHR 0x22 \<notin> set name" "w \<noteq> name" "name = [] \<or> hd name \<noteq> c" "c \<noteq> CHR 0x22"
  shows "find_sub (quote name) (quote w @ c # rest)
    = map_option (\<lambda>k. length w + 3 + k) (find_sub (quote name) rest)"
proof -
  have "\<not> starts_with (quote name) (quote w @ c # rest)"
    using starts_with_quote [OF assms(1,2)] assms(3) by simp
  then have "find_sub (quote name) (quote w @ c # rest)
      = map_option Suc (find_sub (quote name) (w @ CHR 0x22 # c # rest))"
    by (simp add: quote_def)
  also have "find_sub (quote name) (w @ CHR 0x22 # c # rest)
      = map_option (\<lambda>k. length w + k) (find_sub (quote name) (CHR 0x22 # c # rest))"
    using find_sub_skip [OF assms(1)] by (simp add: quote_def)
  also have "find_sub (quote name) (CHR 0x22 # c # rest) = map_option (\<lambda>k. k + 2) (find_sub (quote name) rest)"
  proof (cases name)
    case Nil
    then show ?thesis using assms(5) by (cases "find_sub (quote name) rest") (auto simp: quote_def)
  next
    case (Cons a list)
    then show ?thesis using assms(4,5) by (cases "find_sub (quote name) rest") (auto simp: quote_def)
  qed
  finally show ?thesis by (cases "find_sub (quote name) rest") auto
qed

lemma find_sub_field_step:
  assumes "name_ok name" "name_ok n" "n \<noteq> name" "value_clean name v" "c = CHR '','' \<or> c = CHR ''}''"
  shows "find_sub (quote name) (field_text (n, v) @ c # rest)
    = map_option (\<lambda>k. length (field_text (n, v)) + 1 + k) (find_sub (quote name) rest)"
proof -
  note nm = name_okD [OF assms(1)] name_okD [OF assms(2)]
  have q: "quote name = CHR 0x22 # name @ [CHR 0x22]" by (simp add: quote_def)
  have c: "c \<noteq> CHR 0x22" "hd name \<noteq> c" using assms(5) nm by auto
  have "find_sub (quote name) (field_text (n, v) @ c # rest)
      = map_option (\<lambda>k. length n + 3 + k) (find_sub (quote name) (v @ c # rest))"
    using find_sub_quote_step [of n name "CHR '':''" "v @ c # rest"] nm assms(3)
    by (simp add: field_text_def)
  also have "find_sub (quote name) (v @ c # rest)
      = map_option (\<lambda>k. length v + 1 + k) (find_sub (quote name) rest)"
  proof (cases "CHR 0x22 \<in> set v")
    case True
    then obtain w where w: "v = quote w" "CHR 0x22 \<notin> set w" "w \<noteq> name" using assms(4) by (auto simp: value_clean_def)
    have "find_sub (quote name) (quote w @ c # rest) = map_option (\<lambda>k. length w + 3 + k) (find_sub (quote name) rest)"
      using find_sub_quote_step w nm(2) c by blast
    then show ?thesis unfolding w(1) by (cases "find_sub (quote name) rest") simp_all
  next
    case False
    then have "CHR 0x22 \<notin> set (v @ [c])" using c by auto
    then show ?thesis unfolding q using find_sub_skip [of "CHR 0x22" "v @ [c]" "name @ [CHR 0x22]" rest] by simp
  qed
  finally show ?thesis by (cases "find_sub (quote name) rest") (auto simp: field_text_def quote_def)
qed

text \<open>The search finds the value of the field it names.\<close>

definition clean_before :: "string \<Rightarrow> (string \<times> string) list \<Rightarrow> bool" where
  "clean_before name fs \<longleftrightarrow> (\<forall>f \<in> set fs. name_ok (fst f) \<and> fst f \<noteq> name \<and> value_clean name (snd f))"

lemma clean_before_simps [simp]:
  "clean_before name []"
  "clean_before name (f # fs) \<longleftrightarrow> name_ok (fst f) \<and> fst f \<noteq> name \<and> value_clean name (snd f) \<and> clean_before name fs"
  by (auto simp: clean_before_def)

lemma find_sub_fields:
  assumes "name_ok name" "clean_before name fs"
  shows "\<exists>k. find_sub (quote name) (concat (map (\<lambda>f. field_text f @ '','') fs) @ quote name @ rest) = Some k
    \<and> drop k (concat (map (\<lambda>f. field_text f @ '','') fs) @ quote name @ rest) = quote name @ rest"
  using assms(2)
proof (induction fs)
  case Nil
  then show ?case by simp
next
  case (Cons f fs)
  obtain n v where f: "f = (n, v)" by (cases f)
  from Cons obtain k where k:
    "find_sub (quote name) (concat (map (\<lambda>f. field_text f @ '','') fs) @ quote name @ rest) = Some k"
    "drop k (concat (map (\<lambda>f. field_text f @ '','') fs) @ quote name @ rest) = quote name @ rest" by auto
  show ?case
    using find_sub_field_step [of name n v "CHR '',''" "concat (map (\<lambda>f. field_text f @ '','') fs) @ quote name @ rest"]
      Cons.prems k assms by (simp add: f)
qed

lemma find_colon: "name_ok name \<Longrightarrow> find_sub '':'' (quote name @ CHR '':'' # rest) = Some (length name + 2)"
  using find_sub_first [of "CHR '':''" "quote name" "[]" rest] by (auto simp: quote_def name_ok_def)

lemma find_field_at:
  assumes "name_ok name" "find_sub (quote name) d = Some k" "drop k d = quote name @ CHR '':'' # s"
  shows "find_field name d = Some (dropWhile is_blank s)"
proof -
  have "k \<le> length d" using find_sub_bound [OF assms(2)] by simp
  then have b: "find_from '':'' d k = Some (k + (length name + 2))"
    using find_colon [OF assms(1), of s] by (simp add: find_from_def assms(3))
  have "drop (k + (length name + 2) + 1) d = drop (length name + 3) (drop k d)"
    by (simp add: add.commute numeral_eq_Suc)
  also have "\<dots> = s" unfolding assms(3) by (simp add: quote_def numeral_eq_Suc)
  finally show ?thesis by (simp add: find_field_def assms(2) b)
qed

lemma line_rest_append: "line_rest (pre @ f # post) = concat (map (\<lambda>f. '','' @ field_text f) pre) @ line_rest (f # post)"
  by (induction pre) simp_all

lemma json_line_split:
  "json_line (pre @ f # post)
     = CHR ''{'' # concat (map (\<lambda>f. field_text f @ '','') pre) @ field_text f @ line_rest post"
proof -
  have "concat (map (\<lambda>f. CHR '','' # field_text f) fs) @ CHR '','' # s
      = CHR '','' # concat (map (\<lambda>f. field_text f @ '','') fs) @ s" for fs and s :: string
    by (induction fs) simp_all
  from this [of pre "field_text f @ line_rest post"] show ?thesis
    by (simp only: json_line_def line_rest_append line_rest.simps append_Cons append_Nil list.sel)
qed

lemma find_field_line:
  assumes "name_ok name" "clean_before name pre"
  shows "find_field name (json_line (pre @ (name, v) # post)) = Some (dropWhile is_blank (v @ line_rest post))"
proof -
  obtain k where k:
    "find_sub (quote name) (concat (map (\<lambda>f. field_text f @ '','') pre) @ quote name @ CHR '':'' # v @ line_rest post) = Some k"
    "drop k (concat (map (\<lambda>f. field_text f @ '','') pre) @ quote name @ CHR '':'' # v @ line_rest post)
       = quote name @ CHR '':'' # v @ line_rest post"
    using find_sub_fields [OF assms] by blast
  show ?thesis
    by (rule find_field_at [OF assms(1), of _ "Suc k"])
      (use k in \<open>simp_all add: json_line_split field_text_def quote_def\<close>)
qed

lemma line_rest_no_digit: "line_rest fs \<noteq> []" "\<not> is_digit (hd (line_rest fs))"
  by (cases fs; simp add: is_digit_def)+

lemma parse_uint_line:
  assumes "name_ok name" "clean_before name pre" "n < 2 ^ 64"
  shows "parse_uint name (json_line (pre @ (name, to_string n) # post)) = Some n"
proof -
  have "is_digit (hd (to_string n))" by (rule to_string_digits [of _ n]) simp
  then have "dropWhile is_blank (to_string n @ line_rest post) = to_string n @ line_rest post"
    by (cases "to_string n") (auto simp: is_digit_def is_blank_def)
  then show ?thesis
    using strtoull_digits [of "to_string n" "line_rest post"] line_rest_no_digit [of post] assms
    by (simp add: parse_uint_def find_field_line)
qed

section \<open>Apply progress\<close>

record ApplyProgress =
  ap_path :: string
  ap_last_applied :: LogIndex

definition ap_new :: "string \<Rightarrow> ApplyProgress" where
  "ap_new path = \<lparr>ap_path = path, ap_last_applied = 0\<rparr>"

definition ap_Serialize :: "ApplyProgress \<Rightarrow> string" where
  "ap_Serialize a = ''{'' @ quote ''last_applied'' @ '':'' @ to_string (ap_last_applied a) @ ''}'' @ [CHR 0x0A]"

definition ap_Deserialize :: "string \<Rightarrow> ApplyProgress \<Rightarrow> ApplyProgress" where
  "ap_Deserialize data a =
     (case parse_uint ''last_applied'' data of None \<Rightarrow> a | Some v \<Rightarrow> a\<lparr>ap_last_applied := v\<rparr>)"

definition ap_Flush :: "directory \<times> ApplyProgress \<Rightarrow> directory \<times> ApplyProgress" where
  "ap_Flush da = (case da of (d, a) \<Rightarrow>
     if ap_path a = [] then (d, a) else (replace_file (ap_path a) (ap_Serialize a) d, a))"

definition ap_Load :: "directory \<times> ApplyProgress \<Rightarrow> directory \<times> ApplyProgress" where
  "ap_Load da = (case da of (d, a) \<Rightarrow>
     if ap_path a = [] then (d, a)
     else let data = ReadFile (ap_path a) d
          in if data = [] then ap_Flush (d, a) else (d, ap_Deserialize data a))"

definition ap_Update :: "LogIndex \<Rightarrow> directory \<times> ApplyProgress \<Rightarrow> directory \<times> ApplyProgress" where
  "ap_Update i da = (case da of (d, a) \<Rightarrow> ap_Flush (d, a\<lparr>ap_last_applied := i\<rparr>))"

definition ap_UpdateMemoryOnly :: "LogIndex \<Rightarrow> ApplyProgress \<Rightarrow> ApplyProgress" where
  "ap_UpdateMemoryOnly i a = a\<lparr>ap_last_applied := i\<rparr>"

definition ap_Reset :: "LogIndex \<Rightarrow> directory \<times> ApplyProgress \<Rightarrow> directory \<times> ApplyProgress" where
  "ap_Reset i da = (case da of (d, a) \<Rightarrow> ap_Flush (d, a\<lparr>ap_last_applied := i\<rparr>))"

lemma ap_roundtrip:
  assumes "ap_last_applied a < 2 ^ 64"
  shows "ap_Deserialize (ap_Serialize a) b = b\<lparr>ap_last_applied := ap_last_applied a\<rparr>"
proof -
  have "ap_Serialize a = json_line ([] @ (''last_applied'', to_string (ap_last_applied a)) # [])"
    by (simp add: ap_Serialize_def json_line_def field_text_def)
  then show ?thesis
    using parse_uint_line [of "''last_applied''" "[]" "ap_last_applied a" "[]"] assms
    by (simp add: ap_Deserialize_def name_ok_def)
qed

lemma ap_Load_Flush:
  assumes "ap_last_applied a < 2 ^ 64" "ap_path a \<noteq> []" "ap_Flush (d, a) = (d1, a1)" "power_failure d1 d2"
  shows "ap_Load (d2, ap_new (ap_path a)) = (d2, a)"
proof -
  have "ReadFile (ap_path a) d2 = ap_Serialize a"
    using assms(2-4) by (auto simp: ap_Flush_def intro!: ReadFile_power_failure [of _ _ d])
  then show ?thesis
    using assms(1,2) ap_roundtrip [of a "ap_new (ap_path a)"]
    by (simp add: ap_Load_def Let_def ap_new_def) (simp add: ap_Serialize_def)
qed

section \<open>Snapshot metadata\<close>

record SnapshotMeta =
  meta_index :: LogIndex
  meta_term :: Term
  meta_timestamp :: ms

record SnapshotMetaStorage =
  sms_path :: string
  sms_meta :: SnapshotMeta

definition meta_default :: SnapshotMeta where
  "meta_default = \<lparr>meta_index = 0, meta_term = 0, meta_timestamp = 0\<rparr>"

definition sms_new :: "string \<Rightarrow> SnapshotMetaStorage" where
  "sms_new path = \<lparr>sms_path = path, sms_meta = meta_default\<rparr>"

definition meta_Serialize :: "SnapshotMeta \<Rightarrow> string" where
  "meta_Serialize m =
     ''{'' @ quote ''index'' @ '':'' @ to_string (meta_index m)
     @ '','' @ quote ''term'' @ '':'' @ to_string (meta_term m)
     @ '','' @ quote ''timestamp_ms'' @ '':'' @ to_string (meta_timestamp m) @ ''}'' @ [CHR 0x0A]"

definition meta_Deserialize :: "string \<Rightarrow> SnapshotMeta \<Rightarrow> SnapshotMeta" where
  "meta_Deserialize data m =
     (let m1 = (case parse_uint ''index'' data of None \<Rightarrow> m | Some v \<Rightarrow> m\<lparr>meta_index := v\<rparr>);
          m2 = (case parse_uint ''term'' data of None \<Rightarrow> m1 | Some v \<Rightarrow> m1\<lparr>meta_term := v\<rparr>)
      in case parse_uint ''timestamp_ms'' data of None \<Rightarrow> m2 | Some v \<Rightarrow> m2\<lparr>meta_timestamp := v\<rparr>)"

definition sms_Flush :: "directory \<times> SnapshotMetaStorage \<Rightarrow> directory \<times> SnapshotMetaStorage" where
  "sms_Flush ds = (case ds of (d, s) \<Rightarrow>
     if sms_path s = [] then (d, s) else (replace_file (sms_path s) (meta_Serialize (sms_meta s)) d, s))"

definition sms_Load :: "directory \<times> SnapshotMetaStorage \<Rightarrow> directory \<times> SnapshotMetaStorage" where
  "sms_Load ds = (case ds of (d, s) \<Rightarrow>
     if sms_path s = [] then (d, s)
     else let data = ReadFile (sms_path s) d
          in if data = [] then sms_Flush (d, s)
             else (d, s\<lparr>sms_meta := meta_Deserialize data (sms_meta s)\<rparr>))"

definition sms_SetMeta :: "SnapshotMeta \<Rightarrow> directory \<times> SnapshotMetaStorage \<Rightarrow> directory \<times> SnapshotMetaStorage" where
  "sms_SetMeta m ds = (case ds of (d, s) \<Rightarrow> sms_Flush (d, s\<lparr>sms_meta := m\<rparr>))"

definition meta_ok :: "SnapshotMeta \<Rightarrow> bool" where
  "meta_ok m \<longleftrightarrow> meta_index m < 2 ^ 64 \<and> meta_term m < 2 ^ 64 \<and> meta_timestamp m < 2 ^ 64"

lemma meta_roundtrip:
  assumes "meta_ok m"
  shows "meta_Deserialize (meta_Serialize m) m0 = m"
proof -
  let ?fi = "(''index'', to_string (meta_index m))"
  let ?ft = "(''term'', to_string (meta_term m))"
  let ?fm = "(''timestamp_ms'', to_string (meta_timestamp m))"
  have s: "meta_Serialize m = json_line [?fi, ?ft, ?fm]"
    by (simp add: meta_Serialize_def json_line_def field_text_def)
  show ?thesis
    using parse_uint_line [of "''index''" "[]" "meta_index m" "[?ft, ?fm]"]
      parse_uint_line [of "''term''" "[?fi]" "meta_term m" "[?fm]"]
      parse_uint_line [of "''timestamp_ms''" "[?fi, ?ft]" "meta_timestamp m" "[]"] assms
    by (simp add: meta_Deserialize_def s meta_ok_def name_ok_def Let_def)
qed

lemma sms_Load_SetMeta:
  assumes "meta_ok m" "sms_path s \<noteq> []" "sms_SetMeta m (d, s) = (d1, s1)" "power_failure d1 d2"
  shows "sms_Load (d2, sms_new (sms_path s)) = (d2, \<lparr>sms_path = sms_path s, sms_meta = m\<rparr>)"
proof -
  have "ReadFile (sms_path s) d2 = meta_Serialize m"
    using assms(2-4) by (auto simp: sms_SetMeta_def sms_Flush_def intro!: ReadFile_power_failure [of _ _ d])
  then show ?thesis
    using assms(1,2) meta_roundtrip [of m meta_default]
    by (simp add: sms_Load_def Let_def sms_new_def) (simp add: meta_Serialize_def)
qed

end
