(* ===== verification/Raft_Storage.thy ===== *)
theory Raft_Storage
  imports Meta_Files
begin

text \<open>
  The durable Raft state of \<^verbatim>\<open>server/raft/raft_storage.{h,cc}\<close>: current term, vote and joint
  configuration in one JSON line, replaced atomically. Sets of voters are written in iteration order
  and read back by insertion.
\<close>

section \<open>JSON strings\<close>

definition hex_digit :: "nat \<Rightarrow> char" where
  "hex_digit n = char_of (if n < 10 then 48 + n else 87 + n)"

definition escape_char :: "char \<Rightarrow> string" where
  "escape_char c =
     (if c = CHR 0x22 then [CHR 0x5C, CHR 0x22]
      else if c = CHR 0x5C then [CHR 0x5C, CHR 0x5C]
      else if c = CHR 0x0A then [CHR 0x5C, CHR ''n'']
      else if c = CHR 0x0D then [CHR 0x5C, CHR ''r'']
      else if c = CHR 0x09 then [CHR 0x5C, CHR ''t'']
      else if (of_char c :: nat) < 32
      then [CHR 0x5C, CHR ''u'', CHR ''0'', CHR ''0'', hex_digit (of_char c div 16), hex_digit (of_char c mod 16)]
      else [c])"

definition EscapeJson :: "string \<Rightarrow> string" where
  "EscapeJson raw = concat (map escape_char raw)"

definition hex_val :: "char \<Rightarrow> nat option" where
  "hex_val c =
     (let n = of_char c in
      if 48 \<le> n \<and> n \<le> 57 then Some (n - 48)
      else if 65 \<le> n \<and> n \<le> 70 then Some (n - 55)
      else if 97 \<le> n \<and> n \<le> 102 then Some (n - 87)
      else None)"

text \<open>\<^verbatim>\<open>strtol\<close> in base 16 on the four characters, when it consumes all of them: leading white space,
  a sign and a \<^verbatim>\<open>0x\<close> prefix are part of its syntax; a negative value is reported as \<open>None\<close>, which the
  caller drops like any other value outside 1 to 127.\<close>

definition strtol_hex4 :: "string \<Rightarrow> nat option" where
  "strtol_hex4 h =
     (let s1 = dropWhile is_space h;
          s2 = (if s1 \<noteq> [] \<and> hd s1 = CHR ''+'' then tl s1 else s1);
          s3 = (if 2 < length s2 \<and> hd s2 = CHR ''0'' \<and> s2 ! 1 \<in> {CHR ''x'', CHR ''X''} \<and> hex_val (s2 ! 2) \<noteq> None
                then drop 2 s2 else s2)
      in if s3 \<noteq> [] \<and> list_all (\<lambda>c. hex_val c \<noteq> None) s3
         then Some (foldl (\<lambda>acc c. 16 * acc + the (hex_val c)) 0 s3) else None)"

definition unicode_char :: "string \<Rightarrow> string" where
  "unicode_char h =
     (case strtol_hex4 h of
        None \<Rightarrow> []
      | Some cp \<Rightarrow> if 0 < cp \<and> cp < 0x80 then [char_of cp] else [])"

function UnescapeJson :: "string \<Rightarrow> string" where
  "UnescapeJson [] = []"
| "UnescapeJson [c] = [c]"
| "UnescapeJson (c # d # rest) =
     (if c = CHR 0x5C then
        if d = CHR 0x22 then CHR 0x22 # UnescapeJson rest
        else if d = CHR 0x5C then CHR 0x5C # UnescapeJson rest
        else if d = CHR ''n'' then CHR 0x0A # UnescapeJson rest
        else if d = CHR ''r'' then CHR 0x0D # UnescapeJson rest
        else if d = CHR ''t'' then CHR 0x09 # UnescapeJson rest
        else if d = CHR ''u'' then
          if 4 \<le> length rest then unicode_char (take 4 rest) @ UnescapeJson (drop 4 rest)
          else UnescapeJson (d # rest)
        else c # UnescapeJson (d # rest)
      else c # UnescapeJson (d # rest))"
  by pat_completeness auto
termination by (relation "measure length") auto

text \<open>The text up to the closing quote, from just behind the opening one.\<close>

fun scan_quoted :: "bool \<Rightarrow> string \<Rightarrow> string option" where
  "scan_quoted escaped [] = None"
| "scan_quoted escaped (c # cs) =
     (if escaped then map_option ((#) c) (scan_quoted False cs)
      else if c = CHR 0x5C then map_option ((#) c) (scan_quoted True cs)
      else if c = CHR 0x22 then Some []
      else map_option ((#) c) (scan_quoted False cs))"

definition parse_string :: "string \<Rightarrow> string \<Rightarrow> string option" where
  "parse_string name data =
     (case find_field name data of
        None \<Rightarrow> None
      | Some s \<Rightarrow>
          if s = [] \<or> hd s \<noteq> CHR 0x22 then None
          else map_option UnescapeJson (scan_quoted False (tl s)))"

section \<open>The storage\<close>

record RaftStorage =
  rs_path :: string
  rs_current_term :: Term
  rs_voted_for :: NodeId
  rs_config_state :: ConfigState
  rs_joint_config :: JointConfig

definition config_default :: ClusterConfig where
  "config_default = \<lparr>version = 0, voters = [], learners = []\<rparr>"

definition joint_default :: JointConfig where
  "joint_default = \<lparr>old_config = config_default, new_config = config_default\<rparr>"

definition rs_new :: "string \<Rightarrow> RaftStorage" where
  "rs_new path = \<lparr>rs_path = path, rs_current_term = 0, rs_voted_for = [], rs_config_state = kStable,
     rs_joint_config = joint_default\<rparr>"

definition JoinToken :: "NodeId list \<Rightarrow> string" where
  "JoinToken ids =
     foldl (\<lambda>result node. (if result = [] then result else result @ '','') @ EscapeJson node) [] ids"

definition rs_Serialize :: "RaftStorage \<Rightarrow> string" where
  "rs_Serialize s =
     ''{'' @ quote ''current_term'' @ '':'' @ to_string (rs_current_term s)
     @ '','' @ quote ''voted_for'' @ '':'' @ quote (EscapeJson (rs_voted_for s))
     @ '','' @ quote ''config_state'' @ '':'' @ to_string (case rs_config_state s of kStable \<Rightarrow> 0 | kJoint \<Rightarrow> 1)
     @ '','' @ quote ''joint_old_voters'' @ '':'' @ quote (JoinToken (voters (old_config (rs_joint_config s))))
     @ '','' @ quote ''joint_new_voters'' @ '':'' @ quote (JoinToken (voters (new_config (rs_joint_config s))))
     @ '','' @ quote ''joint_old_version'' @ '':'' @ to_string (version (old_config (rs_joint_config s)))
     @ '','' @ quote ''joint_new_version'' @ '':'' @ to_string (version (new_config (rs_joint_config s)))
     @ ''}'' @ [CHR 0x0A]"

text \<open>The comma-separated voters of a field, each unescaped once more, inserted into \<open>acc\<close>.\<close>

function split_voters :: "string \<Rightarrow> NodeId list \<Rightarrow> NodeId list" where
  "split_voters s acc =
     (if s = [] then acc
      else case find_sub '','' s of
        None \<Rightarrow> set_insert (UnescapeJson s) acc
      | Some comma \<Rightarrow>
          split_voters (drop (comma + 1) s)
            (if 0 < comma then set_insert (UnescapeJson (take comma s)) acc else acc))"
  by pat_completeness auto
termination by (relation "measure (length \<circ> fst)") auto

declare split_voters.simps [simp del]

definition parse_voters :: "string \<Rightarrow> string \<Rightarrow> NodeId list \<Rightarrow> NodeId list" where
  "parse_voters name data acc = (case parse_string name data of None \<Rightarrow> acc | Some s \<Rightarrow> split_voters s acc)"

definition rs_Deserialize :: "string \<Rightarrow> RaftStorage \<Rightarrow> RaftStorage" where
  "rs_Deserialize data s =
     (let t = (case parse_uint ''current_term'' data of None \<Rightarrow> rs_current_term s | Some v \<Rightarrow> v);
          vote = (case parse_string ''voted_for'' data of None \<Rightarrow> rs_voted_for s | Some v \<Rightarrow> v);
          cs = (case parse_uint ''config_state'' data of
                  None \<Rightarrow> rs_config_state s | Some v \<Rightarrow> if v = 0 then kStable else kJoint);
          oc = old_config (rs_joint_config s);
          nc = new_config (rs_joint_config s);
          ov = parse_voters ''joint_old_voters'' data (voters oc);
          nv = parse_voters ''joint_new_voters'' data (voters nc);
          over = (case parse_uint ''joint_old_version'' data of None \<Rightarrow> version oc | Some v \<Rightarrow> v);
          nver = (case parse_uint ''joint_new_version'' data of None \<Rightarrow> version nc | Some v \<Rightarrow> v)
      in s\<lparr>rs_current_term := t, rs_voted_for := vote, rs_config_state := cs,
           rs_joint_config := \<lparr>old_config = oc\<lparr>version := over, voters := ov\<rparr>,
                               new_config = nc\<lparr>version := nver, voters := nv\<rparr>\<rparr>\<rparr>)"

definition rs_Flush :: "directory \<times> RaftStorage \<Rightarrow> directory \<times> RaftStorage" where
  "rs_Flush ds = (case ds of (d, s) \<Rightarrow>
     if rs_path s = [] then (d, s) else (replace_file (rs_path s) (rs_Serialize s) d, s))"

definition rs_Load :: "directory \<times> RaftStorage \<Rightarrow> directory \<times> RaftStorage" where
  "rs_Load ds = (case ds of (d, s) \<Rightarrow>
     if rs_path s = [] then (d, s)
     else let data = ReadFile (rs_path s) d
          in if data = [] then rs_Flush (d, s) else (d, rs_Deserialize data s))"

definition rs_set_current_term :: "Term \<Rightarrow> directory \<times> RaftStorage \<Rightarrow> directory \<times> RaftStorage" where
  "rs_set_current_term t ds = (case ds of (d, s) \<Rightarrow> rs_Flush (d, s\<lparr>rs_current_term := t\<rparr>))"

definition rs_set_voted_for :: "NodeId \<Rightarrow> directory \<times> RaftStorage \<Rightarrow> directory \<times> RaftStorage" where
  "rs_set_voted_for v ds = (case ds of (d, s) \<Rightarrow> rs_Flush (d, s\<lparr>rs_voted_for := v\<rparr>))"

definition rs_SetState :: "Term \<Rightarrow> NodeId \<Rightarrow> directory \<times> RaftStorage \<Rightarrow> directory \<times> RaftStorage" where
  "rs_SetState t v ds = (case ds of (d, s) \<Rightarrow> rs_Flush (d, s\<lparr>rs_current_term := t, rs_voted_for := v\<rparr>))"

definition rs_SetJointConfigState ::
  "ConfigState \<Rightarrow> JointConfig \<Rightarrow> directory \<times> RaftStorage \<Rightarrow> directory \<times> RaftStorage" where
  "rs_SetJointConfigState cs joint ds =
     (case ds of (d, s) \<Rightarrow> rs_Flush (d, s\<lparr>rs_config_state := cs, rs_joint_config := joint\<rparr>))"

definition rs_Clear :: "directory \<times> RaftStorage \<Rightarrow> directory \<times> RaftStorage" where
  "rs_Clear ds = (case ds of (d, s) \<Rightarrow> rs_Flush (d, (rs_new (rs_path s))))"

section \<open>Escaping\<close>

lemma hex_val_hex_digit: "k < 16 \<Longrightarrow> hex_val (hex_digit k) = Some k"
  by (auto simp: hex_digit_def hex_val_def Let_def)

lemma strtol_hex4_escape:
  assumes "n < 256"
  shows "strtol_hex4 [CHR ''0'', CHR ''0'', hex_digit (n div 16), hex_digit (n mod 16)] = Some n"
proof -
  have "n div 16 < 16" "n mod 16 < 16" using assms by auto
  then show ?thesis
    by (simp add: strtol_hex4_def hex_val_hex_digit is_space_def) (simp add: hex_val_def)
qed

lemma unescape_control:
  assumes "0 < n" "n < 32"
  shows "unicode_char [CHR ''0'', CHR ''0'', hex_digit (n div 16), hex_digit (n mod 16)] = [char_of n]"
  using strtol_hex4_escape [of n] assms by (simp add: unicode_char_def)

lemma UnescapeJson_plain: "c \<noteq> CHR 0x5C \<Longrightarrow> UnescapeJson (c # s) = c # UnescapeJson s"
  by (cases s) simp_all

lemma UnescapeJson_escape_char:
  assumes "c \<noteq> CHR 0x00"
  shows "UnescapeJson (escape_char c @ s) = c # UnescapeJson s"
proof -
  have "(of_char c :: nat) \<noteq> of_char (CHR 0x00)" using assms unfolding of_char_eq_iff .
  then have "0 < (of_char c :: nat)" by simp
  then show ?thesis using UnescapeJson_plain [of c s] unescape_control [of "of_char c"]
    by (auto simp: escape_char_def)
qed

lemma UnescapeJson_EscapeJson: "CHR 0x00 \<notin> set s \<Longrightarrow> UnescapeJson (EscapeJson s) = s"
  by (induction s) (auto simp: EscapeJson_def UnescapeJson_escape_char)

section \<open>Reading back what was written\<close>

text \<open>Node identifiers without quotes, backslashes and control characters.\<close>

definition plain_char :: "char \<Rightarrow> bool" where
  "plain_char c \<longleftrightarrow> c \<noteq> CHR 0x22 \<and> c \<noteq> CHR 0x5C \<and> 32 \<le> (of_char c :: nat)"

definition rs_fields :: "string list" where
  "rs_fields = [''current_term'', ''voted_for'', ''config_state'', ''joint_old_voters'', ''joint_new_voters'',
     ''joint_old_version'', ''joint_new_version'']"

definition voter_ok :: "NodeId \<Rightarrow> bool" where
  "voter_ok v \<longleftrightarrow> list_all plain_char v \<and> v \<noteq> [] \<and> CHR '','' \<notin> set v \<and> v \<notin> set rs_fields"

definition rs_ok :: "RaftStorage \<Rightarrow> bool" where
  "rs_ok s \<longleftrightarrow> rs_path s \<noteq> [] \<and> rs_current_term s < 2 ^ 64
     \<and> list_all plain_char (rs_voted_for s) \<and> rs_voted_for s \<notin> set rs_fields
     \<and> list_all voter_ok (voters (old_config (rs_joint_config s)))
     \<and> list_all voter_ok (voters (new_config (rs_joint_config s)))
     \<and> version (old_config (rs_joint_config s)) < 2 ^ 64 \<and> version (new_config (rs_joint_config s)) < 2 ^ 64"

lemma EscapeJson_plain: "list_all plain_char v \<Longrightarrow> EscapeJson v = v"
  by (induction v) (auto simp: EscapeJson_def escape_char_def plain_char_def)

lemma UnescapeJson_plain_all: "list_all plain_char v \<Longrightarrow> UnescapeJson v = v"
  by (induction v) (auto simp: UnescapeJson_plain plain_char_def)

lemma scan_quoted_plain: "list_all plain_char w \<Longrightarrow> scan_quoted False (w @ CHR 0x22 # rest) = Some w"
  by (induction w) (auto simp: plain_char_def)

lemma plain_no_quote: "list_all plain_char w \<Longrightarrow> CHR 0x22 \<notin> set w"
  by (auto simp: list_all_iff plain_char_def)

definition join_commas :: "NodeId list \<Rightarrow> string" where
  "join_commas vs = (case vs of [] \<Rightarrow> [] | v # ws \<Rightarrow> v @ concat (map (\<lambda>w. CHR '','' # w) ws))"

lemma JoinToken_ok: "list_all voter_ok vs \<Longrightarrow> JoinToken vs = join_commas vs"
proof -
  have "foldl (\<lambda>result node. (if result = [] then result else result @ '','') @ EscapeJson node) acc ws
      = acc @ concat (map (\<lambda>w. CHR '','' # w) ws)" if "acc \<noteq> []" "list_all voter_ok ws" for acc ws
    using that by (induction ws arbitrary: acc) (auto simp: EscapeJson_plain voter_ok_def)
  then show "list_all voter_ok vs \<Longrightarrow> JoinToken vs = join_commas vs"
    by (cases vs) (auto simp: JoinToken_def join_commas_def EscapeJson_plain voter_ok_def)
qed

lemma join_commas_plain: "list_all voter_ok vs \<Longrightarrow> list_all plain_char (join_commas vs)"
  by (cases vs) (auto simp: join_commas_def list_all_iff voter_ok_def plain_char_def)

lemma join_commas_not_field:
  assumes "list_all voter_ok vs" and "f \<in> set rs_fields"
  shows "join_commas vs \<noteq> f"
proof (cases vs)
  case Nil
  then show ?thesis using assms(2) by (auto simp: join_commas_def rs_fields_def)
next
  case (Cons v ws)
  show ?thesis
  proof (cases ws)
    case Nil
    then show ?thesis using assms Cons by (auto simp: join_commas_def voter_ok_def)
  next
    case (Cons w us)
    have "CHR '','' \<notin> set f" using assms(2) by (auto simp: rs_fields_def)
    then show ?thesis using \<open>vs = v # ws\<close> Cons by (auto simp: join_commas_def)
  qed
qed

lemma split_voters_join: "list_all voter_ok vs \<Longrightarrow> split_voters (join_commas vs) acc = fold set_insert vs acc"
proof (induction vs arbitrary: acc)
  case Nil
  then show ?case by (simp add: join_commas_def split_voters.simps)
next
  case (Cons v vs)
  have v: "v \<noteq> []" "CHR '','' \<notin> set v" "UnescapeJson v = v"
    using Cons.prems by (auto simp: voter_ok_def UnescapeJson_plain_all)
  show ?case
  proof (cases vs)
    case Nil
    then show ?thesis using v find_sub_absent [of "CHR '',''" v "[]"]
      by (simp add: join_commas_def split_voters.simps [of v])
  next
    case (Cons w us)
    have j: "join_commas (v # vs) = v @ CHR '','' # join_commas vs" by (simp add: join_commas_def Cons)
    have f: "find_sub '','' (v @ CHR '','' # join_commas vs) = Some (length v)"
      using find_sub_first [of "CHR '',''" v "[]" "join_commas vs"] v by simp
    show ?thesis unfolding j split_voters.simps [of "v @ CHR '','' # join_commas vs"]
      using f v Cons.IH Cons.prems by simp
  qed
qed

lemma parse_string_line:
  assumes "name_ok name" "clean_before name pre" "list_all plain_char w"
  shows "parse_string name (json_line (pre @ (name, quote w) # post)) = Some w"
  by (simp add: parse_string_def find_field_line [OF assms(1,2)] quote_def is_blank_def
      scan_quoted_plain [OF assms(3)] UnescapeJson_plain_all [OF assms(3)])

lemma rs_fields_ok: "list_all name_ok rs_fields"
  by (simp add: rs_fields_def name_ok_def)

text \<open>What is read into a fresh storage: everything but the learners of the joint configuration.\<close>

definition rs_readback :: "RaftStorage \<Rightarrow> RaftStorage" where
  "rs_readback s = s\<lparr>rs_joint_config :=
     \<lparr>old_config = \<lparr>version = version (old_config (rs_joint_config s)),
                    voters = fold set_insert (voters (old_config (rs_joint_config s))) [], learners = []\<rparr>,
      new_config = \<lparr>version = version (new_config (rs_joint_config s)),
                    voters = fold set_insert (voters (new_config (rs_joint_config s))) [], learners = []\<rparr>\<rparr>\<rparr>"

lemma rs_roundtrip:
  assumes "rs_ok s"
  shows "rs_Deserialize (rs_Serialize s) (rs_new (rs_path s)) = rs_readback s"
proof -
  let ?cs = "case rs_config_state s of kStable \<Rightarrow> 0 | kJoint \<Rightarrow> (1 :: nat)"
  let ?ov = "voters (old_config (rs_joint_config s))" and ?nv = "voters (new_config (rs_joint_config s))"
  let ?f0 = "(''current_term'', to_string (rs_current_term s))"
  let ?f1 = "(''voted_for'', quote (rs_voted_for s))"
  let ?f2 = "(''config_state'', to_string ?cs)"
  let ?f3 = "(''joint_old_voters'', quote (join_commas ?ov))"
  let ?f4 = "(''joint_new_voters'', quote (join_commas ?nv))"
  let ?f5 = "(''joint_old_version'', to_string (version (old_config (rs_joint_config s))))"
  let ?f6 = "(''joint_new_version'', to_string (version (new_config (rs_joint_config s))))"
  have ok: "list_all plain_char (rs_voted_for s)" "rs_voted_for s \<notin> set rs_fields"
    "list_all voter_ok ?ov" "list_all voter_ok ?nv" using assms by (simp_all add: rs_ok_def)
  have s: "rs_Serialize s = json_line [?f0, ?f1, ?f2, ?f3, ?f4, ?f5, ?f6]"
    using ok by (simp add: rs_Serialize_def json_line_def field_text_def EscapeJson_plain JoinToken_ok)
  have vc: "value_clean f (quote (rs_voted_for s))" "value_clean f (quote (join_commas ?ov))"
    "value_clean f (quote (join_commas ?nv))" if "f \<in> set rs_fields" for f
    using ok that join_commas_not_field [OF _ that] join_commas_plain
    by (auto intro!: value_clean_quote plain_no_quote)
  note vcs = vc [of "''config_state''"] vc [of "''joint_old_voters''"] vc [of "''joint_new_voters''"]
    vc [of "''joint_old_version''"] vc [of "''joint_new_version''"]
  have n: "name_ok ''current_term''" "name_ok ''voted_for''" "name_ok ''config_state''"
    "name_ok ''joint_old_voters''" "name_ok ''joint_new_voters''" "name_ok ''joint_old_version''"
    "name_ok ''joint_new_version''" by (simp_all add: name_ok_def)
  have lt: "?cs < 2 ^ 64" by (simp split: ConfigState.split)
  have p: "parse_uint ''current_term'' (rs_Serialize s) = Some (rs_current_term s)"
    "parse_string ''voted_for'' (rs_Serialize s) = Some (rs_voted_for s)"
    "parse_uint ''config_state'' (rs_Serialize s) = Some ?cs"
    "parse_string ''joint_old_voters'' (rs_Serialize s) = Some (join_commas ?ov)"
    "parse_string ''joint_new_voters'' (rs_Serialize s) = Some (join_commas ?nv)"
    "parse_uint ''joint_old_version'' (rs_Serialize s) = Some (version (old_config (rs_joint_config s)))"
    "parse_uint ''joint_new_version'' (rs_Serialize s) = Some (version (new_config (rs_joint_config s)))"
    unfolding s
    using parse_uint_line [of _ "[]" "rs_current_term s" "[?f1, ?f2, ?f3, ?f4, ?f5, ?f6]", OF n(1)]
      parse_string_line [of _ "[?f0]" "rs_voted_for s" "[?f2, ?f3, ?f4, ?f5, ?f6]", OF n(2)]
      parse_uint_line [of _ "[?f0, ?f1]" ?cs "[?f3, ?f4, ?f5, ?f6]", OF n(3)]
      parse_string_line [of _ "[?f0, ?f1, ?f2]" "join_commas ?ov" "[?f4, ?f5, ?f6]", OF n(4)]
      parse_string_line [of _ "[?f0, ?f1, ?f2, ?f3]" "join_commas ?nv" "[?f5, ?f6]", OF n(5)]
      parse_uint_line [of _ "[?f0, ?f1, ?f2, ?f3, ?f4]" "version (old_config (rs_joint_config s))" "[?f6]", OF n(6)]
      parse_uint_line [of _ "[?f0, ?f1, ?f2, ?f3, ?f4, ?f5]" "version (new_config (rs_joint_config s))" "[]", OF n(7)]
      n vcs ok lt assms join_commas_plain [OF ok(3)] join_commas_plain [OF ok(4)]
    by (simp_all add: rs_fields_def rs_ok_def)
  show ?thesis
    using p ok
    by (cases "rs_config_state s")
      (simp_all add: rs_Deserialize_def parse_voters_def split_voters_join rs_new_def joint_default_def
        config_default_def rs_readback_def Let_def)
qed

lemma rs_Load_Flush:
  assumes "rs_ok s" "rs_Flush (d, s) = (d1, s1)" "power_failure d1 d2"
  shows "rs_Load (d2, rs_new (rs_path s)) = (d2, rs_readback s)"
proof -
  have path: "rs_path s \<noteq> []" using assms(1) by (simp add: rs_ok_def)
  have "ReadFile (rs_path s) d2 = rs_Serialize s"
    using assms(2,3) path by (auto simp: rs_Flush_def intro!: ReadFile_power_failure [of _ _ d])
  moreover have "rs_Serialize s \<noteq> []" by (simp add: rs_Serialize_def)
  moreover have "rs_path (rs_new (rs_path s)) = rs_path s" by (simp add: rs_new_def)
  ultimately show ?thesis using path rs_roundtrip [OF assms(1)] by (simp add: rs_Load_def Let_def)
qed

section \<open>Properties\<close>



end
