(* ===== verification/Raft_Rpc.thy ===== *)
theory Raft_Rpc
  imports Raft_Types
begin

text \<open>
  The requests and responses nodes exchange (\<^verbatim>\<open>server/raft/*_rpc.h\<close>) and the interface of a transport
  (\<^verbatim>\<open>transport.h\<close>). A call on a transport reaches the peer, and whatever else it changes, through the
  world \<open>'w\<close> it is given; it always returns a response, which is the default one when the peer cannot
  be reached.
\<close>

record VoteRequest =
  vq_group_id :: GroupId
  vq_term :: Term
  vq_candidate_id :: NodeId
  vq_last_log_index :: LogIndex
  vq_last_log_term :: Term

record VoteResponse =
  vr_group_id :: GroupId
  vr_term :: Term
  vr_vote_granted :: bool

record AppendEntriesRequest =
  aq_group_id :: GroupId
  aq_term :: Term
  aq_leader_id :: NodeId
  aq_prev_log_index :: LogIndex
  aq_prev_log_term :: Term
  aq_entries :: "LogEntry list"
  aq_leader_commit :: LogIndex

record AppendEntriesResponse =
  ar_group_id :: GroupId
  ar_term :: Term
  ar_success :: bool
  ar_last_log_index :: LogIndex

record HeartbeatRequest =
  hq_group_id :: GroupId
  hq_term :: Term
  hq_leader_id :: NodeId
  hq_leader_commit :: LogIndex

record HeartbeatResponse =
  hr_group_id :: GroupId
  hr_term :: Term
  hr_success :: bool
  hr_last_log_index :: LogIndex

record InstallSnapshotRequest =
  iq_group_id :: GroupId
  iq_term :: Term
  iq_leader_id :: NodeId
  iq_last_included_index :: LogIndex
  iq_last_included_term :: Term
  iq_offset :: nat
  iq_done :: bool
  iq_data :: string

record InstallSnapshotResponse =
  ir_group_id :: GroupId
  ir_term :: Term
  ir_success :: bool

record ReadIndexRequest =
  rq_group_id :: GroupId
  rq_term :: Term
  rq_leader_id :: NodeId
  rq_request_id :: nat

record ReadIndexResponse =
  rr_group_id :: GroupId
  rr_term :: Term
  rr_success :: bool
  rr_commit_index :: LogIndex

record TimeoutNowRequest =
  tq_group_id :: GroupId
  tq_term :: Term
  tq_leader_id :: NodeId

record TimeoutNowResponse =
  tr_group_id :: GroupId
  tr_term :: Term
  tr_accepted :: bool

record 'w Transport =
  SendVoteRequest :: "NodeId \<Rightarrow> VoteRequest \<Rightarrow> 'w \<Rightarrow> VoteResponse \<times> 'w"
  SendHeartbeat :: "NodeId \<Rightarrow> HeartbeatRequest \<Rightarrow> 'w \<Rightarrow> HeartbeatResponse \<times> 'w"
  SendAppendEntries :: "NodeId \<Rightarrow> AppendEntriesRequest \<Rightarrow> 'w \<Rightarrow> AppendEntriesResponse \<times> 'w"
  SendInstallSnapshot :: "NodeId \<Rightarrow> InstallSnapshotRequest \<Rightarrow> 'w \<Rightarrow> InstallSnapshotResponse \<times> 'w"
  SendReadIndex :: "NodeId \<Rightarrow> ReadIndexRequest \<Rightarrow> 'w \<Rightarrow> ReadIndexResponse \<times> 'w"
  SendTimeoutNow :: "NodeId \<Rightarrow> TimeoutNowRequest \<Rightarrow> 'w \<Rightarrow> TimeoutNowResponse \<times> 'w"

end
