(* ===== verification/Snapshot_Files.thy ===== *)
theory Snapshot_Files
  imports Kv_Spec Meta_Files Raft_Rpc
begin

text \<open>
  Snapshots of the key-value store: export and import of a slice
  (\<^verbatim>\<open>server/service/state_serializer.cc\<close>), the binary file (\<^verbatim>\<open>server/raft/snapshot_writer.{h,cc}\<close>),
  \<^verbatim>\<open>SaveSnapshot\<close> and \<^verbatim>\<open>LoadSnapshot\<close> of \<^verbatim>\<open>kv_state_machine.cc\<close>, the validation of a snapshot directory
  (\<^verbatim>\<open>snapshot_loader.{h,cc}\<close>), and the transfer of the file in chunks
  (\<^verbatim>\<open>snapshot_sender.cc\<close>, \<^verbatim>\<open>snapshot_receiver.cc\<close>).
\<close>

section \<open>Export and import\<close>

record SnapshotEntry =
  se_key :: string
  se_value :: string
  se_expire :: ms

definition state_Export :: "DbSlice \<Rightarrow> SnapshotEntry list" where
  "state_Export d =
     concat (map (\<lambda>i. if IsDbValid i d
                       then map (\<lambda>(k, v). \<lparr>se_key = k, se_value = pv_value v, se_expire = pv_expire v\<rparr>) (ds_Traverse i d)
                       else []) [0..<length (ds_dbs d)])"

definition import_entry :: "ms \<Rightarrow> SnapshotEntry \<Rightarrow> DbSlice \<Rightarrow> DbSlice" where
  "import_entry now e d =
     (let (_, d1) = ds_AddOrFind now 0 (se_key e) d;
          t = main_table 0 d1
      in case map_of t (se_key e) of
           None \<Rightarrow> d1
         | Some v \<Rightarrow> put_table 0 (alist_put (se_key e) (v\<lparr>pv_value := se_value e, pv_expire := se_expire e\<rparr>) t) d1)"

definition state_Import :: "ms \<Rightarrow> SnapshotEntry list \<Rightarrow> DbSlice \<Rightarrow> DbSlice" where
  "state_Import now es d = fold (import_entry now) es d"

section \<open>The snapshot file\<close>

definition kSnapshotMagic :: nat where
  "kSnapshotMagic = 0x50414E53"

record SnapshotWriter =
  sw_path :: string
  sw_open :: bool

definition sw_new :: "string \<Rightarrow> SnapshotWriter" where
  "sw_new path = \<lparr>sw_path = path, sw_open = False\<rparr>"

definition sw_tmp :: "SnapshotWriter \<Rightarrow> string" where
  "sw_tmp w = sw_path w @ ''.tmp''"

definition sw_Open :: "directory \<times> SnapshotWriter \<Rightarrow> directory \<times> SnapshotWriter" where
  "sw_Open dw = (case dw of (d, w) \<Rightarrow>
     (fs_append (sw_tmp w) (le_bytes 4 kSnapshotMagic @ le_bytes 4 0) (fs_open_trunc (sw_tmp w) d), w\<lparr>sw_open := True\<rparr>))"

text \<open>Lengths are 32-bit fields, and that many bytes of key and value follow.\<close>

definition snapshot_record :: "SnapshotEntry \<Rightarrow> string" where
  "snapshot_record e =
     (let key_len = length (se_key e) mod 2 ^ 32; value_len = length (se_value e) mod 2 ^ 32
      in le_bytes 4 key_len @ le_bytes 4 value_len @ le_bytes 8 (se_expire e)
         @ take key_len (se_key e) @ take value_len (se_value e))"

definition sw_Add :: "SnapshotEntry \<Rightarrow> directory \<times> SnapshotWriter \<Rightarrow> bool \<times> directory \<times> SnapshotWriter" where
  "sw_Add e dw = (case dw of (d, w) \<Rightarrow>
     if \<not> sw_open w then (False, d, w) else (True, fs_append (sw_tmp w) (snapshot_record e) d, w))"

fun sw_AddBatch :: "SnapshotEntry list \<Rightarrow> directory \<times> SnapshotWriter \<Rightarrow> bool \<times> directory \<times> SnapshotWriter" where
  "sw_AddBatch [] dw = (True, dw)"
| "sw_AddBatch (e # es) dw = (case sw_Add e dw of (ok, dw') \<Rightarrow> if ok then sw_AddBatch es dw' else (False, dw'))"

definition sw_Finalize :: "nat \<Rightarrow> directory \<times> SnapshotWriter \<Rightarrow> bool \<times> directory \<times> SnapshotWriter" where
  "sw_Finalize num dw = (case dw of (d, w) \<Rightarrow>
     if \<not> sw_open w then (False, d, w)
     else (True,
           fs_rename (sw_tmp w) (sw_path w)
             (fs_sync (sw_tmp w) (fs_pwrite (sw_tmp w) 4 (le_bytes 4 (num mod 2 ^ 32)) d)),
           w\<lparr>sw_open := False\<rparr>))"

definition SaveSnapshot :: "string \<Rightarrow> KvState \<Rightarrow> directory \<Rightarrow> bool \<times> directory" where
  "SaveSnapshot path s d =
     (let shard_data = map state_Export (kv_shards s);
          total = sum_list (map length shard_data);
          dw = sw_Open (d, sw_new path);
          (ok, dw1) = sw_AddBatch (concat shard_data) dw
      in if \<not> ok then (False, fst dw1)
         else let (ok2, dw2) = sw_Finalize total dw1 in (ok2, fst dw2))"

text \<open>\<^verbatim>\<open>fread\<close> of \<open>n\<close> bytes: \<open>None\<close> when fewer are left.\<close>

definition fread :: "nat \<Rightarrow> string \<Rightarrow> (string \<times> string) option" where
  "fread n bs = (if length bs < n then None else Some (take n bs, drop n bs))"

definition read_record :: "string \<Rightarrow> (SnapshotEntry \<times> string) option" where
  "read_record bs =
     (case fread 4 bs of None \<Rightarrow> None | Some (kl, b1) \<Rightarrow>
      case fread 4 b1 of None \<Rightarrow> None | Some (vl, b2) \<Rightarrow>
      case fread 8 b2 of None \<Rightarrow> None | Some (ex, b3) \<Rightarrow>
      case fread (le_val kl) b3 of None \<Rightarrow> None | Some (key, b4) \<Rightarrow>
      case fread (le_val vl) b4 of None \<Rightarrow> None | Some (val, b5) \<Rightarrow>
      Some (\<lparr>se_key = key, se_value = val, se_expire = le_val ex\<rparr>, b5))"

definition load_entry :: "KvEnv \<Rightarrow> ms \<Rightarrow> SnapshotEntry \<Rightarrow> KvState \<Rightarrow> KvState" where
  "load_entry env now e s =
     snd (on_shard env (se_key e) (\<lambda>d.
       let (_, d1) = ds_AddOrFind now 0 (se_key e) d;
           d2 = put_table 0 (tbl_assign (se_key e) (se_value e) (main_table 0 d1)) d1
       in ((), if 0 < se_expire e then snd (ds_SetExpire 0 (se_key e) (se_expire e) d2) else d2)) s)"

text \<open>The loop over the announced records: the count of loaded ones and the state.\<close>

fun load_records :: "KvEnv \<Rightarrow> ms \<Rightarrow> nat \<Rightarrow> string \<Rightarrow> nat \<Rightarrow> KvState \<Rightarrow> nat \<times> KvState" where
  "load_records env now 0 bs loaded s = (loaded, s)"
| "load_records env now (Suc n) bs loaded s =
     (case read_record bs of
        None \<Rightarrow> (loaded, s)
      | Some (e, rest) \<Rightarrow>
          if 0 < se_expire e \<and> se_expire e < now then load_records env now n rest loaded s
          else load_records env now n rest (loaded + 1) (load_entry env now e s))"

definition LoadSnapshot :: "KvEnv \<Rightarrow> ms \<Rightarrow> string \<Rightarrow> directory \<Rightarrow> KvState \<Rightarrow> bool \<times> KvState" where
  "LoadSnapshot env now path d s =
     (case fs_read d path of
        None \<Rightarrow> (False, s)
      | Some content \<Rightarrow>
          (case fread 4 content of None \<Rightarrow> (False, s) | Some (magic, b1) \<Rightarrow>
             if le_val magic \<noteq> kSnapshotMagic then (False, s)
             else case fread 4 b1 of None \<Rightarrow> (False, s) | Some (num, b2) \<Rightarrow>
               let (loaded, s') = load_records env now (le_val num) b2 0 s in (loaded = le_val num, s')))"

definition kv_ops :: "KvEnv \<Rightarrow> KvState StateMachineOps" where
  "kv_ops env = \<lparr>sm_ApplyLogEntry = ApplyLogEntry env, sm_SaveSnapshot = SaveSnapshot, sm_LoadSnapshot = LoadSnapshot env\<rparr>"

section \<open>A snapshot directory\<close>

datatype SnapshotLoadStatus = Load_OK | NoSnapshot | Corrupted

record LoadedSnapshot =
  loaded_meta :: SnapshotMeta
  loaded_bin_path :: string

definition with_slash :: "string \<Rightarrow> string" where
  "with_slash dir = (if dir \<noteq> [] \<and> last dir \<noteq> CHR ''/'' then dir @ ''/'' else dir)"

definition ValidateBin :: "string \<Rightarrow> directory \<Rightarrow> bool" where
  "ValidateBin path d =
     (case fs_read d path of
        None \<Rightarrow> False
      | Some content \<Rightarrow>
          content \<noteq> [] \<and> (case fread 4 content of None \<Rightarrow> False | Some (magic, _) \<Rightarrow> le_val magic = kSnapshotMagic))"

definition loader_Load :: "string \<Rightarrow> directory \<Rightarrow> (SnapshotLoadStatus \<times> LoadedSnapshot option) \<times> directory" where
  "loader_Load dir d =
     (let meta_path = with_slash dir @ ''snapshot.meta''; bin_path = with_slash dir @ ''snapshot.bin'' in
      if \<not> fs_exists d meta_path then ((NoSnapshot, None), d)
      else
        let (d1, st) = sms_Load (d, sms_new meta_path); m = sms_meta st in
        if meta_index m = 0 then ((NoSnapshot, None), d1)
        else if meta_term m = 0 then ((Corrupted, None), d1)
        else if \<not> ValidateBin bin_path d1 then ((Corrupted, None), d1)
        else ((Load_OK, Some \<lparr>loaded_meta = m, loaded_bin_path = bin_path\<rparr>), d1))"

section \<open>Transfer in chunks\<close>

definition kChunkSize :: nat where
  "kChunkSize = 65536"

definition chunk_request ::
  "GroupId \<Rightarrow> Term \<Rightarrow> NodeId \<Rightarrow> LogIndex \<Rightarrow> Term \<Rightarrow> nat \<Rightarrow> string \<Rightarrow> string \<Rightarrow> InstallSnapshotRequest" where
  "chunk_request gid t leader li lt offset buf rest =
     \<lparr>iq_group_id = gid, iq_term = t, iq_leader_id = leader, iq_last_included_index = li,
      iq_last_included_term = lt, iq_offset = offset, iq_done = (rest = []), iq_data = buf\<rparr>"

text \<open>The loop of \<^verbatim>\<open>SendSnapshot\<close> over what is left of the file from \<open>offset\<close>.\<close>

function send_chunks ::
  "(InstallSnapshotRequest \<Rightarrow> 'w \<Rightarrow> InstallSnapshotResponse \<times> 'w) \<Rightarrow> GroupId \<Rightarrow> Term \<Rightarrow> NodeId \<Rightarrow> LogIndex \<Rightarrow> Term
     \<Rightarrow> nat \<Rightarrow> string \<Rightarrow> 'w \<Rightarrow> bool \<times> 'w" where
  "send_chunks send gid t leader li lt offset rest w =
     (if rest = [] then (True, w)
      else
        let buf = take kChunkSize rest; rest' = drop kChunkSize rest;
            (rsp, w1) = send (chunk_request gid t leader li lt offset buf rest') w
        in if t < ir_term rsp then (False, w1)
           else if \<not> ir_success rsp then (False, w1)
           else send_chunks send gid t leader li lt (offset + length buf) rest' w1)"
  by pat_completeness auto
termination
  by (relation "measure (\<lambda>(_, _, _, _, _, _, _, rest, _). length rest)") (auto simp: kChunkSize_def)

declare send_chunks.simps [simp del]

definition SendSnapshot ::
  "(InstallSnapshotRequest \<Rightarrow> 'w \<Rightarrow> InstallSnapshotResponse \<times> 'w) \<Rightarrow> string \<Rightarrow> directory \<Rightarrow> GroupId \<Rightarrow> Term \<Rightarrow> NodeId
     \<Rightarrow> LogIndex \<Rightarrow> Term \<Rightarrow> 'w \<Rightarrow> bool \<times> 'w" where
  "SendSnapshot send path d gid t leader li lt w =
     (case fs_read d path of
        None \<Rightarrow> (False, w)
      | Some content \<Rightarrow> send_chunks send gid t leader li lt 0 content w)"

definition recv_tmp :: "string \<Rightarrow> string" where
  "recv_tmp dir = dir @ ''snapshot.recv.tmp''"

definition recv_bin :: "string \<Rightarrow> string" where
  "recv_bin dir = dir @ ''snapshot.bin''"

definition receiver_Init :: "string \<Rightarrow> directory \<Rightarrow> directory" where
  "receiver_Init dir d = fs_unlink (recv_tmp dir) d"

text \<open>The temporary file is opened in append mode, so the bytes land at its end whatever the offset
  (\<^verbatim>\<open>fseek\<close> does not move writes of such a handle).\<close>

definition HandleChunk :: "string \<Rightarrow> InstallSnapshotRequest \<Rightarrow> directory \<Rightarrow> InstallSnapshotResponse \<times> directory" where
  "HandleChunk dir req d =
     (let d1 = fs_append (recv_tmp dir) (iq_data req) (fs_open_append (recv_tmp dir) d);
          d2 = (if iq_done req
                then fs_rename (recv_tmp dir) (recv_bin dir) (fs_sync (recv_tmp dir) d1) else d1)
      in (\<lparr>ir_group_id = 0, ir_term = iq_term req, ir_success = True\<rparr>, d2))"

section \<open>Reading back a snapshot\<close>

definition entry_fits :: "SnapshotEntry \<Rightarrow> bool" where
  "entry_fits e \<longleftrightarrow> length (se_key e) < 2 ^ 32 \<and> length (se_value e) < 2 ^ 32 \<and> se_expire e < 2 ^ 64"

lemma fread_le_bytes [simp]: "fread n (le_bytes n v @ rest) = Some (le_bytes n v, rest)"
  by (simp add: fread_def)

lemma fread_append [simp]: "n = length s \<Longrightarrow> fread n (s @ rest) = Some (s, rest)"
  by (simp add: fread_def)

lemma read_record_snapshot: "entry_fits e \<Longrightarrow> read_record (snapshot_record e @ rest) = Some (e, rest)"
  by (simp add: read_record_def snapshot_record_def entry_fits_def Let_def)

lemma load_records_written:
  assumes "list_all entry_fits es" and "\<forall>e \<in> set es. se_expire e = 0 \<or> now \<le> se_expire e"
  shows "load_records env now (length es) (concat (map snapshot_record es) @ rest) n s
    = (n + length es, fold (load_entry env now) es s)"
  using assms
proof (induction es arbitrary: n s)
  case (Cons e es)
  then have "\<not> (0 < se_expire e \<and> se_expire e < now)" by auto
  then show ?case using Cons by (simp add: read_record_snapshot)
qed simp

lemma load_entry_ApplySet:
  "load_entry env now e s = snd (kv_ApplySet env now 0 (se_key e) (se_value e) False False (se_expire e) s)"
  by (simp add: load_entry_def kv_ApplySet_def on_shard_def Let_def case_prod_beta)

lemma load_entry_refines:
  assumes "kv_inv env s"
  shows "kv_view env (load_entry env now e s)
      = snd (spec_set now (se_key e) (se_value e) False False (se_expire e) (kv_view env s))"
    and "kv_inv env (load_entry env now e s)"
  using kv_ApplySet_refines(2,3) [OF assms prod.collapse [symmetric]] by (simp_all add: load_entry_ApplySet)

definition entry_value :: "SnapshotEntry \<Rightarrow> PrimeValue" where
  "entry_value e = \<lparr>pv_value = se_value e, pv_expire = se_expire e\<rparr>"

text \<open>Loading entries with distinct new keys adds exactly these.\<close>

lemma load_entries_view:
  assumes "kv_inv env s" "distinct (map se_key es)" "\<forall>e \<in> set es. kv_view env s (se_key e) = None"
  shows "kv_inv env (fold (load_entry env now) es s)
    \<and> kv_view env (fold (load_entry env now) es s)
      = kv_view env s ++ map_of (map (\<lambda>e. (se_key e, entry_value e)) es)"
  using assms
proof (induction es arbitrary: s)
  case (Cons e es)
  let ?s = "load_entry env now e s"
  have v: "kv_view env ?s = (kv_view env s)(se_key e \<mapsto> entry_value e)"
    using load_entry_refines(1) [OF Cons.prems(1)] Cons.prems(3)
    by (simp add: spec_set_def spec_add_or_find_def entry_value_def empty_value_def)
  have "\<forall>f \<in> set es. kv_view env ?s (se_key f) = None"
  proof
    fix f assume "f \<in> set es"
    then have "se_key f \<noteq> se_key e" using Cons.prems(2) by (metis distinct.simps(2) image_eqI list.simps(9) set_map)
    then show "kv_view env ?s (se_key f) = None" using Cons.prems(3) \<open>f \<in> set es\<close> by (simp add: v)
  qed
  with Cons.IH [OF load_entry_refines(2) [OF Cons.prems(1)]] Cons.prems(2)
  have ih: "kv_inv env (fold (load_entry env now) es ?s)"
    "kv_view env (fold (load_entry env now) es ?s) = kv_view env ?s ++ map_of (map (\<lambda>e. (se_key e, entry_value e)) es)"
    by auto
  have "se_key e \<notin> se_key ` set es" using Cons.prems(2) by simp
  then have "map_of (map (\<lambda>e. (se_key e, entry_value e)) es) (se_key e) = None"
    by (simp add: map_of_eq_None_iff image_image)
  then show ?case using ih by (auto simp: v map_add_def fun_eq_iff split: option.splits)
qed simp

section \<open>What is written\<close>

definition saved_entries :: "KvState \<Rightarrow> SnapshotEntry list" where
  "saved_entries s = concat (map state_Export (kv_shards s))"

lemma state_Export_slice:
  "slice_ok d \<Longrightarrow>
   state_Export d = map (\<lambda>(k, v). \<lparr>se_key = k, se_value = pv_value v, se_expire = pv_expire v\<rparr>) (main_table 0 d)"
  by (simp add: state_Export_def slice_ok_def ds_Traverse_def)

lemma saved_pairs:
  assumes "kv_inv env s"
  shows "map (\<lambda>e. (se_key e, entry_value e)) (saved_entries s) = concat (map (main_table 0) (kv_shards s))"
proof -
  have "map (\<lambda>e. (se_key e, entry_value e)) (concat (map state_Export ds)) = concat (map (main_table 0) ds)"
    if "list_all slice_ok ds" for ds
    using that by (induction ds) (auto simp: state_Export_slice entry_value_def intro!: map_idI)
  then show ?thesis using assms by (simp add: saved_entries_def kv_inv_def)
qed

lemma distinct_concat_keys:
  assumes "\<forall>i < length ts. distinct (map fst (ts ! i)) \<and> (\<forall>k \<in> fst ` set (ts ! i). f k = i + n)"
  shows "distinct (map fst (concat ts)) \<and> (\<forall>k \<in> fst ` set (concat ts). n \<le> f k)"
  using assms
proof (induction ts arbitrary: n)
  case (Cons t ts)
  have at: "distinct (map fst ((t # ts) ! i)) \<and> (\<forall>k \<in> fst ` set ((t # ts) ! i). f k = i + n)" if "i \<le> length ts" for i
    using Cons.prems that by simp
  have t: "distinct (map fst t)" "\<forall>k \<in> fst ` set t. f k = n" using at [of 0] by simp_all
  have "\<forall>i < length ts. distinct (map fst (ts ! i)) \<and> (\<forall>k \<in> fst ` set (ts ! i). f k = i + Suc n)"
  proof (intro allI impI)
    fix i assume "i < length ts"
    then show "distinct (map fst (ts ! i)) \<and> (\<forall>k \<in> fst ` set (ts ! i). f k = i + Suc n)" using at [of "Suc i"] by simp
  qed
  from Cons.IH [OF this] have "distinct (map fst (concat ts))" "\<forall>k \<in> fst ` set (concat ts). Suc n \<le> f k" by auto
  moreover from this(2) t(2) have "fst ` set t \<inter> fst ` set (concat ts) = {}" by fastforce
  ultimately show ?case using t by (auto simp del: set_concat)
qed simp

lemma tables_owned:
  assumes "kv_inv env s"
  shows "\<forall>i < length (map (main_table 0) (kv_shards s)). distinct (map fst (map (main_table 0) (kv_shards s) ! i))
    \<and> (\<forall>k \<in> fst ` set (map (main_table 0) (kv_shards s) ! i). kv_Shard env k s = i + 0)"
  using assms by (auto simp: kv_inv_def list_all_length slice_ok_def)

lemma distinct_saved:
  assumes "kv_inv env s"
  shows "distinct (map se_key (saved_entries s))"
proof -
  have "distinct (map fst (concat (map (main_table 0) (kv_shards s))))"
    using distinct_concat_keys [OF tables_owned [OF assms]] by blast
  moreover have "map se_key (saved_entries s) = map fst (map (\<lambda>e. (se_key e, entry_value e)) (saved_entries s))" by simp
  ultimately show ?thesis by (simp only: saved_pairs [OF assms])
qed

lemma saved_view:
  assumes "kv_inv env s"
  shows "map_of (map (\<lambda>e. (se_key e, entry_value e)) (saved_entries s)) = kv_view env s"
proof -
  let ?ts = "map (main_table 0) (kv_shards s)"
  have d: "distinct (map fst (concat ?ts))" using distinct_concat_keys [OF tables_owned [OF assms]] by blast
  have "map_of (concat ?ts) k = Some v \<longleftrightarrow> kv_view env s k = Some v" for k v
  proof -
    let ?t = "main_table 0 (kv_shards s ! kv_Shard env k s)"
    have dt: "distinct (map fst ?t)" using kv_inv_slice [OF assms, of k] by (simp add: slice_ok_def)
    have "map_of (concat ?ts) k = Some v \<longleftrightarrow> (\<exists>i < length (kv_shards s). (k, v) \<in> set (main_table 0 (kv_shards s ! i)))"
      by (simp add: map_of_eq_Some_iff [OF d] set_conv_nth [of "kv_shards s"]) blast
    also have "\<dots> \<longleftrightarrow> (k, v) \<in> set ?t"
      using assms kv_Shard_less [OF assms, of k] unfolding kv_inv_def by (metis fst_conv image_eqI)
    also have "\<dots> \<longleftrightarrow> kv_view env s k = Some v" by (simp add: kv_view_def map_of_eq_Some_iff [OF dt])
    finally show ?thesis .
  qed
  then have "map_of (concat ?ts) = kv_view env s" by (metis ext not_None_eq)
  then show ?thesis by (simp add: saved_pairs [OF assms])
qed

lemma sw_AddBatch_open:
  "sw_open w \<Longrightarrow> sw_AddBatch es (d, w) = (True, fold (\<lambda>e. fs_append (sw_tmp w) (snapshot_record e)) es d, w)"
  by (induction es arbitrary: d) (simp_all add: sw_Add_def)

lemma fs_read_fold_append:
  "fs_read (fold (\<lambda>e. fs_append p (f e)) es d) q
     = (if q = p then map_option (\<lambda>c. c @ concat (map f es)) (fs_read d p) else fs_read d q)"
  by (induction es arbitrary: d) (simp_all add: option.map_comp comp_def option.map_ident)

lemma SaveSnapshot_file:
  "SaveSnapshot path s d = (True, snd (SaveSnapshot path s d))"
  "fs_read (snd (SaveSnapshot path s d)) path
     = Some (le_bytes 4 kSnapshotMagic @ le_bytes 4 (length (saved_entries s) mod 2 ^ 32)
             @ concat (map snapshot_record (saved_entries s)))"
proof -
  have len: "sum_list (map length (map state_Export (kv_shards s))) = length (saved_entries s)"
    by (simp add: saved_entries_def length_concat)
  let ?d = "fs_append (path @ ''.tmp'') (le_bytes 4 kSnapshotMagic @ le_bytes 4 0) (fs_open_trunc (path @ ''.tmp'') d)"
  have o: "sw_Open (d, sw_new path) = (?d, \<lparr>sw_path = path, sw_open = True\<rparr>)"
    by (simp add: sw_Open_def sw_new_def sw_tmp_def)
  have t: "sw_tmp \<lparr>sw_path = path, sw_open = True\<rparr> = path @ ''.tmp''" by (simp add: sw_tmp_def)
  have e: "SaveSnapshot path s d = (True, fs_rename (path @ ''.tmp'') path (fs_sync (path @ ''.tmp'')
       (fs_pwrite (path @ ''.tmp'') 4 (le_bytes 4 (length (saved_entries s) mod 2 ^ 32))
         (fold (\<lambda>e. fs_append (path @ ''.tmp'') (snapshot_record e)) (saved_entries s) ?d))))"
    unfolding SaveSnapshot_def Let_def o len
    by (simp add: sw_AddBatch_open t sw_Finalize_def saved_entries_def [symmetric])
  show "SaveSnapshot path s d = (True, snd (SaveSnapshot path s d))" by (simp add: e)
  show "fs_read (snd (SaveSnapshot path s d)) path
     = Some (le_bytes 4 kSnapshotMagic @ le_bytes 4 (length (saved_entries s) mod 2 ^ 32)
             @ concat (map snapshot_record (saved_entries s)))"
    by (simp add: e fs_read_fold_append)
qed

lemma LoadSnapshot_saved:
  assumes "fs_read d path = Some (le_bytes 4 kSnapshotMagic @ le_bytes 4 (length es) @ concat (map snapshot_record es))"
    and "length es < 2 ^ 32" "list_all entry_fits es" "\<forall>e \<in> set es. se_expire e = 0 \<or> now \<le> se_expire e"
  shows "LoadSnapshot env now path d s = (True, fold (load_entry env now) es s)"
  using load_records_written [OF assms(3,4), where env = env and rest = "[]" and n = 0 and s = s] assms(1,2)
  by (simp add: LoadSnapshot_def kSnapshotMagic_def)

lemma LoadSnapshot_SaveSnapshot:
  assumes "length (saved_entries s) < 2 ^ 32" "list_all entry_fits (saved_entries s)"
    and "\<forall>e \<in> set (saved_entries s). se_expire e = 0 \<or> now \<le> se_expire e"
    and "SaveSnapshot path s d = (ok, d')"
  shows "LoadSnapshot env now path d' s0 = (True, fold (load_entry env now) (saved_entries s) s0)"
  using LoadSnapshot_saved [of d' path "saved_entries s" now env s0] SaveSnapshot_file(2) [of path s d] assms
  by simp

section \<open>Transfer\<close>

lemma HandleChunk_read:
  "fst (HandleChunk dir req d) = \<lparr>ir_group_id = 0, ir_term = iq_term req, ir_success = True\<rparr>"
  "\<not> iq_done req \<Longrightarrow> fs_read (snd (HandleChunk dir req d)) (recv_tmp dir)
     = Some ((case fs_read d (recv_tmp dir) of None \<Rightarrow> [] | Some s \<Rightarrow> s) @ iq_data req)"
  "iq_done req \<Longrightarrow> fs_read (snd (HandleChunk dir req d)) (recv_bin dir)
     = Some ((case fs_read d (recv_tmp dir) of None \<Rightarrow> [] | Some s \<Rightarrow> s) @ iq_data req)"
  by (auto simp: HandleChunk_def Let_def recv_tmp_def recv_bin_def split: option.splits)

lemma send_chunks_delivers:
  assumes "rest \<noteq> []"
    and "send_chunks (HandleChunk dir) gid t leader li lt offset rest d = (ok, d')"
  shows "ok \<and> fs_read d' (recv_bin dir) = Some ((case fs_read d (recv_tmp dir) of None \<Rightarrow> [] | Some s \<Rightarrow> s) @ rest)"
  using assms
proof (induction "length rest" arbitrary: rest offset d rule: less_induct)
  case less
  let ?buf = "take kChunkSize rest" and ?rest = "drop kChunkSize rest"
  let ?req = "chunk_request gid t leader li lt offset ?buf ?rest"
  let ?d1 = "snd (HandleChunk dir ?req d)"
  have step: "send_chunks (HandleChunk dir) gid t leader li lt (offset + length ?buf) ?rest ?d1 = (ok, d')"
    using less.prems by (simp add: send_chunks.simps [of _ _ _ _ _ _ offset rest] Let_def case_prod_beta
        HandleChunk_read(1) chunk_request_def)
  show ?case
  proof (cases "?rest = []")
    case True
    then have "ok" "d' = ?d1" using step by (simp_all add: send_chunks.simps [of _ _ _ _ _ _ _ "[]"])
    then show ?thesis using HandleChunk_read(3) [of ?req dir d] True by (simp add: chunk_request_def)
  next
    case False
    have "length ?rest < length rest" using less.prems(1) by (simp add: kChunkSize_def)
    from less.hyps [OF this False step] show ?thesis
      using HandleChunk_read(2) [of ?req dir d] False by (simp add: chunk_request_def)
  qed
qed

text \<open>A store with one key, for examples.\<close>

definition demo_store :: KvState where
  "demo_store = snd (ApplyLogEntry plain_env 5 (mk_entry 1 1 (EncodeRespArray [''SET'', ''k'', ''v''])) (kv_init 2))"

lemma demo_args: "entry_args (EncodeRespArray [''SET'', ''k'', ''v'']) = Some [''SET'', ''k'', ''v'']"
  using entry_args_encode [of "[''SET'', ''k'', ''v'']"]
  by (simp add: EncodeRespArray_def encode_arg_def to_string_eval(1))

lemma demo_inv: "kv_inv plain_env demo_store"
  using kv.entry_inv kv_init_inv by (simp add: demo_store_def)

lemma demo_view: "kv_view plain_env demo_store = [''k'' \<mapsto> \<lparr>pv_value = ''v'', pv_expire = 0\<rparr>]"
  unfolding demo_store_def kv.entry_view [OF kv_init_inv [of 2 plain_env, simplified]]
  by (simp add: kv_init_view spec_apply_def demo_args spec_apply_set_def spec_set_def spec_add_or_find_def
      empty_value_def mk_entry_def)

lemma demo_saved: "saved_entries demo_store = [\<lparr>se_key = ''k'', se_value = ''v'', se_expire = 0\<rparr>]"
  by (simp add: demo_store_def ApplyLogEntry_def demo_args mk_entry_def apply_set_def kv_ApplySet_def on_shard_def
      kv_init_def kv_Shard_def plain_env_def ds_init_def ds_AddOrFind_def on_table_def main_table_def put_table_def
      IsDbValid_def tbl_AddOrFind_def tbl_assign_def alist_put_def alist_del_def empty_value_def saved_entries_def
      state_Export_def ds_Traverse_def numeral_2_eq_2 Let_def)

lemma init_saved: "saved_entries (kv_init 2) = []"
  by (simp add: kv_init_def ds_init_def saved_entries_def state_Export_def ds_Traverse_def main_table_def
      IsDbValid_def numeral_2_eq_2)

section \<open>Properties\<close>

text \<open>C38: saving a store and loading the file into an empty store, with any number of shards and any
  hash, restores every key with its value and expiry time, when no key has expired at the time of the
  load and sizes fit the 32-bit fields of the format.\<close>

theorem snapshot_roundtrip:
  assumes "kv_inv env s" and "length (saved_entries s) < 2 ^ 32" and "list_all entry_fits (saved_entries s)"
    and "\<forall>e \<in> set (saved_entries s). se_expire e = 0 \<or> now \<le> se_expire e"
    and "SaveSnapshot path s d = (ok, d')" and "0 < n" "n < 2 ^ 16"
    and "LoadSnapshot env' now path d' (kv_init n) = (ok', s')"
  shows "ok \<and> ok' \<and> kv_view env' s' = kv_view env s \<and> kv_inv env' s'"
proof -
  have l: "ok'" "s' = fold (load_entry env' now) (saved_entries s) (kv_init n)"
    using LoadSnapshot_SaveSnapshot [OF assms(2-5)] assms(8) by auto
  have "ok" using SaveSnapshot_file(1) [of path s d] assms(5) by simp
  then show ?thesis
    using l load_entries_view [OF kv_init_inv [OF assms(6,7)] distinct_saved [OF assms(1)]]
      saved_view [OF assms(1)] by (simp add: kv_init_view [OF assms(6,7)])
qed

theorem snapshot_roundtrip_witness:
  "let d = snd (SaveSnapshot ''snapshot.bin'' demo_store [])
   in kv_view plain_env (snd (LoadSnapshot plain_env 7 ''snapshot.bin'' d (kv_init 3))) ''k''
      = Some \<lparr>pv_value = ''v'', pv_expire = 0\<rparr>"
  using snapshot_roundtrip [OF demo_inv, of 7 "''snapshot.bin''" "[]",
      OF _ _ _ prod.collapse [symmetric] _ _ prod.collapse [symmetric], of 3 plain_env]
  by (simp add: demo_saved demo_view entry_fits_def Let_def)

text \<open>C39: loading a snapshot keeps the keys that were there: a key that the snapshot does not contain has
  the same value after a successful load as before it.\<close>

theorem LoadSnapshot_keeps_old_keys:
  assumes "kv_inv env s0" and "length (saved_entries s) < 2 ^ 32" and "list_all entry_fits (saved_entries s)"
    and "\<forall>e \<in> set (saved_entries s). se_expire e = 0 \<or> now \<le> se_expire e"
    and "SaveSnapshot path s d = (ok, d')" and "k \<notin> se_key ` set (saved_entries s)"
    and "LoadSnapshot env now path d' s0 = (ok', s')"
  shows "ok' \<and> kv_view env s' k = kv_view env s0 k"
proof -
  have l: "ok'" "s' = fold (load_entry env now) (saved_entries s) s0"
    using LoadSnapshot_SaveSnapshot [OF assms(2-5)] assms(7) by auto
  have "kv_view env (fold (load_entry env now) es s0) k = kv_view env s0 k"
    if "k \<notin> se_key ` set es" "kv_inv env s0" for es
    using that
  proof (induction es arbitrary: s0)
    case (Cons e es)
    have "kv_view env (load_entry env now e s0) k = kv_view env s0 k"
      using load_entry_refines(1) [OF Cons.prems(2), of now e] Cons.prems(1)
        local_specs(1) [of "se_key e" now "se_value e" False False "se_expire e"]
      unfolding local_at_def by auto
    then show ?case using Cons.IH [OF _ load_entry_refines(2) [OF Cons.prems(2)]] Cons.prems(1) by simp
  qed simp
  then show ?thesis using l assms(1,6) by blast
qed

theorem LoadSnapshot_keeps_old_keys_witness:
  "let d = snd (SaveSnapshot ''snapshot.bin'' (kv_init 2) []);
       r = LoadSnapshot plain_env 7 ''snapshot.bin'' d demo_store
   in fst r \<and> kv_view plain_env (snd r) ''k'' = Some \<lparr>pv_value = ''v'', pv_expire = 0\<rparr>"
  using LoadSnapshot_keeps_old_keys [OF demo_inv, of "kv_init 2" 7 "''snapshot.bin''" "[]",
      OF _ _ _ prod.collapse [symmetric] _ prod.collapse [symmetric], of "''k''"]
  by (simp add: init_saved demo_view Let_def)

text \<open>C40: the chunked transfer of a non-empty snapshot file to a receiver appends the file to whatever the
  receiver's temporary file already held, and installs the concatenation as the received snapshot. A clean
  receiver gets exactly the file.\<close>

theorem snapshot_transfer_installs:
  assumes "fs_read d path = Some content" and "content \<noteq> []"
    and "SendSnapshot (HandleChunk dir) path d gid t leader li lt r = (ok, r')"
  shows "ok \<and> fs_read r' (recv_bin dir)
    = Some ((case fs_read r (recv_tmp dir) of None \<Rightarrow> [] | Some left \<Rightarrow> left) @ content)"
  using send_chunks_delivers [OF assms(2), of dir gid t leader li lt 0 r ok r'] assms by (simp add: SendSnapshot_def)

theorem snapshot_transfer_installs_witness:
  "let junk = [(recv_tmp ''d/'', \<lparr>f_data = ''old'', f_synced = 0\<rparr>)];
       src = [(''s'', \<lparr>f_data = ''new'', f_synced = 0\<rparr>)]
   in fs_read (snd (SendSnapshot (HandleChunk ''d/'') ''s'' src 0 1 ''n1'' 5 1 junk)) (recv_bin ''d/'') = Some ''oldnew''
      \<and> fs_read (snd (SendSnapshot (HandleChunk ''d/'') ''s'' src 0 1 ''n1'' 5 1 [])) (recv_bin ''d/'') = Some ''new''"
  using snapshot_transfer_installs [OF _ _ prod.collapse [symmetric], of "[(''s'', \<lparr>f_data = ''new'', f_synced = 0\<rparr>)]" "''s''" "''new''" "''d/''" 0 1 "''n1''" 5 1 "[(recv_tmp ''d/'', \<lparr>f_data = ''old'', f_synced = 0\<rparr>)]"]
    snapshot_transfer_installs [OF _ _ prod.collapse [symmetric], of "[(''s'', \<lparr>f_data = ''new'', f_synced = 0\<rparr>)]" "''s''" "''new''" "''d/''" 0 1 "''n1''" 5 1 "[]"]
  by (simp add: fs_read_def Let_def)

end
