(* ===== verification/Election_Timer.thy ===== *)
theory Election_Timer
  imports Raft_Types
begin

text \<open>
  The election timer, \<^verbatim>\<open>server/raft/election_timer.{h,cc}\<close>: a fiber that sleeps for a random time and
  fires its callback unless the timer was reset meanwhile. The fiber's loop is a step relation over what
  it reads and does between two sleeps; the random number generator and the passing of time decide which
  step is taken, so they do not appear.
\<close>

record ElectionTimer =
  et_fiber :: bool
  et_shutdown :: bool
  et_active :: bool
  et_epoch :: nat

definition et_new :: ElectionTimer where
  "et_new = \<lparr>et_fiber = False, et_shutdown = False, et_active = False, et_epoch = 0\<rparr>"

definition et_Start :: "ElectionTimer \<Rightarrow> ElectionTimer" where
  "et_Start t =
     (if et_fiber t then t else \<lparr>et_fiber = True, et_shutdown = False, et_active = True, et_epoch = 1\<rparr>)"

definition et_Reset :: "ElectionTimer \<Rightarrow> ElectionTimer" where
  "et_Reset t = t\<lparr>et_active := True, et_epoch := et_epoch t + 1\<rparr>"

text \<open>\<^verbatim>\<open>Stop\<close> from outside the timer fiber: it returns when the fiber has ended.\<close>

definition et_Stop :: "ElectionTimer \<Rightarrow> ElectionTimer" where
  "et_Stop t = t\<lparr>et_active := False, et_shutdown := True, et_epoch := et_epoch t + 1, et_fiber := False\<rparr>"

definition et_Deactivate :: "ElectionTimer \<Rightarrow> ElectionTimer" where
  "et_Deactivate t = t\<lparr>et_active := False, et_epoch := et_epoch t + 1\<rparr>"

definition et_IsRunning :: "ElectionTimer \<Rightarrow> bool" where
  "et_IsRunning t = et_fiber t"

definition et_IsActive :: "ElectionTimer \<Rightarrow> bool" where
  "et_IsActive t = et_active t"

text \<open>The loop: at its head, asleep with the saved epoch, at the point where the callback is called, or
  ended.\<close>

datatype TimerPc = Loop_head | Sleeping nat | Firing | Ended

inductive timer_run :: "ElectionTimer \<times> TimerPc \<Rightarrow> ElectionTimer \<times> TimerPc \<Rightarrow> bool" where
  run_exit: "et_shutdown t \<Longrightarrow> timer_run (t, Loop_head) (t, Ended)"
| run_idle: "\<not> et_shutdown t \<Longrightarrow> \<not> et_active t \<Longrightarrow> timer_run (t, Loop_head) (t, Loop_head)"
| run_sleep: "\<not> et_shutdown t \<Longrightarrow> et_active t \<Longrightarrow> timer_run (t, Loop_head) (t, Sleeping (et_epoch t))"
| run_break: "et_shutdown t \<Longrightarrow> timer_run (t, Sleeping e) (t, Ended)"
| run_again: "\<not> et_shutdown t \<Longrightarrow> et_epoch t \<noteq> e \<Longrightarrow> timer_run (t, Sleeping e) (t, Loop_head)"
| run_fire: "\<not> et_shutdown t \<Longrightarrow> et_epoch t = e \<Longrightarrow> timer_run (t, Sleeping e) (t\<lparr>et_active := False\<rparr>, Firing)"
| run_called: "timer_run (t, Firing) (t, Loop_head)"

text \<open>Between two steps of the fiber, the node may reset, deactivate or stop the timer.\<close>

inductive timer_env :: "ElectionTimer \<Rightarrow> ElectionTimer \<Rightarrow> bool" where
  env_reset: "timer_env t (et_Reset t)"
| env_deactivate: "timer_env t (et_Deactivate t)"
| env_stop: "timer_env t (et_Stop t)"

inductive timer_reach :: "ElectionTimer \<times> TimerPc \<Rightarrow> ElectionTimer \<times> TimerPc \<Rightarrow> bool" where
  reach_refl: "timer_reach s s"
| reach_run: "timer_reach s s' \<Longrightarrow> timer_run s' s'' \<Longrightarrow> timer_reach s s''"
| reach_env: "timer_reach s (t, pc) \<Longrightarrow> timer_env t t' \<Longrightarrow> timer_reach s (t', pc)"

inductive_cases timer_runE [elim]: "timer_run s s'"
inductive_cases timer_envE [elim]: "timer_env t t'"

lemma timer_env_epoch: "timer_env t t' \<Longrightarrow> et_epoch t < et_epoch t'"
  by (auto simp: et_Reset_def et_Deactivate_def et_Stop_def)

text \<open>A sleeper that would still fire has seen no call since it fell asleep.\<close>

definition timer_inv :: "ElectionTimer \<times> TimerPc \<Rightarrow> bool" where
  "timer_inv s \<longleftrightarrow> (case s of
     (t, Sleeping e) \<Rightarrow> e \<le> et_epoch t \<and> (e = et_epoch t \<longrightarrow> et_active t)
   | _ \<Rightarrow> True)"

lemma timer_run_inv: "timer_run s s' \<Longrightarrow> timer_inv s \<Longrightarrow> timer_inv s'"
  by (erule timer_runE) (auto simp: timer_inv_def)

lemma timer_env_inv: "timer_env t t' \<Longrightarrow> timer_inv (t, pc) \<Longrightarrow> timer_inv (t', pc)"
  by (cases pc) (auto simp: timer_inv_def et_Reset_def et_Deactivate_def et_Stop_def)

lemma timer_reach_inv: "timer_reach s s' \<Longrightarrow> timer_inv s \<Longrightarrow> timer_inv s'"
  by (induction rule: timer_reach.induct) (blast intro: timer_run_inv timer_env_inv)+

end
