(* ===== verification/Raft_Node.thy ===== *)
theory Raft_Node
  imports Log_Store Raft_Storage Snapshot_Files Election_Timer
begin

text \<open>
  A consensus node, \<^verbatim>\<open>server/raft/raft_node.{h,cc}\<close>, with the snapshot driver it calls
  (\<^verbatim>\<open>server/raft/snapshot_manager.cc\<close>).

  The members of the class are the fields of \<open>RaftNode\<close>; pointers that may be null are options, and
  the files under the storage path are in \<open>rn_disk\<close>. A function is one locked section of the code, or a
  method made of such sections with calls on a transport in between: methods that send messages are
  split where the code releases the lock, \<open>..._begin\<close> captures the requests, \<open>..._poll\<close> or \<open>send_...\<close> is
  the unlocked part, \<open>..._finish\<close> handles the responses. The composed method runs the parts with nothing
  in between; interleavings are built from the parts.

  \<open>M\<close> is the state machine, \<open>clk\<close> the reading of the monotonic and of the wall clock (one per method).
  Terms and indexes are natural numbers: they are 64-bit counters that grow by one.
\<close>

record Clock =
  steady_ms :: ms
  wall_ms :: ms

definition kMaxAppendBatch :: nat where
  "kMaxAppendBatch = 128"

definition kWaitForAppliedTimeoutMs :: ms where
  "kWaitForAppliedTimeoutMs = 5000"

section \<open>State\<close>

record PeerArrays =
  pa_ids :: "NodeId list"
  pa_next :: "LogIndex list"
  pa_last :: "LogIndex list"
  pa_hb_ok :: "bool list"

record Heartbeat =
  hb_stop :: bool
  hb_epoch :: nat
  hb_fiber :: bool
  hb_interval :: ms

record SnapshotManager =
  mgr_dir :: string
  mgr_meta :: SnapshotMetaStorage
  mgr_log_gap :: nat
  mgr_has_sm :: bool
  mgr_has_log :: bool

record 'sm RaftNode =
  rn_node_id :: NodeId
  rn_group_id :: GroupId
  rn_role :: RaftRole
  rn_storage :: RaftStorage
  rn_apply_progress :: ApplyProgress
  rn_disk :: directory
  rn_config :: ClusterConfig
  rn_config_state :: ConfigState
  rn_joint :: JointConfig
  rn_joint_entry_index :: LogIndex
  rn_joint_finalize_appended :: bool
  rn_leader_term :: Term
  rn_vote_count :: nat
  rn_old_votes :: nat
  rn_new_votes :: nat
  rn_log :: "LogStore option"
  rn_sm :: "'sm option"
  rn_receiver :: "string option"
  rn_snapshot_manager :: "SnapshotManager option"
  rn_transport :: bool
  rn_commit_index :: LogIndex
  rn_last_applied :: LogIndex
  rn_last_snapshot_index :: LogIndex
  rn_last_snapshot_term :: Term
  rn_snapshot_dir :: string
  rn_peers :: PeerArrays
  rn_lease_expire :: ms
  rn_lease_ms :: ms
  rn_last_majority_ack :: ms
  rn_check_quorum :: ms
  rn_meta_flush_interval :: ms
  rn_last_meta_flush :: ms
  rn_next_read_id :: nat
  rn_transfer :: LeaderTransferContext
  rn_transfer_timeout :: ms
  rn_group_active :: bool
  rn_group_waiters :: "LogIndex list"
  rn_heartbeat :: Heartbeat
  rn_timer :: ElectionTimer
  rn_election_started :: bool
  rn_shutdown :: bool
  rn_crashed :: bool

definition rn_new :: "NodeId \<Rightarrow> 'sm RaftNode" where
  "rn_new node =
     \<lparr>rn_node_id = node, rn_group_id = 0, rn_role = Follower, rn_storage = rs_new [],
      rn_apply_progress = ap_new [], rn_disk = [], rn_config = config_default, rn_config_state = kStable,
      rn_joint = joint_default, rn_joint_entry_index = 0, rn_joint_finalize_appended = False,
      rn_leader_term = 0, rn_vote_count = 0, rn_old_votes = 0, rn_new_votes = 0, rn_log = None,
      rn_sm = None, rn_receiver = None, rn_snapshot_manager = None, rn_transport = False,
      rn_commit_index = 0, rn_last_applied = 0, rn_last_snapshot_index = 0, rn_last_snapshot_term = 0,
      rn_snapshot_dir = [], rn_peers = \<lparr>pa_ids = [], pa_next = [], pa_last = [], pa_hb_ok = []\<rparr>,
      rn_lease_expire = 0, rn_lease_ms = 100, rn_last_majority_ack = 0, rn_check_quorum = 600,
      rn_meta_flush_interval = 0, rn_last_meta_flush = 0, rn_next_read_id = 0,
      rn_transfer = \<lparr>xfer_target = [], xfer_state = kNone, xfer_start_ms = 0\<rparr>, rn_transfer_timeout = 3000,
      rn_group_active = False, rn_group_waiters = [],
      rn_heartbeat = \<lparr>hb_stop = True, hb_epoch = 0, hb_fiber = False, hb_interval = 50\<rparr>,
      rn_timer = et_new, rn_election_started = False, rn_shutdown = False, rn_crashed = False\<rparr>"

abbreviation term_of :: "'sm RaftNode \<Rightarrow> Term" where
  "term_of n \<equiv> rs_current_term (rn_storage n)"

abbreviation vote_of :: "'sm RaftNode \<Rightarrow> NodeId" where
  "vote_of n \<equiv> rs_voted_for (rn_storage n)"

definition on_storage ::
  "(directory \<times> RaftStorage \<Rightarrow> directory \<times> RaftStorage) \<Rightarrow> 'sm RaftNode \<Rightarrow> 'sm RaftNode" where
  "on_storage f n = (case f (rn_disk n, rn_storage n) of (d, s) \<Rightarrow> n\<lparr>rn_disk := d, rn_storage := s\<rparr>)"

definition on_progress ::
  "(directory \<times> ApplyProgress \<Rightarrow> directory \<times> ApplyProgress) \<Rightarrow> 'sm RaftNode \<Rightarrow> 'sm RaftNode" where
  "on_progress f n = (case f (rn_disk n, rn_apply_progress n) of (d, a) \<Rightarrow> n\<lparr>rn_disk := d, rn_apply_progress := a\<rparr>)"

definition on_log :: "(LogStore \<Rightarrow> LogStore) \<Rightarrow> 'sm RaftNode \<Rightarrow> 'sm RaftNode" where
  "on_log f n = n\<lparr>rn_log := map_option f (rn_log n)\<rparr>"

definition append_log :: "LogEntry \<Rightarrow> bool \<Rightarrow> 'sm RaftNode \<Rightarrow> 'sm RaftNode" where
  "append_log e flush n = on_log (\<lambda>l. snd (ls_Append e flush l)) n"

text \<open>\<^verbatim>\<open>log_storage_ ? log_storage_->LastIndex() : 0\<close>, and the same for the term.\<close>

definition log_last :: "'sm RaftNode \<Rightarrow> LogIndex" where
  "log_last n = (case rn_log n of None \<Rightarrow> 0 | Some l \<Rightarrow> ls_LastIndex l)"

definition log_last_term :: "'sm RaftNode \<Rightarrow> Term" where
  "log_last_term n = (case rn_log n of None \<Rightarrow> 0 | Some l \<Rightarrow> ls_LastTerm l)"

section \<open>Configuration\<close>

definition pm_AddPeer :: "NodeId \<Rightarrow> ClusterConfig option \<Rightarrow> ClusterConfig option" where
  "pm_AddPeer node c = map_option (\<lambda>c. c\<lparr>voters := set_insert node (voters c)\<rparr>) c"

definition pm_RemovePeer :: "NodeId \<Rightarrow> ClusterConfig option \<Rightarrow> bool \<times> ClusterConfig option" where
  "pm_RemovePeer node c =
     (case c of None \<Rightarrow> (False, None)
      | Some c \<Rightarrow> (node \<in> set (voters c), Some (c\<lparr>voters := set_erase node (voters c)\<rparr>)))"

definition pm_HasPeer :: "NodeId \<Rightarrow> ClusterConfig option \<Rightarrow> bool" where
  "pm_HasPeer node c = (case c of None \<Rightarrow> False | Some c \<Rightarrow> node \<in> set (voters c))"

definition pm_PeerCount :: "ClusterConfig option \<Rightarrow> nat" where
  "pm_PeerCount c = (case c of None \<Rightarrow> 0 | Some c \<Rightarrow> length (voters c))"

definition pm_ClusterSize :: "ClusterConfig option \<Rightarrow> nat" where
  "pm_ClusterSize c = pm_PeerCount c + 1"

definition pm_GetPeerIds :: "ClusterConfig option \<Rightarrow> NodeId list" where
  "pm_GetPeerIds c = (case c of None \<Rightarrow> [] | Some c \<Rightarrow> voters c)"

definition SetNodeId :: "NodeId \<Rightarrow> 'sm RaftNode \<Rightarrow> 'sm RaftNode" where
  "SetNodeId node n = n\<lparr>rn_node_id := node\<rparr>"

definition SetConfigState :: "ConfigState \<Rightarrow> 'sm RaftNode \<Rightarrow> 'sm RaftNode" where
  "SetConfigState st n = n\<lparr>rn_config_state := st\<rparr>"

definition SetClusterConfig :: "ClusterConfig \<Rightarrow> 'sm RaftNode \<Rightarrow> 'sm RaftNode" where
  "SetClusterConfig c n = n\<lparr>rn_config := c\<rparr>"

definition AddPeer :: "NodeId \<Rightarrow> 'sm RaftNode \<Rightarrow> 'sm RaftNode" where
  "AddPeer node n = n\<lparr>rn_config := (rn_config n)\<lparr>voters := set_insert node (voters (rn_config n))\<rparr>\<rparr>"

definition RemovePeer :: "NodeId \<Rightarrow> 'sm RaftNode \<Rightarrow> bool \<times> 'sm RaftNode" where
  "RemovePeer node n =
     (node \<in> set (voters (rn_config n)),
      n\<lparr>rn_config := (rn_config n)\<lparr>voters := set_erase node (voters (rn_config n))\<rparr>\<rparr>)"

definition ForceCommitIndex :: "LogIndex \<Rightarrow> 'sm RaftNode \<Rightarrow> 'sm RaftNode" where
  "ForceCommitIndex ci n = n\<lparr>rn_commit_index := ci\<rparr>"

definition SetSnapshotDir :: "string \<Rightarrow> 'sm RaftNode \<Rightarrow> 'sm RaftNode" where
  "SetSnapshotDir dir n = n\<lparr>rn_snapshot_dir := dir\<rparr>"

definition SetApplyMetaFlushInterval :: "ms \<Rightarrow> 'sm RaftNode \<Rightarrow> 'sm RaftNode" where
  "SetApplyMetaFlushInterval i n = n\<lparr>rn_meta_flush_interval := i\<rparr>"

definition GetPeerIds :: "'sm RaftNode \<Rightarrow> NodeId list" where
  "GetPeerIds n =
     (if rn_config_state n = kJoint
      then set_erase (rn_node_id n)
             (fold set_insert (voters (new_config (rn_joint n)))
               (fold set_insert (voters (old_config (rn_joint n))) []))
      else filter (\<lambda>v. v \<noteq> rn_node_id n) (voters (rn_config n)))"

definition vec_resize :: "nat \<Rightarrow> 'a \<Rightarrow> 'a list \<Rightarrow> 'a list" where
  "vec_resize k x xs = take k xs @ replicate (k - length xs) x"

definition ResizePeerArrays :: "nat \<Rightarrow> 'sm RaftNode \<Rightarrow> 'sm RaftNode" where
  "ResizePeerArrays k n =
     (let p = rn_peers n;
          fresh = (case rn_log n of None \<Rightarrow> 1 | Some l \<Rightarrow> ls_LastIndex l + 1)
      in n\<lparr>rn_peers := p\<lparr>pa_next := map (\<lambda>x. if x = 0 then fresh else x) (vec_resize k 0 (pa_next p)),
                        pa_last := vec_resize k 0 (pa_last p),
                        pa_hb_ok := vec_resize k True (pa_hb_ok p)\<rparr>\<rparr>)"

definition config_entry :: "Term \<Rightarrow> ClusterConfig \<Rightarrow> LogEntry" where
  "config_entry t target = mk_entry t 0 (cc_Serialize \<lparr>cc_target = target\<rparr>)"

definition BeginConfigChange :: "ClusterConfig \<Rightarrow> 'sm RaftNode \<Rightarrow> bool \<times> 'sm RaftNode" where
  "BeginConfigChange target n =
     (if rn_role n \<noteq> Leader \<or> rn_log n = None then (False, n)
      else if rn_config_state n = kJoint then
        if \<not> config_equiv target (new_config (rn_joint n)) then (False, n)
        else (True, (append_log (config_entry (term_of n) target) True n)\<lparr>rn_joint_finalize_appended := True\<rparr>)
      else
        let n1 = n\<lparr>rn_joint := \<lparr>old_config = rn_config n, new_config = target\<rparr>\<rparr>
        in (True, append_log (config_entry (term_of n1) target) True n1))"

section \<open>Roles\<close>

definition StopHeartbeat :: "'sm RaftNode \<Rightarrow> 'sm RaftNode" where
  "StopHeartbeat n = n\<lparr>rn_heartbeat := (rn_heartbeat n)\<lparr>hb_stop := True\<rparr>\<rparr>"

definition StartHeartbeat :: "ms \<Rightarrow> 'sm RaftNode \<Rightarrow> 'sm RaftNode" where
  "StartHeartbeat interval n =
     n\<lparr>rn_heartbeat := \<lparr>hb_stop = False, hb_epoch = hb_epoch (rn_heartbeat n) + 1, hb_fiber = True,
                       hb_interval = interval\<rparr>\<rparr>"

definition JoinHeartbeat :: "'sm RaftNode \<Rightarrow> 'sm RaftNode" where
  "JoinHeartbeat n = n\<lparr>rn_heartbeat := (rn_heartbeat n)\<lparr>hb_fiber := False\<rparr>\<rparr>"

definition CancelTransfer :: "'sm RaftNode \<Rightarrow> 'sm RaftNode" where
  "CancelTransfer n = (if IsActive (rn_transfer n) then n\<lparr>rn_transfer := transfer_Reset\<rparr> else n)"

definition SetRoleLocked :: "RaftRole \<Rightarrow> 'sm RaftNode \<Rightarrow> 'sm RaftNode" where
  "SetRoleLocked new_role n0 =
     (let n = n0\<lparr>rn_role := new_role\<rparr> in
      case new_role of
        Follower \<Rightarrow>
          let n1 = CancelTransfer (n\<lparr>rn_leader_term := 0, rn_vote_count := 0\<rparr>);
              n2 = (if \<not> rn_shutdown n1 then
                      let n3 = (if rn_election_started n1 then n1
                                else n1\<lparr>rn_election_started := True, rn_timer := et_Start (rn_timer n1)\<rparr>)
                      in n3\<lparr>rn_timer := et_Reset (rn_timer n3)\<rparr>
                    else n1\<lparr>rn_timer := et_Stop (rn_timer n1)\<rparr>)
          in StopHeartbeat n2
      | Candidate \<Rightarrow>
          let n1 = CancelTransfer (n\<lparr>rn_vote_count := 1\<rparr>)
          in StopHeartbeat (n1\<lparr>rn_timer := et_Deactivate (rn_timer n1)\<rparr>)
      | Leader \<Rightarrow>
          let n1 = n\<lparr>rn_leader_term := term_of n, rn_timer := et_Deactivate (rn_timer n)\<rparr>;
              n2 = StopHeartbeat (CancelTransfer n1)
          in if \<not> rn_shutdown n2 then StartHeartbeat (hb_interval (rn_heartbeat n2)) n2 else n2)"

definition BecomeFollower :: "Term \<Rightarrow> 'sm RaftNode \<Rightarrow> 'sm RaftNode" where
  "BecomeFollower t n =
     SetRoleLocked Follower (if term_of n < t then on_storage (rs_SetState t []) n else n)"

definition BecomeCandidateNewTerm :: "'sm RaftNode \<Rightarrow> 'sm RaftNode" where
  "BecomeCandidateNewTerm n = SetRoleLocked Candidate (on_storage (rs_SetState (term_of n + 1) (rn_node_id n)) n)"

definition BecomeCandidate :: "'sm RaftNode \<Rightarrow> 'sm RaftNode" where
  "BecomeCandidate n =
     (if rn_role n = Candidate then n
      else SetRoleLocked Candidate (on_storage (rs_SetState (term_of n + 1) (rn_node_id n)) n))"

definition BecomeLeaderInitPeers :: "'sm RaftNode \<Rightarrow> 'sm RaftNode" where
  "BecomeLeaderInitPeers n =
     (let peers = GetPeerIds n; k = length peers;
          init_next = (case rn_log n of None \<Rightarrow> 0 | Some l \<Rightarrow> ls_LastIndex l + 1)
      in n\<lparr>rn_peers := (rn_peers n)\<lparr>pa_ids := peers, pa_next := replicate k init_next, pa_last := replicate k 0\<rparr>\<rparr>)"

definition BecomeLeader :: "Clock \<Rightarrow> 'sm RaftNode \<Rightarrow> 'sm RaftNode" where
  "BecomeLeader clk n =
     (BecomeLeaderInitPeers (SetRoleLocked Leader n))\<lparr>rn_last_majority_ack := steady_ms clk\<rparr>"

definition SetRole :: "Clock \<Rightarrow> RaftRole \<Rightarrow> 'sm RaftNode \<Rightarrow> 'sm RaftNode" where
  "SetRole clk new_role n =
     (if new_role = rn_role n then n
      else case new_role of
        Follower \<Rightarrow> (let n1 = SetRoleLocked Follower n in on_storage (rs_SetState (term_of n1) []) n1)
      | Candidate \<Rightarrow> BecomeCandidate n
      | Leader \<Rightarrow> BecomeLeader clk (BecomeCandidate n))"

definition BootstrapSingleNode :: "Clock \<Rightarrow> 'sm RaftNode \<Rightarrow> bool \<times> 'sm RaftNode" where
  "BootstrapSingleNode clk n =
     (if rn_role n = Leader then (True, n)
      else if GetPeerIds n \<noteq> [] then (False, n)
      else (True, BecomeLeader clk (BecomeCandidate n)))"

definition OnElectionTimeout :: "'sm RaftNode \<Rightarrow> 'sm RaftNode" where
  "OnElectionTimeout n =
     (if rn_shutdown n then n else if rn_role n \<noteq> Follower then n else BecomeCandidate n)"

text \<open>The parts of \<^verbatim>\<open>Shutdown\<close> that act on the node; the wait for running handlers (\<^verbatim>\<open>RpcGuard\<close>) is left out.\<close>

definition Shutdown :: "'sm RaftNode \<Rightarrow> 'sm RaftNode" where
  "Shutdown n0 =
     (let n = JoinHeartbeat (StopHeartbeat (n0\<lparr>rn_shutdown := True, rn_transport := False\<rparr>))
      in n\<lparr>rn_timer := et_Stop (rn_timer n)\<rparr>)"

section \<open>Elections\<close>

definition vote_rsp :: "'sm RaftNode \<Rightarrow> bool \<Rightarrow> VoteResponse" where
  "vote_rsp n granted = \<lparr>vr_group_id = rn_group_id n, vr_term = term_of n, vr_vote_granted = granted\<rparr>"

definition OnRequestVote :: "VoteRequest \<Rightarrow> 'sm RaftNode \<Rightarrow> VoteResponse \<times> 'sm RaftNode" where
  "OnRequestVote req n0 =
     (if vq_term req < term_of n0 then (vote_rsp n0 False, n0)
      else
        let n = (if term_of n0 < vq_term req then BecomeFollower (vq_term req) n0 else n0) in
        if vote_of n \<noteq> [] \<and> vote_of n \<noteq> vq_candidate_id req then (vote_rsp n False, n)
        else if vq_last_log_term req < log_last_term n then (vote_rsp n False, n)
        else if vq_last_log_term req = log_last_term n \<and> vq_last_log_index req < log_last n
        then (vote_rsp n False, n)
        else
          let n1 = on_storage (rs_set_voted_for (vq_candidate_id req)) n
          in (vote_rsp n1 True, n1))"

definition TryBecomeLeaderLocked :: "Clock \<Rightarrow> 'sm RaftNode \<Rightarrow> 'sm RaftNode" where
  "TryBecomeLeaderLocked clk n =
     (if rn_config_state n = kJoint then
        let old_majority = (length (voters (old_config (rn_joint n))) + 1) div 2 + 1;
            new_majority = (length (voters (new_config (rn_joint n))) + 1) div 2 + 1
        in if old_majority \<le> rn_old_votes n \<and> new_majority \<le> rn_new_votes n then BecomeLeader clk n else n
      else
        let majority = (length (voters (rn_config n)) + 1) div 2 + 1
        in if majority \<le> rn_vote_count n then BecomeLeader clk n else n)"

definition TryBecomeLeader :: "Clock \<Rightarrow> ElectionResult \<Rightarrow> 'sm RaftNode \<Rightarrow> bool \<times> 'sm RaftNode" where
  "TryBecomeLeader clk result n =
     (let n1 = TryBecomeLeaderLocked clk (n\<lparr>rn_vote_count := votes_received result\<rparr>)
      in (rn_role n1 = Leader, n1))"

definition election_begin :: "'sm RaftNode \<Rightarrow> (VoteRequest \<times> NodeId list) option \<times> 'sm RaftNode" where
  "election_begin n0 =
     (if rn_shutdown n0 then (None, n0)
      else
        let n = (case rn_role n0 of Follower \<Rightarrow> BecomeCandidate n0 | Candidate \<Rightarrow> BecomeCandidateNewTerm n0 | Leader \<Rightarrow> n0) in
        if rn_role n \<noteq> Candidate then (None, n)
        else (Some (\<lparr>vq_group_id = rn_group_id n, vq_term = term_of n, vq_candidate_id = rn_node_id n,
                     vq_last_log_index = log_last n, vq_last_log_term = log_last_term n\<rparr>, GetPeerIds n), n))"

text \<open>The tally of an election: the result, the peers that granted, and the highest term seen.\<close>

record Tally =
  ta_result :: ElectionResult
  ta_granters :: "NodeId list"
  ta_max_term :: Term

definition tally_init :: "VoteRequest \<Rightarrow> Tally" where
  "tally_init req = \<lparr>ta_result = \<lparr>votes_received = 1, votes_rejected = 0\<rparr>, ta_granters = [], ta_max_term = vq_term req\<rparr>"

definition tally_add :: "NodeId \<Rightarrow> VoteResponse \<Rightarrow> Tally \<Rightarrow> Tally" where
  "tally_add peer rsp t =
     (let t1 = (if vr_vote_granted rsp
                then t\<lparr>ta_result := (ta_result t)\<lparr>votes_received := votes_received (ta_result t) + 1\<rparr>,
                       ta_granters := ta_granters t @ [peer]\<rparr>
                else t\<lparr>ta_result := (ta_result t)\<lparr>votes_rejected := votes_rejected (ta_result t) + 1\<rparr>\<rparr>)
      in if ta_max_term t1 < vr_term rsp then t1\<lparr>ta_max_term := vr_term rsp\<rparr> else t1)"

fun election_poll ::
  "(NodeId \<Rightarrow> VoteRequest \<Rightarrow> 'w \<Rightarrow> VoteResponse \<times> 'w) \<Rightarrow> VoteRequest \<Rightarrow> NodeId list \<Rightarrow> Tally \<Rightarrow> 'w \<Rightarrow> Tally \<times> 'w" where
  "election_poll send req [] t w = (t, w)"
| "election_poll send req (p # ps) t w =
     (let (rsp, w1) = send p req w in election_poll send req ps (tally_add p rsp t) w1)"

definition election_finish :: "Clock \<Rightarrow> VoteRequest \<Rightarrow> Tally \<Rightarrow> 'sm RaftNode \<Rightarrow> 'sm RaftNode" where
  "election_finish clk req t n0 =
     (if term_of n0 < ta_max_term t then BecomeFollower (ta_max_term t) n0
      else if rn_role n0 \<noteq> Candidate \<or> term_of n0 \<noteq> vq_term req then n0
      else
        let n1 = n0\<lparr>rn_vote_count := votes_received (ta_result t)\<rparr>;
            ov = voters (old_config (rn_joint n1)); nv = voters (new_config (rn_joint n1));
            n2 = (if rn_config_state n1 = kJoint
                  then n1\<lparr>rn_old_votes := (if ov = [] \<or> rn_node_id n1 \<in> set ov then 1 else 0)
                              + length (filter (\<lambda>g. g \<in> set ov) (ta_granters t)),
                          rn_new_votes := (if nv = [] \<or> rn_node_id n1 \<in> set nv then 1 else 0)
                              + length (filter (\<lambda>g. g \<in> set nv) (ta_granters t))\<rparr>
                  else n1);
            n3 = TryBecomeLeaderLocked clk n2
        in if rn_role n3 = Candidate \<and> \<not> rn_shutdown n3 then SetRoleLocked Follower n3 else n3)"

text \<open>Where a method has released the lock, other fibers may run on the node: handlers of messages, other
  client calls, the timer, the heartbeat. What they do there is a parameter of the methods that release
  it, any function of the node and of the world; \<open>quiet\<close> is the one that does nothing. A loop of RPCs
  that reads nothing of the node needs it only once, behind the loop: what the others do to the world in
  between is part of the transport.\<close>

type_synonym ('sm, 'w) Others = "'sm RaftNode \<Rightarrow> 'w \<Rightarrow> 'sm RaftNode \<times> 'w"

definition quiet :: "('sm, 'w) Others" where
  "quiet n w = (n, w)"

lemma quiet_simps [simp]: "quiet n w = (n, w)"
  by (simp add: quiet_def)

definition StartElection ::
  "(NodeId \<Rightarrow> VoteRequest \<Rightarrow> 'w \<Rightarrow> VoteResponse \<times> 'w) \<Rightarrow> ('sm, 'w) Others \<Rightarrow> Clock \<Rightarrow> 'sm RaftNode \<Rightarrow> 'w
     \<Rightarrow> ElectionResult \<times> 'sm RaftNode \<times> 'w" where
  "StartElection send others clk n w =
     (case election_begin n of
        (None, n1) \<Rightarrow> (\<lparr>votes_received = 0, votes_rejected = 0\<rparr>, n1, w)
      | (Some (req, peers), n1) \<Rightarrow>
          let (t, w1) = election_poll send req (if rn_transport n1 then peers else []) (tally_init req) w;
              (n2, w2) = others n1 w1
          in (ta_result t, election_finish clk req t n2, w2))"

end
