(* ===== verification/Raft_Replication.thy ===== *)
theory Raft_Replication
  imports Raft_Node
begin

text \<open>
  The rest of \<^verbatim>\<open>server/raft/raft_node.cc\<close>: applying committed entries, the handlers of heartbeats,
  appended entries and snapshots, the leader's heartbeat round, replication and leader transfer.
\<close>

section \<open>Applying committed entries\<close>

definition apply_config :: "ClusterConfig \<Rightarrow> LogIndex \<Rightarrow> 'sm RaftNode \<Rightarrow> 'sm RaftNode" where
  "apply_config target index n =
     (if rn_config_state n = kJoint then
        on_storage (rs_SetJointConfigState kStable joint_default)
          (n\<lparr>rn_config := target, rn_joint := joint_default, rn_joint_entry_index := 0,
             rn_joint_finalize_appended := False, rn_config_state := kStable\<rparr>)
      else
        let joint = \<lparr>old_config = rn_config n, new_config = target\<rparr>
        in on_storage (rs_SetJointConfigState kJoint joint)
             (n\<lparr>rn_joint := joint, rn_joint_entry_index := index, rn_joint_finalize_appended := False,
                rn_config_state := kJoint\<rparr>))"

text \<open>One entry. A membership entry that does not parse throws; \<open>rn_crashed\<close> is an exception under way.\<close>

definition apply_one ::
  "'sm StateMachineOps \<Rightarrow> Clock \<Rightarrow> LogEntry \<Rightarrow> ApplyResult \<times> 'sm RaftNode \<Rightarrow> ApplyResult \<times> 'sm RaftNode" where
  "apply_one M clk e rn = (case rn of (r, n) \<Rightarrow>
     if rn_crashed n then (r, n)
     else if starts_with ''CONFIG_CHANGE'' (command e) then
       (case cc_Deserialize (command e) of
          None \<Rightarrow> (r, n\<lparr>rn_crashed := True\<rparr>)
        | Some c \<Rightarrow> (r, (apply_config (cc_target c) (entry_index e) n)\<lparr>rn_last_applied := entry_index e\<rparr>))
     else
       (case rn_sm n of
          None \<Rightarrow> (r, n)
        | Some s \<Rightarrow>
            let (res, s') = sm_ApplyLogEntry M (wall_ms clk) e s
            in (res, n\<lparr>rn_sm := Some s', rn_last_applied := entry_index e\<rparr>)))"

definition flush_progress :: "Clock \<Rightarrow> 'sm RaftNode \<Rightarrow> 'sm RaftNode" where
  "flush_progress clk n0 =
     (let n = n0\<lparr>rn_apply_progress := ap_UpdateMemoryOnly (rn_last_applied n0) (rn_apply_progress n0)\<rparr>;
          now = steady_ms clk
      in if rn_meta_flush_interval n = 0 \<or> rn_meta_flush_interval n \<le> sub64 now (rn_last_meta_flush n)
         then (on_progress ap_Flush (if 0 < rn_meta_flush_interval n then on_log ls_Flush n else n))
                \<lparr>rn_last_meta_flush := now\<rparr>
         else n)"

definition ok_result :: ApplyResult where
  "ok_result = apply_result ApplyOp_OK 0"

definition kBatchSize :: nat where
  "kBatchSize = 128"

text \<open>The loop over batches; every round applies at least one entry, so \<open>commit_index - last_applied\<close>
  rounds are enough.\<close>

primrec apply_loop ::
  "'sm StateMachineOps \<Rightarrow> Clock \<Rightarrow> nat \<Rightarrow> ApplyResult \<times> 'sm RaftNode \<Rightarrow> ApplyResult \<times> 'sm RaftNode" where
  "apply_loop M clk 0 rn = rn"
| "apply_loop M clk (Suc fuel) rn =
     (case rn of (r, n) \<Rightarrow>
        (case rn_log n of
           None \<Rightarrow> (r, n)
         | Some l \<Rightarrow>
             if rn_crashed n \<or> \<not> (rn_last_applied n < rn_commit_index n \<and> rn_last_applied n < ls_LastIndex l)
             then (r, n)
             else
               let entries = ls_GetRange l (rn_last_applied n + 1)
                     (min kBatchSize (rn_commit_index n - rn_last_applied n))
               in if entries = [] then (r, n)
                  else
                    let (r', n') = fold (apply_one M clk) entries (r, n)
                    in apply_loop M clk fuel (r', if rn_crashed n' then n' else flush_progress clk n')))"

definition ApplyCommittedLogs ::
  "'sm StateMachineOps \<Rightarrow> Clock \<Rightarrow> 'sm RaftNode \<Rightarrow> ApplyResult \<times> 'sm RaftNode" where
  "ApplyCommittedLogs M clk n =
     (if rn_sm n = None \<or> rn_log n = None then (ok_result, n)
      else apply_loop M clk (rn_commit_index n - rn_last_applied n) (ok_result, n))"

section \<open>Followers\<close>

definition heartbeat_rsp :: "'sm RaftNode \<Rightarrow> bool \<Rightarrow> HeartbeatResponse" where
  "heartbeat_rsp n ok =
     \<lparr>hr_group_id = rn_group_id n, hr_term = term_of n, hr_success = ok, hr_last_log_index = log_last n\<rparr>"

definition reset_timer :: "'sm RaftNode \<Rightarrow> 'sm RaftNode" where
  "reset_timer n = n\<lparr>rn_timer := et_Reset (rn_timer n)\<rparr>"

definition OnHeartbeat ::
  "'sm StateMachineOps \<Rightarrow> Clock \<Rightarrow> HeartbeatRequest \<Rightarrow> 'sm RaftNode \<Rightarrow> HeartbeatResponse \<times> 'sm RaftNode" where
  "OnHeartbeat M clk req n0 =
     (if hq_term req < term_of n0 then (heartbeat_rsp n0 False, n0)
      else if term_of n0 < hq_term req \<or> rn_role n0 \<noteq> Leader then
        let n1 = reset_timer (BecomeFollower (hq_term req) n0);
            n2 = (if rn_commit_index n1 < hq_leader_commit req \<and> rn_log n1 \<noteq> None \<and> hq_leader_commit req \<le> log_last n1
                  then snd (ApplyCommittedLogs M clk (n1\<lparr>rn_commit_index := hq_leader_commit req\<rparr>)) else n1)
        in (heartbeat_rsp n2 True, n2)
      else
        let n1 = reset_timer n0 in (heartbeat_rsp n1 True, n1))"

definition OnReadIndex :: "ReadIndexRequest \<Rightarrow> 'sm RaftNode \<Rightarrow> ReadIndexResponse" where
  "OnReadIndex req n =
     \<lparr>rr_group_id = 0, rr_term = term_of n, rr_success = (term_of n \<le> rq_term req \<and> rn_role n \<noteq> Candidate),
      rr_commit_index = rn_commit_index n\<rparr>"

definition OnTimeoutNow ::
  "(NodeId \<Rightarrow> VoteRequest \<Rightarrow> 'w \<Rightarrow> VoteResponse \<times> 'w) \<Rightarrow> ('sm, 'w) Others \<Rightarrow> Clock \<Rightarrow> TimeoutNowRequest \<Rightarrow> 'sm RaftNode \<Rightarrow> 'w
     \<Rightarrow> TimeoutNowResponse \<times> 'sm RaftNode \<times> 'w" where
  "OnTimeoutNow send others clk req n0 w =
     (if tq_term req < term_of n0
      then (\<lparr>tr_group_id = rn_group_id n0, tr_term = term_of n0, tr_accepted = False\<rparr>, n0, w)
      else
        let n = (if term_of n0 < tq_term req then BecomeFollower (tq_term req) n0 else n0);
            (n1, w1) = (if rn_role n \<noteq> Leader then let (n', w') = others n w in snd (StartElection send others clk n' w')
                        else (n, w))
        in (\<lparr>tr_group_id = rn_group_id n1, tr_term = tq_term req, tr_accepted = True\<rparr>, n1, w1))"

definition append_rsp :: "'sm RaftNode \<Rightarrow> bool \<Rightarrow> LogIndex \<Rightarrow> AppendEntriesResponse" where
  "append_rsp n ok idx =
     \<lparr>ar_group_id = rn_group_id n, ar_term = term_of n, ar_success = ok, ar_last_log_index = idx\<rparr>"

text \<open>The loop over the received entries; the flag is false at a gap.\<close>

fun append_entries_loop :: "LogEntry list \<Rightarrow> LogStore \<Rightarrow> bool \<times> LogStore" where
  "append_entries_loop [] l = (True, l)"
| "append_entries_loop (e # es) l =
     (if entry_index e \<le> ls_LastIndex l then
        if (case ls_Get l (entry_index e) of Some x \<Rightarrow> entry_term x = entry_term e | None \<Rightarrow> False)
        then append_entries_loop es l
        else append_entries_loop es (snd (ls_Append e True (ls_TruncateFrom (sub64 (entry_index e) 1) l)))
      else if entry_index e = ls_LastIndex l + 1 then append_entries_loop es (snd (ls_Append e True l))
      else (False, l))"

definition truncate_tail :: "LogEntry list \<Rightarrow> LogStore \<Rightarrow> LogStore" where
  "truncate_tail es l =
     (if es \<noteq> [] \<and> entry_index (last es) < ls_LastIndex l then ls_TruncateFrom (entry_index (last es)) l else l)"

definition OnAppendEntries ::
  "'sm StateMachineOps \<Rightarrow> Clock \<Rightarrow> AppendEntriesRequest \<Rightarrow> 'sm RaftNode \<Rightarrow> AppendEntriesResponse \<times> 'sm RaftNode" where
  "OnAppendEntries M clk req n0 =
     (if aq_term req < term_of n0 then (append_rsp n0 False (log_last n0), n0)
      else
        let n = (if term_of n0 < aq_term req then BecomeFollower (aq_term req) n0
                 else if rn_role n0 \<noteq> Leader then reset_timer n0 else n0)
        in case rn_log n of
             None \<Rightarrow> (append_rsp n True 0, n)
           | Some l \<Rightarrow>
               if ls_LastIndex l < aq_prev_log_index req then (append_rsp n False (ls_LastIndex l), n)
               else if 0 < aq_prev_log_index req \<and> ls_GetTerm l (aq_prev_log_index req) \<noteq> aq_prev_log_term req
               then (append_rsp n False (aq_prev_log_index req - 1), n)
               else
                 let (ok, l1) = append_entries_loop (take kMaxAppendBatch (aq_entries req)) l in
                 if \<not> ok then (append_rsp n False (ls_LastIndex l1), n\<lparr>rn_log := Some l1\<rparr>)
                 else
                   let l2 = truncate_tail (aq_entries req) l1;
                       n1 = n\<lparr>rn_log := Some l2\<rparr>;
                       my_last = ls_LastIndex l2;
                       n2 = (if rn_commit_index n1 < aq_leader_commit req
                             then snd (ApplyCommittedLogs M clk (n1\<lparr>rn_commit_index := min (aq_leader_commit req) my_last\<rparr>))
                             else n1)
                   in (append_rsp n2 True my_last, n2))"

definition install_rsp :: "'sm RaftNode \<Rightarrow> bool \<Rightarrow> InstallSnapshotResponse" where
  "install_rsp n ok = \<lparr>ir_group_id = rn_group_id n, ir_term = term_of n, ir_success = ok\<rparr>"

definition install_complete :: "InstallSnapshotRequest \<Rightarrow> 'sm RaftNode \<Rightarrow> 'sm RaftNode" where
  "install_complete req n =
     (let i = iq_last_included_index req; t = iq_last_included_term req;
          n1 = n\<lparr>rn_last_applied := i, rn_commit_index := max (rn_commit_index n) i,
                rn_last_snapshot_index := i, rn_last_snapshot_term := t\<rparr>
      in on_log (\<lambda>l. ls_SetSnapshotAnchor i t (ls_Clear l)) (on_progress (ap_Update i) n1))"

definition OnInstallSnapshot ::
  "'sm StateMachineOps \<Rightarrow> Clock \<Rightarrow> InstallSnapshotRequest \<Rightarrow> 'sm RaftNode \<Rightarrow> InstallSnapshotResponse \<times> 'sm RaftNode" where
  "OnInstallSnapshot M clk req n0 =
     (if iq_term req < term_of n0 then (install_rsp n0 False, n0)
      else
        let n = (if term_of n0 < iq_term req then BecomeFollower (iq_term req) n0 else n0)
        in case rn_receiver n of
             None \<Rightarrow> (install_rsp n False, n)
           | Some dir \<Rightarrow>
               let (rsp, d) = HandleChunk dir req (rn_disk n);
                   n1 = n\<lparr>rn_disk := d\<rparr>
               in if \<not> (ir_success rsp \<and> iq_done req) then (rsp, n1)
                  else
                    (case rn_sm n1 of
                       None \<Rightarrow> (rsp, install_complete req n1)
                     | Some s \<Rightarrow>
                         let (ok, s') = sm_LoadSnapshot M (wall_ms clk) (recv_bin dir) (rn_disk n1) s;
                             n2 = n1\<lparr>rn_sm := Some s'\<rparr>
                         in if \<not> ok then (rsp\<lparr>ir_success := False\<rparr>, n2) else (rsp, install_complete req n2)))"

section \<open>Commit index of a leader\<close>

text \<open>The \<open>majority\<close>-th largest of the indexes, when there are that many.\<close>

definition quorum_index :: "nat \<Rightarrow> LogIndex list \<Rightarrow> LogIndex option" where
  "quorum_index majority indexes =
     (let sorted_desc = rev (sort indexes)
      in if length sorted_desc \<le> majority - 1 then None else Some (sorted_desc ! (majority - 1)))"

definition commit_candidate :: "LogStore \<Rightarrow> LogIndex \<Rightarrow> 'sm RaftNode \<Rightarrow> 'sm RaftNode" where
  "commit_candidate l candidate n =
     (if rn_commit_index n < candidate then
        let t = ls_GetTerm l candidate
        in if t \<noteq> 0 \<and> t < term_of n then n else n\<lparr>rn_commit_index := candidate\<rparr>
      else n)"

definition calc_config_commit :: "LogStore \<Rightarrow> PeerArrays \<Rightarrow> ClusterConfig \<Rightarrow> LogIndex" where
  "calc_config_commit l p c =
     (let indexes = ls_LastIndex l # map snd (filter (\<lambda>x. fst x \<in> set (voters c)) (zip (pa_ids p) (pa_last p)))
      in case quorum_index ((length (voters c) + 1) div 2 + 1) indexes of None \<Rightarrow> 0 | Some i \<Rightarrow> i)"

definition AdvanceCommitIndexJoint :: "LogStore \<Rightarrow> 'sm RaftNode \<Rightarrow> 'sm RaftNode" where
  "AdvanceCommitIndexJoint l n =
     commit_candidate l
       (min (calc_config_commit l (rn_peers n) (old_config (rn_joint n)))
            (calc_config_commit l (rn_peers n) (new_config (rn_joint n)))) n"

definition AdvanceCommitIndexLocked :: "'sm RaftNode \<Rightarrow> 'sm RaftNode" where
  "AdvanceCommitIndexLocked n =
     (case rn_log n of
        None \<Rightarrow> n
      | Some l \<Rightarrow>
          if rn_config_state n = kJoint then AdvanceCommitIndexJoint l n
          else
            (case quorum_index ((length (voters (rn_config n)) + 1) div 2 + 1) (ls_LastIndex l # pa_last (rn_peers n)) of
               None \<Rightarrow> n
             | Some candidate \<Rightarrow> commit_candidate l candidate n))"

definition AdvanceCommitIndex :: "'sm RaftNode \<Rightarrow> 'sm RaftNode" where
  "AdvanceCommitIndex n = (if rn_role n \<noteq> Leader then n else AdvanceCommitIndexLocked n)"

definition MaybeAutoFinalizeJoint :: "'sm RaftNode \<Rightarrow> 'sm RaftNode" where
  "MaybeAutoFinalizeJoint n =
     (if rn_config_state n \<noteq> kJoint \<or> rn_role n \<noteq> Leader \<or> rn_joint_finalize_appended n then n
      else case rn_log n of
        None \<Rightarrow> n
      | Some l \<Rightarrow>
          if rn_joint_entry_index n = 0 \<or> rn_commit_index n < rn_joint_entry_index n then n
          else if ls_GetTerm l (rn_joint_entry_index n) \<noteq> term_of n then n
          else (append_log (config_entry (term_of n) (new_config (rn_joint n))) True n)\<lparr>rn_joint_finalize_appended := True\<rparr>)"

section \<open>Replication\<close>

record PeerReq =
  pr_id :: NodeId
  pr_idx :: nat
  pr_next :: LogIndex
  pr_prev_index :: LogIndex
  pr_prev_term :: Term
  pr_need_snapshot :: bool
  pr_snapshot_index :: LogIndex
  pr_snapshot_term :: Term
  pr_entries :: "LogEntry list"

record PeerRsp =
  ps_attempted :: bool
  ps_ok :: bool
  ps_match :: LogIndex
  ps_term :: Term

definition no_rsp :: PeerRsp where
  "no_rsp = \<lparr>ps_attempted = False, ps_ok = False, ps_match = 0, ps_term = 0\<rparr>"

definition ShouldInstallSnapshot :: "LogIndex \<Rightarrow> LogIndex \<Rightarrow> bool" where
  "ShouldInstallSnapshot next_index snapshot_index \<longleftrightarrow> 0 < snapshot_index \<and> next_index \<le> snapshot_index"

definition build_req :: "LogStore \<Rightarrow> 'sm RaftNode \<Rightarrow> NodeId list \<Rightarrow> nat \<Rightarrow> PeerReq" where
  "build_req l n ids i =
     (let nxt = max 1 (pa_next (rn_peers n) ! i);
          base_req = \<lparr>pr_id = ids ! i, pr_idx = i, pr_next = nxt, pr_prev_index = 0, pr_prev_term = 0,
                      pr_need_snapshot = False, pr_snapshot_index = 0, pr_snapshot_term = 0, pr_entries = []\<rparr>
      in if ShouldInstallSnapshot nxt (rn_last_snapshot_index n)
         then base_req\<lparr>pr_need_snapshot := True, pr_snapshot_index := rn_last_snapshot_index n,
                       pr_snapshot_term := rn_last_snapshot_term n\<rparr>
         else
           let prev = (if 1 < nxt then
                         (case ls_Get l (nxt - 1) of
                            Some e \<Rightarrow> (entry_index e, entry_term e)
                          | None \<Rightarrow> (nxt - 1, ls_GetTerm l (nxt - 1)))
                       else (0, 0))
           in base_req\<lparr>pr_prev_index := fst prev, pr_prev_term := snd prev,
                       pr_entries := ls_GetRange l nxt kMaxAppendBatch\<rparr>)"

text \<open>What the first locked part captures: term, early-stop threshold, last index, requests. Peers that
  answered the last heartbeat come first, otherwise in their order.\<close>

record RepPlan =
  rp_term :: Term
  rp_majority :: nat
  rp_my_last :: LogIndex
  rp_reqs :: "PeerReq list"

definition rep_begin :: "'sm RaftNode \<Rightarrow> RepPlan option \<times> 'sm RaftNode" where
  "rep_begin n =
     (case rn_log n of
        None \<Rightarrow> (None, n)
      | Some l \<Rightarrow>
          if rn_role n \<noteq> Leader then (None, n)
          else
            let ids = GetPeerIds n;
                n1 = ResizePeerArrays (length ids) n;
                n2 = n1\<lparr>rn_peers := (rn_peers n1)\<lparr>pa_ids := ids\<rparr>\<rparr>;
                ok = pa_hb_ok (rn_peers n2);
                order = filter (\<lambda>i. ok ! i) [0..<length ids] @ filter (\<lambda>i. \<not> ok ! i) [0..<length ids]
            in (Some \<lparr>rp_term = term_of n2, rp_majority = length (voters (rn_config n2)) div 2 + 1,
                      rp_my_last = ls_LastIndex l, rp_reqs = map (build_req l n2 ids) order\<rparr>, n2))"

definition append_req :: "'sm RaftNode \<Rightarrow> Term \<Rightarrow> PeerReq \<Rightarrow> AppendEntriesRequest" where
  "append_req n t r =
     \<lparr>aq_group_id = rn_group_id n, aq_term = t, aq_leader_id = rn_node_id n, aq_prev_log_index = pr_prev_index r,
      aq_prev_log_term = pr_prev_term r, aq_entries = pr_entries r, aq_leader_commit = rn_commit_index n\<rparr>"

definition append_outcome :: "PeerReq \<Rightarrow> AppendEntriesResponse \<Rightarrow> PeerRsp" where
  "append_outcome r rsp =
     (if ar_success rsp
      then \<lparr>ps_attempted = True, ps_ok = True, ps_match = pr_prev_index r + length (pr_entries r), ps_term = ar_term rsp\<rparr>
      else \<lparr>ps_attempted = True, ps_ok = False,
            ps_match = (if ar_last_log_index rsp < pr_next r - 1 then ar_last_log_index rsp else 0), ps_term = ar_term rsp\<rparr>)"

definition send_one ::
  "'w Transport \<Rightarrow> 'sm RaftNode \<Rightarrow> Term \<Rightarrow> PeerReq \<Rightarrow> 'w \<Rightarrow> PeerRsp \<times> 'w" where
  "send_one T n t r w =
     (if pr_need_snapshot r then
        let (ok, w1) = SendSnapshot (SendInstallSnapshot T (pr_id r)) (rn_snapshot_dir n @ ''snapshot.bin'') (rn_disk n)
                         (rn_group_id n) t (rn_node_id n) (pr_snapshot_index r) (pr_snapshot_term r) w
        in (\<lparr>ps_attempted = True, ps_ok = ok, ps_match = (if ok then pr_snapshot_index r else 0), ps_term = 0\<rparr>, w1)
      else
        let (rsp, w1) = SendAppendEntries T (pr_id r) (append_req n t r) w
        in (append_outcome r rsp, w1))"

text \<open>The requests carry the commit index and the snapshot file of the moment they are sent; other fibers
  run while a request is under way.\<close>

fun send_peers ::
  "'w Transport \<Rightarrow> ('sm, 'w) Others \<Rightarrow> bool \<Rightarrow> RepPlan \<Rightarrow> PeerReq list \<Rightarrow> nat \<Rightarrow> 'sm RaftNode \<Rightarrow> 'w
     \<Rightarrow> PeerRsp list \<times> 'sm RaftNode \<times> 'w" where
  "send_peers T others low_latency plan [] succ n w = ([], n, w)"
| "send_peers T others low_latency plan (r # rs) succ n w =
     (if low_latency \<and> rp_majority plan \<le> succ then (map (\<lambda>_. no_rsp) (r # rs), n, w)
      else if \<not> low_latency \<and> (\<not> pa_hb_ok (rn_peers n) ! pr_idx r \<or> rp_my_last plan < pr_next r) then
        let (out, nw) = send_peers T others low_latency plan rs succ n w in (no_rsp # out, nw)
      else
        let (p, w1) = send_one T n (rp_term plan) r w;
            (n2, w2) = others n w1;
            (out, nw) = send_peers T others low_latency plan rs (if ps_ok p then succ + 1 else succ) n2 w2
        in (p # out, nw))"

text \<open>Progress of one peer after its response; the flag asks for another round.\<close>

definition peer_progress :: "LogIndex \<Rightarrow> PeerReq \<times> PeerRsp \<Rightarrow> bool \<times> PeerArrays \<Rightarrow> bool \<times> PeerArrays" where
  "peer_progress snapshot_index x acc =
     (case (x, acc) of ((r, p), (retry, a)) \<Rightarrow>
        if \<not> ps_attempted p then (retry, a)
        else if ps_ok p then
          (retry, a\<lparr>pa_last := (pa_last a)[pr_idx r := ps_match p], pa_next := (pa_next a)[pr_idx r := ps_match p + 1]\<rparr>)
        else
          let backoff = max 1 (min (sub64 (pa_next a ! pr_idx r) 1) (ps_match p + 1));
              a1 = a\<lparr>pa_next := (pa_next a)[pr_idx r := backoff]\<rparr>
          in (True, if backoff \<le> snapshot_index then a1\<lparr>pa_last := (pa_last a1)[pr_idx r := snapshot_index]\<rparr> else a1))"

definition max_term_of :: "Term \<Rightarrow> PeerRsp list \<Rightarrow> Term" where
  "max_term_of t rsps = foldl max t (map ps_term rsps)"

text \<open>The last locked part: \<open>None\<close> for an early return, otherwise whether to run another round and the
  result of applying.\<close>

definition rep_finish ::
  "'sm StateMachineOps \<Rightarrow> Clock \<Rightarrow> RepPlan \<Rightarrow> PeerRsp list \<Rightarrow> 'sm RaftNode \<Rightarrow> (bool \<times> ApplyResult) option \<times> 'sm RaftNode" where
  "rep_finish M clk plan rsps n =
     (if term_of n < max_term_of (rp_term plan) rsps
      then (None, BecomeFollower (max_term_of (rp_term plan) rsps) n)
      else if rn_role n \<noteq> Leader \<or> term_of n \<noteq> rp_term plan then (None, n)
      else
        let (retry, a) = fold (peer_progress (rn_last_snapshot_index n)) (zip (rp_reqs plan) rsps) (False, rn_peers n);
            n1 = MaybeAutoFinalizeJoint (AdvanceCommitIndexLocked (n\<lparr>rn_peers := a\<rparr>));
            (res, n2) = ApplyCommittedLogs M clk n1
        in (Some (retry, res), n2))"

primrec rep_rounds ::
  "'sm StateMachineOps \<Rightarrow> 'w Transport \<Rightarrow> ('sm, 'w) Others \<Rightarrow> Clock \<Rightarrow> bool \<Rightarrow> nat \<Rightarrow> ApplyResult \<Rightarrow> 'sm RaftNode \<Rightarrow> 'w
     \<Rightarrow> ApplyResult \<times> 'sm RaftNode \<times> 'w" where
  "rep_rounds M T others clk low_latency 0 result n w = (result, n, w)"
| "rep_rounds M T others clk low_latency (Suc k) result n w =
     (case rep_begin n of
        (None, n1) \<Rightarrow> (result, n1, w)
      | (Some plan, n1) \<Rightarrow>
          let (n2, w2) = others n1 w in
          if rp_reqs plan = [] then
            if rn_role n2 \<noteq> Leader then (result, n2, w2)
            else
              let (res, n3) = ApplyCommittedLogs M clk (MaybeAutoFinalizeJoint (AdvanceCommitIndexLocked n2))
              in (res, n3, w2)
          else
            let (rsps, n3, w3) = (if rn_transport n2 then send_peers T others low_latency plan (rp_reqs plan) 1 n2 w2
                                  else (map (\<lambda>_. no_rsp) (rp_reqs plan), n2, w2))
            in case rep_finish M clk plan rsps n3 of
                 (None, n4) \<Rightarrow> (result, n4, w3)
               | (Some (retry, res), n4) \<Rightarrow>
                   if retry \<and> \<not> rn_crashed n4
                   then let (n5, w5) = others n4 w3 in rep_rounds M T others clk low_latency k res n5 w5
                   else (res, n4, w3))"

definition ReplicateLog ::
  "'sm StateMachineOps \<Rightarrow> 'w Transport \<Rightarrow> ('sm, 'w) Others \<Rightarrow> Clock \<Rightarrow> bool \<Rightarrow> 'sm RaftNode \<Rightarrow> 'w \<Rightarrow> ApplyResult \<times> 'sm RaftNode \<times> 'w" where
  "ReplicateLog M T others clk low_latency n w = rep_rounds M T others clk low_latency 8 ok_result n w"

section \<open>Leader transfer\<close>

definition IsTransferReady :: "NodeId \<Rightarrow> 'sm RaftNode \<Rightarrow> bool" where
  "IsTransferReady target n =
     (case rn_log n of
        None \<Rightarrow> False
      | Some l \<Rightarrow>
          (case map_of (zip (pa_ids (rn_peers n)) (pa_last (rn_peers n))) target of
             None \<Rightarrow> False
           | Some i \<Rightarrow> ls_LastIndex l \<le> i))"

definition CheckTransferTimeout :: "Clock \<Rightarrow> 'sm RaftNode \<Rightarrow> 'sm RaftNode" where
  "CheckTransferTimeout clk n =
     (if IsActive (rn_transfer n) \<and> rn_transfer_timeout n \<le> sub64 (steady_ms clk) (xfer_start_ms (rn_transfer n))
      then CancelTransfer n else n)"

definition set_transfer_state :: "TransferState \<Rightarrow> 'sm RaftNode \<Rightarrow> 'sm RaftNode" where
  "set_transfer_state st n = n\<lparr>rn_transfer := (rn_transfer n)\<lparr>xfer_state := st\<rparr>\<rparr>"

definition SendTimeoutNowToTarget :: "'w Transport \<Rightarrow> ('sm, 'w) Others \<Rightarrow> 'sm RaftNode \<Rightarrow> 'w \<Rightarrow> 'sm RaftNode \<times> 'w" where
  "SendTimeoutNowToTarget T others n w =
     (if \<not> rn_transport n \<or> xfer_target (rn_transfer n) = [] \<or> rn_role n \<noteq> Leader then (n, w)
      else
        let (rsp, w1) = SendTimeoutNow T (xfer_target (rn_transfer n))
              \<lparr>tq_group_id = rn_group_id n, tq_term = term_of n, tq_leader_id = rn_node_id n\<rparr> w;
            (n2, w2) = others n w1
        in (if rn_role n2 = Leader \<and> \<not> tr_accepted rsp then CancelTransfer n2 else n2, w2))"

definition StartTransfer ::
  "'sm StateMachineOps \<Rightarrow> 'w Transport \<Rightarrow> ('sm, 'w) Others \<Rightarrow> Clock \<Rightarrow> NodeId \<Rightarrow> 'sm RaftNode \<Rightarrow> 'w \<Rightarrow> bool \<times> 'sm RaftNode \<times> 'w" where
  "StartTransfer M T others clk target n w =
     (if rn_role n \<noteq> Leader \<or> IsActive (rn_transfer n) \<or> target \<notin> set (GetPeerIds n) then (False, n, w)
      else
        let n1 = n\<lparr>rn_transfer := \<lparr>xfer_target = target, xfer_state = kRequested, xfer_start_ms = steady_ms clk\<rparr>\<rparr>;
            (n2, w2) = others n1 w;
            (_, n3, w3) = ReplicateLog M T others clk False n2 w2
        in if rn_crashed n3 then (False, n3, w3)
           else
             let (n4, w4) = others n3 w3 in
             if rn_role n4 \<noteq> Leader \<or> \<not> IsActive (rn_transfer n4) then (False, n4, w4)
             else if IsTransferReady target n4 then
               let (n5, w5) = others (set_transfer_state kWaitingElection n4) w4;
                   (n6, w6) = SendTimeoutNowToTarget T others n5 w5
               in (True, n6, w6)
             else (True, set_transfer_state kWaitingCatchUp n4, w4))"

section \<open>The heartbeat round\<close>

definition hb_begin :: "bool \<Rightarrow> nat \<Rightarrow> 'sm RaftNode \<Rightarrow> (HeartbeatRequest \<times> NodeId list) option" where
  "hb_begin is_loop epoch n =
     (if is_loop \<and> hb_epoch (rn_heartbeat n) \<noteq> epoch then None
      else if rn_role n \<noteq> Leader then None
      else Some (\<lparr>hq_group_id = rn_group_id n, hq_term = term_of n, hq_leader_id = rn_node_id n,
                  hq_leader_commit = rn_commit_index n\<rparr>, GetPeerIds n))"

record HbAcks =
  ha_count :: nat
  ha_max_term :: Term
  ha_last_log :: "(NodeId \<times> LogIndex) list"

definition ack_add :: "HeartbeatRequest \<Rightarrow> NodeId \<Rightarrow> HeartbeatResponse \<Rightarrow> HbAcks \<Rightarrow> HbAcks" where
  "ack_add req peer rsp a =
     (let a1 = (if hr_success rsp \<and> hr_term rsp = hq_term req
                then a\<lparr>ha_count := ha_count a + 1, ha_last_log := ha_last_log a @ [(peer, hr_last_log_index rsp)]\<rparr> else a)
      in if ha_max_term a1 < hr_term rsp then a1\<lparr>ha_max_term := hr_term rsp\<rparr> else a1)"

fun hb_poll :: "'w Transport \<Rightarrow> HeartbeatRequest \<Rightarrow> NodeId list \<Rightarrow> HbAcks \<Rightarrow> 'w \<Rightarrow> HbAcks \<times> 'w" where
  "hb_poll T req [] a w = (a, w)"
| "hb_poll T req (p # ps) a w =
     (let (rsp, w1) = SendHeartbeat T p req w in hb_poll T req ps (ack_add req p rsp a) w1)"

definition index_of :: "'a \<Rightarrow> 'a list \<Rightarrow> nat option" where
  "index_of x xs = map_of (zip xs [0..<length xs]) x"

definition ack_progress :: "LogIndex \<Rightarrow> NodeId \<times> LogIndex \<Rightarrow> bool \<times> PeerArrays \<Rightarrow> bool \<times> PeerArrays" where
  "ack_progress my_last x acc =
     (case (x, acc) of ((peer, last_log), (need, a)) \<Rightarrow>
        (case index_of peer (pa_ids a) of
           None \<Rightarrow> (need, a)
         | Some i \<Rightarrow> (need \<or> last_log < my_last,
                      a\<lparr>pa_hb_ok := (pa_hb_ok a)[i := True], pa_last := (pa_last a)[i := last_log]\<rparr>)))"

definition hb_majority :: "'sm RaftNode \<Rightarrow> nat" where
  "hb_majority n =
     (if rn_config_state n = kJoint
      then max ((length (voters (old_config (rn_joint n))) + 1) div 2 + 1)
               ((length (voters (new_config (rn_joint n))) + 1) div 2 + 1)
      else length (voters (rn_config n)) div 2 + 1)"

definition ExtendLeaderLease :: "Clock \<Rightarrow> 'sm RaftNode \<Rightarrow> 'sm RaftNode" where
  "ExtendLeaderLease clk n = n\<lparr>rn_lease_expire := steady_ms clk + rn_lease_ms n\<rparr>"

definition StepDown :: "'sm RaftNode \<Rightarrow> 'sm RaftNode" where
  "StepDown n = (if rn_role n \<noteq> Leader then n else BecomeFollower (term_of n) n)"

text \<open>Match progress from the acknowledgements: whether some follower is behind, and the node.\<close>

definition hb_progress :: "HbAcks \<Rightarrow> 'sm RaftNode \<Rightarrow> bool \<times> 'sm RaftNode" where
  "hb_progress acks n =
     (let ids = GetPeerIds n;
          n1 = ResizePeerArrays (length ids) n;
          p = rn_peers n1;
          (need, a) = fold (ack_progress (log_last n)) (ha_last_log acks)
                        (False, p\<lparr>pa_ids := ids, pa_hb_ok := map (\<lambda>_. False) (pa_hb_ok p)\<rparr>)
      in (need, AdvanceCommitIndexLocked (n1\<lparr>rn_peers := a\<rparr>)))"

record HbOutcome =
  ho_stop :: bool
  ho_timeout_now :: bool
  ho_replicate :: bool

definition hb_stopped :: HbOutcome where
  "hb_stopped = \<lparr>ho_stop = True, ho_timeout_now = False, ho_replicate = False\<rparr>"

text \<open>Transfer part of the round.\<close>

definition hb_transfer :: "Clock \<Rightarrow> bool \<Rightarrow> 'sm RaftNode \<Rightarrow> HbOutcome \<times> 'sm RaftNode" where
  "hb_transfer clk need n =
     (if IsActive (rn_transfer n) then
        let n1 = CheckTransferTimeout clk n in
        if xfer_state (rn_transfer n1) = kWaitingCatchUp \<and> rn_role n1 = Leader then
          if IsTransferReady (xfer_target (rn_transfer n1)) n1
          then (\<lparr>ho_stop = False, ho_timeout_now = True, ho_replicate = need\<rparr>, set_transfer_state kWaitingElection n1)
          else (\<lparr>ho_stop = False, ho_timeout_now = False, ho_replicate = True\<rparr>, n1)
        else (\<lparr>ho_stop = False, ho_timeout_now = False, ho_replicate = need\<rparr>, n1)
      else (\<lparr>ho_stop = False, ho_timeout_now = False, ho_replicate = need\<rparr>, n))"

definition hb_finish :: "Clock \<Rightarrow> bool \<Rightarrow> nat \<Rightarrow> HbAcks \<Rightarrow> 'sm RaftNode \<Rightarrow> HbOutcome \<times> 'sm RaftNode" where
  "hb_finish clk is_loop epoch acks n =
     (if is_loop \<and> hb_epoch (rn_heartbeat n) \<noteq> epoch then (hb_stopped, n)
      else if rn_role n \<noteq> Leader then (hb_stopped, n)
      else if term_of n < ha_max_term acks then (hb_stopped, BecomeFollower (ha_max_term acks) n)
      else
        let (need, n1) = hb_progress acks n; now = steady_ms clk in
        if hb_majority n1 \<le> ha_count acks
        then hb_transfer clk need (ExtendLeaderLease clk (n1\<lparr>rn_last_majority_ack := now\<rparr>))
        else if rn_check_quorum n1 < sub64 now (rn_last_majority_ack n1) then (hb_stopped, StepDown n1)
        else hb_transfer clk need n1)"

definition HeartbeatTick ::
  "'sm StateMachineOps \<Rightarrow> 'w Transport \<Rightarrow> ('sm, 'w) Others \<Rightarrow> Clock \<Rightarrow> bool \<Rightarrow> nat \<Rightarrow> 'sm RaftNode \<Rightarrow> 'w \<Rightarrow> bool \<times> 'sm RaftNode \<times> 'w" where
  "HeartbeatTick M T others clk is_loop epoch n w =
     (case hb_begin is_loop epoch n of
        None \<Rightarrow> (True, n, w)
      | Some (req, peers) \<Rightarrow>
          let (acks, w1) = hb_poll T req (if rn_transport n then peers else [])
                             \<lparr>ha_count = 1, ha_max_term = hq_term req, ha_last_log = []\<rparr> w;
              (n1, w1') = others n w1;
              (out, n2) = hb_finish clk is_loop epoch acks n1
          in if ho_stop out then (True, n2, w1')
             else
               let (n3, w3) = others n2 w1';
                   (n4, w4) = (if ho_timeout_now out then SendTimeoutNowToTarget T others n3 w3 else (n3, w3));
                   (n5, w5) = (if ho_replicate out then snd (ReplicateLog M T others clk False n4 w4) else (n4, w4))
               in (False, n5, w5))"

definition SendHeartbeatToPeers ::
  "'sm StateMachineOps \<Rightarrow> 'w Transport \<Rightarrow> ('sm, 'w) Others \<Rightarrow> Clock \<Rightarrow> 'sm RaftNode \<Rightarrow> 'w \<Rightarrow> 'sm RaftNode \<times> 'w" where
  "SendHeartbeatToPeers M T others clk n w = snd (HeartbeatTick M T others clk False 0 n w)"

text \<open>The fiber's loop, over the clock readings of its iterations; it sleeps between them.\<close>

fun HeartbeatLoop ::
  "'sm StateMachineOps \<Rightarrow> 'w Transport \<Rightarrow> ('sm, 'w) Others \<Rightarrow> Clock list \<Rightarrow> nat \<Rightarrow> 'sm RaftNode \<Rightarrow> 'w \<Rightarrow> 'sm RaftNode \<times> 'w" where
  "HeartbeatLoop M T others [] epoch n w = (n, w)"
| "HeartbeatLoop M T others (clk # clks) epoch n w =
     (if hb_stop (rn_heartbeat n) \<or> rn_shutdown n then (n, w)
      else
        let (stop, n1, w1) = HeartbeatTick M T others clk True epoch n w
        in if stop then (n1, w1) else let (n2, w2) = others n1 w1 in HeartbeatLoop M T others clks epoch n2 w2)"

end
