(* ===== verification/Raft_Client.thy ===== *)
theory Raft_Client
  imports Raft_Replication
begin

text \<open>
  What the service calls on a node, \<^verbatim>\<open>server/raft/raft_node.cc\<close>: linearizable reads, the write path
  with group commit, snapshots (\<^verbatim>\<open>server/raft/snapshot_manager.cc\<close>) and recovery from disk.
\<close>

section \<open>Linearizable reads\<close>

datatype ReadPlan = ReadRefused | ReadFast LogIndex | ReadSlow ReadIndexRequest "NodeId list"

definition read_begin :: "Clock \<Rightarrow> 'sm RaftNode \<Rightarrow> ReadPlan \<times> 'sm RaftNode" where
  "read_begin clk n =
     (if rn_role n \<noteq> Leader then (ReadRefused, n)
      else if steady_ms clk < rn_lease_expire n then (ReadFast (rn_commit_index n), n)
      else
        let n1 = n\<lparr>rn_next_read_id := rn_next_read_id n + 1\<rparr>
        in (ReadSlow \<lparr>rq_group_id = rn_group_id n1, rq_term = term_of n1, rq_leader_id = rn_node_id n1,
                      rq_request_id = rn_next_read_id n1\<rparr> (GetPeerIds n1), n1))"

fun read_poll :: "'w Transport \<Rightarrow> ReadIndexRequest \<Rightarrow> NodeId list \<Rightarrow> nat \<times> Term \<Rightarrow> 'w \<Rightarrow> (nat \<times> Term) \<times> 'w" where
  "read_poll T req [] acc w = (acc, w)"
| "read_poll T req (p # ps) acc w =
     (let (rsp, w1) = SendReadIndex T p req w
      in read_poll T req ps
           (if rr_success rsp \<and> rr_term rsp = rq_term req then fst acc + 1 else fst acc,
            max (snd acc) (rr_term rsp)) w1)"

definition read_finish :: "Clock \<Rightarrow> ReadIndexRequest \<Rightarrow> nat \<times> Term \<Rightarrow> 'sm RaftNode \<Rightarrow> LogIndex option \<times> 'sm RaftNode" where
  "read_finish clk req acc n =
     (if term_of n < snd acc then (None, BecomeFollower (snd acc) n)
      else if rn_role n \<noteq> Leader \<or> term_of n \<noteq> rq_term req then (None, n)
      else if fst acc < (length (voters (rn_config n)) + 1) div 2 + 1 then (None, n)
      else (Some (rn_commit_index n), ExtendLeaderLease clk (n\<lparr>rn_last_majority_ack := steady_ms clk\<rparr>)))"

text \<open>The wait for an index to be applied. An element of the list is one turn of the loop: the clock read
  there, and what the other fibers do to the node during the sleep that follows.\<close>

datatype WaitResult = WaitApplied | WaitTimedOut | WaitThrown | WaitRunning

fun wait_loop ::
  "'sm StateMachineOps \<Rightarrow> ms \<Rightarrow> LogIndex \<Rightarrow> (Clock \<times> ('sm RaftNode \<Rightarrow> 'sm RaftNode)) list \<Rightarrow> 'sm RaftNode
     \<Rightarrow> WaitResult \<times> 'sm RaftNode" where
  "wait_loop M deadline target [] n = (WaitRunning, n)"
| "wait_loop M deadline target ((clk, others) # turns) n =
     (let n1 = snd (ApplyCommittedLogs M clk n)
      in if rn_crashed n1 then (WaitThrown, n1)
         else if target \<le> rn_last_applied n1 then (WaitApplied, n1)
         else if deadline < steady_ms clk then (WaitTimedOut, n1)
         else wait_loop M deadline target turns (others n1))"

definition WaitForApplied ::
  "'sm StateMachineOps \<Rightarrow> Clock \<Rightarrow> LogIndex \<Rightarrow> (Clock \<times> ('sm RaftNode \<Rightarrow> 'sm RaftNode)) list \<Rightarrow> 'sm RaftNode
     \<Rightarrow> WaitResult \<times> 'sm RaftNode" where
  "WaitForApplied M clk target turns n = wait_loop M (steady_ms clk + kWaitForAppliedTimeoutMs) target turns n"

text \<open>What follows when a read index has been found: the wait, whose outcome the code does not look at. The
  result is \<open>None\<close> while the call has not returned, and when it throws.\<close>

definition read_wait ::
  "'sm StateMachineOps \<Rightarrow> ('sm, 'w) Others \<Rightarrow> Clock \<Rightarrow> (Clock \<times> ('sm RaftNode \<Rightarrow> 'sm RaftNode)) list \<Rightarrow> LogIndex
     \<Rightarrow> 'sm RaftNode \<Rightarrow> 'w \<Rightarrow> LogIndex option \<times> 'sm RaftNode \<times> 'w" where
  "read_wait M others clk turns i n w =
     (if 0 < i then
        let (n1, w1) = others n w; (r, n2) = WaitForApplied M clk i turns n1
        in (if r = WaitApplied \<or> r = WaitTimedOut then Some i else None, n2, w1)
      else (Some i, n, w))"

definition ReadIndex ::
  "'sm StateMachineOps \<Rightarrow> 'w Transport \<Rightarrow> ('sm, 'w) Others \<Rightarrow> Clock \<Rightarrow> (Clock \<times> ('sm RaftNode \<Rightarrow> 'sm RaftNode)) list
     \<Rightarrow> 'sm RaftNode \<Rightarrow> 'w \<Rightarrow> LogIndex option \<times> 'sm RaftNode \<times> 'w" where
  "ReadIndex M T others clk turns n w =
     (case read_begin clk n of
        (ReadRefused, n1) \<Rightarrow> (Some 0, n1, w)
      | (ReadFast i, n1) \<Rightarrow> read_wait M others clk turns i n1 w
      | (ReadSlow req peers, n1) \<Rightarrow>
          let (acc, w1) = read_poll T req (if rn_transport n1 then peers else []) (1, rq_term req) w;
              (n2, w2) = others n1 w1
          in case read_finish clk req acc n2 of
               (None, n3) \<Rightarrow> (Some 0, n3, w2)
             | (Some i, n3) \<Rightarrow> read_wait M others clk turns i n3 w2)"

section \<open>The write path\<close>

definition submit_append :: "LogEntry \<Rightarrow> 'sm RaftNode \<Rightarrow> LogIndex option \<times> 'sm RaftNode" where
  "submit_append e n =
     (if rn_log n = None \<or> rn_role n \<noteq> Leader then (None, n)
      else
        let n1 = append_log (e\<lparr>entry_term := term_of n, entry_index := 0\<rparr>) False n
        in (Some (log_last n1), n1))"

text \<open>Joining the group: true for the caller that becomes its coordinator.\<close>

definition group_join :: "LogIndex \<Rightarrow> 'sm RaftNode \<Rightarrow> bool \<times> 'sm RaftNode" where
  "group_join i n =
     (\<not> rn_group_active n, n\<lparr>rn_group_active := True, rn_group_waiters := rn_group_waiters n @ [i]\<rparr>)"

definition group_take :: "'sm RaftNode \<Rightarrow> LogIndex list \<times> 'sm RaftNode" where
  "group_take n = (rn_group_waiters n, n\<lparr>rn_group_waiters := [], rn_group_active := False\<rparr>)"

text \<open>A round of the coordinator: replicate, apply, and compare with the largest index of the batch. The
  lock is free before, during and after the replication. An exception ends the rounds with 0.\<close>

primrec coordinator_rounds ::
  "'sm StateMachineOps \<Rightarrow> 'w Transport \<Rightarrow> ('sm, 'w) Others \<Rightarrow> Clock \<Rightarrow> LogIndex list \<Rightarrow> nat \<Rightarrow> LogIndex \<Rightarrow> 'sm RaftNode \<Rightarrow> 'w
     \<Rightarrow> LogIndex \<times> 'sm RaftNode \<times> 'w" where
  "coordinator_rounds M T others clk batch 0 applied n w = (applied, n, w)"
| "coordinator_rounds M T others clk batch (Suc k) applied n w =
     (let (n0, w0) = others n w;
          (_, n1, w1) = ReplicateLog M T others clk True n0 w0
      in if rn_crashed n1 then (0, n1\<lparr>rn_crashed := False\<rparr>, w1)
         else
           let (n2, w2) = others n1 w1;
               n3 = snd (ApplyCommittedLogs M clk n2)
           in if rn_crashed n3 then (0, n3\<lparr>rn_crashed := False\<rparr>, w2)
              else if foldl max 0 batch \<le> rn_last_applied n3 then (rn_last_applied n3, n3, w2)
              else coordinator_rounds M T others clk batch k (rn_last_applied n3) n3 w2)"

definition waiter_result :: "LogIndex \<Rightarrow> LogIndex \<Rightarrow> ApplyResult" where
  "waiter_result applied i = (if i \<le> applied then apply_result ApplyOp_OK 1 else apply_result ApplyOp_ERROR 0)"

text \<open>The results of the waiters of the batch, in order.\<close>

definition CoordinatorCommit ::
  "'sm StateMachineOps \<Rightarrow> 'w Transport \<Rightarrow> ('sm, 'w) Others \<Rightarrow> Clock \<Rightarrow> 'sm RaftNode \<Rightarrow> 'w
     \<Rightarrow> (LogIndex \<times> ApplyResult) list \<times> 'sm RaftNode \<times> 'w" where
  "CoordinatorCommit M T others clk n w =
     (let (batch, n1) = group_take n;
          (applied, n2, w2) = coordinator_rounds M T others clk batch 16 0 (on_log ls_Persist n1) w
      in (map (\<lambda>i. (i, waiter_result applied i)) batch, n2, w2))"

text \<open>A caller that joins a running group is released by its coordinator: it has no result of its own
  here. A waiter's result depends only on its index.\<close>

primrec submit_attempts ::
  "'sm StateMachineOps \<Rightarrow> 'w Transport \<Rightarrow> ('sm, 'w) Others \<Rightarrow> Clock \<Rightarrow> LogIndex \<Rightarrow> nat \<Rightarrow> 'sm RaftNode \<Rightarrow> 'w
     \<Rightarrow> ApplyResult option \<times> 'sm RaftNode \<times> 'w" where
  "submit_attempts M T others clk i 0 n w = (Some (apply_result ApplyOp_ERROR 0), n, w)"
| "submit_attempts M T others clk i (Suc k) n w =
     (let (coordinator, n1) = group_join i n in
      if \<not> coordinator then (None, n1, w)
      else
        let (n1', w1) = others n1 w;
            (results, n2, w2) = CoordinatorCommit M T others clk n1' w1
        in case map_of results i of
             Some r \<Rightarrow> (Some r, n2, w2)
           | None \<Rightarrow>
               let (n3, w3) = others n2 w2
               in if i \<le> rn_last_applied n3 then (Some (apply_result ApplyOp_OK 1), n3, w3)
                  else let (n4, w4) = others n3 w3 in submit_attempts M T others clk i k n4 w4)"

definition SubmitEntry ::
  "'sm StateMachineOps \<Rightarrow> 'w Transport \<Rightarrow> ('sm, 'w) Others \<Rightarrow> Clock \<Rightarrow> LogEntry \<Rightarrow> 'sm RaftNode \<Rightarrow> 'w
     \<Rightarrow> ApplyResult option \<times> 'sm RaftNode \<times> 'w" where
  "SubmitEntry M T others clk e n w =
     (case submit_append e n of
        (None, n1) \<Rightarrow> (Some (apply_result ApplyOp_ERROR 0), n1, w)
      | (Some i, n1) \<Rightarrow> let (n2, w2) = others n1 w in submit_attempts M T others clk i 8 n2 w2)"

section \<open>Snapshots\<close>

definition mgr_new :: "string \<Rightarrow> bool \<Rightarrow> bool \<Rightarrow> directory \<Rightarrow> directory \<times> SnapshotManager" where
  "mgr_new dir has_sm has_log d =
     (let path = with_slash dir; (d1, meta) = sms_Load (d, sms_new (path @ ''snapshot.meta''))
      in (d1, \<lparr>mgr_dir = path, mgr_meta = meta, mgr_log_gap = 100000, mgr_has_sm = has_sm, mgr_has_log = has_log\<rparr>))"

text \<open>The manager works on the node's state machine, log and directory; it is run with the node's lock, or
  by its own fiber.\<close>

definition CreateSnapshot ::
  "'sm StateMachineOps \<Rightarrow> Clock \<Rightarrow> LogIndex \<Rightarrow> SnapshotManager \<Rightarrow> 'sm RaftNode \<Rightarrow> bool \<times> SnapshotManager \<times> 'sm RaftNode" where
  "CreateSnapshot M clk bound_index mgr n =
     (case (rn_sm n, rn_log n) of
        (Some s, Some l) \<Rightarrow>
          if \<not> mgr_has_sm mgr \<or> \<not> mgr_has_log mgr then (False, mgr, n)
          else
            let l_last = ls_LastIndex l;
                bound = (if 0 < bound_index then min bound_index l_last else l_last);
                bound_term = (if bound = l_last then ls_LastTerm l else ls_GetTerm l bound);
                (ok, d) = sm_SaveSnapshot M (mgr_dir mgr @ ''snapshot.bin'') s (rn_disk n)
            in if \<not> ok then (False, mgr, n\<lparr>rn_disk := d\<rparr>)
               else
                 let (d1, meta) = sms_SetMeta \<lparr>meta_index = bound, meta_term = bound_term, meta_timestamp = wall_ms clk\<rparr>
                                    (d, mgr_meta mgr)
                 in (True, mgr\<lparr>mgr_meta := meta\<rparr>, on_log (ls_CompactLogs bound bound_term) (n\<lparr>rn_disk := d1\<rparr>))
      | _ \<Rightarrow> (False, mgr, n))"

definition ScheduleCreateIfNeeded ::
  "'sm StateMachineOps \<Rightarrow> Clock \<Rightarrow> LogIndex \<Rightarrow> SnapshotManager \<Rightarrow> 'sm RaftNode \<Rightarrow> bool \<times> SnapshotManager \<times> 'sm RaftNode" where
  "ScheduleCreateIfNeeded M clk bound_index mgr n =
     (if \<not> mgr_has_log mgr \<or> \<not> mgr_has_sm mgr then (False, mgr, n)
      else if log_last n < add64 (meta_index (sms_meta (mgr_meta mgr))) (mgr_log_gap mgr) then (False, mgr, n)
      else CreateSnapshot M clk bound_index mgr n)"

definition CreateSnapshotIfNeeded :: "'sm StateMachineOps \<Rightarrow> Clock \<Rightarrow> 'sm RaftNode \<Rightarrow> bool \<times> 'sm RaftNode" where
  "CreateSnapshotIfNeeded M clk n =
     (case rn_snapshot_manager n of
        None \<Rightarrow> (False, n)
      | Some mgr \<Rightarrow>
          let (ok, mgr1, n1) = ScheduleCreateIfNeeded M clk (rn_last_applied n) mgr n;
              n2 = n1\<lparr>rn_snapshot_manager := Some mgr1\<rparr>;
              m = sms_meta (mgr_meta mgr1)
          in (ok, if ok \<and> rn_last_snapshot_index n2 < meta_index m
                  then n2\<lparr>rn_last_snapshot_index := meta_index m, rn_last_snapshot_term := meta_term m\<rparr> else n2))"

text \<open>One turn of the manager's fiber.\<close>

definition snapshot_loop_turn :: "'sm StateMachineOps \<Rightarrow> Clock \<Rightarrow> 'sm RaftNode \<Rightarrow> 'sm RaftNode" where
  "snapshot_loop_turn M clk n =
     (case rn_snapshot_manager n of
        None \<Rightarrow> n
      | Some mgr \<Rightarrow>
          let (_, mgr1, n1) = ScheduleCreateIfNeeded M clk 0 mgr n in n1\<lparr>rn_snapshot_manager := Some mgr1\<rparr>)"

section \<open>Recovery\<close>

definition recover_snapshot :: "'sm StateMachineOps \<Rightarrow> Clock \<Rightarrow> string \<Rightarrow> 'sm RaftNode \<Rightarrow> 'sm RaftNode" where
  "recover_snapshot M clk path n =
     (case rn_sm n of
        None \<Rightarrow> n
      | Some s \<Rightarrow>
          (case loader_Load path (rn_disk n) of
             ((Load_OK, Some loaded), d) \<Rightarrow>
               let n1 = n\<lparr>rn_disk := d\<rparr>;
                   (ok, s') = sm_LoadSnapshot M (wall_ms clk) (loaded_bin_path loaded) d s;
                   n2 = n1\<lparr>rn_sm := Some s'\<rparr>;
                   i = meta_index (loaded_meta loaded); t = meta_term (loaded_meta loaded)
               in if \<not> ok then n2
                  else
                    on_log (\<lambda>l. ls_PruneCompacted (ls_SetSnapshotAnchor i t l))
                      (on_progress (ap_Update (max (rn_last_applied n2) i))
                        (n2\<lparr>rn_last_applied := max (rn_last_applied n2) i, rn_last_snapshot_index := i,
                           rn_last_snapshot_term := t\<rparr>))
           | (_, d) \<Rightarrow> n\<lparr>rn_disk := d\<rparr>))"

definition SetStoragePath :: "'sm StateMachineOps \<Rightarrow> Clock \<Rightarrow> string \<Rightarrow> 'sm RaftNode \<Rightarrow> 'sm RaftNode" where
  "SetStoragePath M clk path0 n0 =
     (let path = with_slash path0;
          n1 = on_storage rs_Load (n0\<lparr>rn_snapshot_dir := path, rn_storage := rs_new (path @ ''meta.json'')\<rparr>);
          n2 = n1\<lparr>rn_config_state := rs_config_state (rn_storage n1), rn_joint := rs_joint_config (rn_storage n1)\<rparr>;
          n3 = on_progress ap_Load (n2\<lparr>rn_apply_progress := ap_new (path @ ''apply.meta'')\<rparr>);
          n4 = recover_snapshot M clk path (n3\<lparr>rn_last_applied := ap_last_applied (rn_apply_progress n3)\<rparr>)
      in n4\<lparr>rn_commit_index := rn_last_applied n4\<rparr>)"

definition ReplayUnappliedLogs :: "'sm StateMachineOps \<Rightarrow> Clock \<Rightarrow> 'sm RaftNode \<Rightarrow> 'sm RaftNode" where
  "ReplayUnappliedLogs M clk n =
     (if rn_log n = None \<or> rn_sm n = None then n
      else if log_last n \<le> rn_last_applied n then n
      else if rn_role n \<noteq> Leader \<and> GetPeerIds n \<noteq> [] then n
      else snd (ApplyCommittedLogs M clk (n\<lparr>rn_commit_index := log_last n\<rparr>)))"

definition ResetApplyProgress :: "LogIndex \<Rightarrow> 'sm RaftNode \<Rightarrow> 'sm RaftNode" where
  "ResetApplyProgress to_index n = on_progress (ap_Reset to_index) (n\<lparr>rn_last_applied := to_index\<rparr>)"

end
