(* ===== verification/Raft_Votes.thy ===== *)
theory Raft_Votes
  imports Raft_Client "HOL-Library.Sublist"
begin

text \<open>
  What every locked section of a node keeps of its term and vote. \<open>disciplined n n'\<close> says that going from
  \<open>n\<close> to \<open>n'\<close> the term does not go down, a vote given in a term is not changed in that term, leadership is
  not gained, a node that became a candidate voted for itself, and the hard-state file on stable storage
  still holds term and vote. It is reflexive and transitive, so methods get it from their parts.
\<close>

named_theorems discipline \<open>steps of a node that keep the vote discipline\<close>

section \<open>The hard-state file\<close>

definition hard_file :: "string \<Rightarrow> bool" where
  "hard_file p \<longleftrightarrow> suffix ''meta.json'' p"

definition other_file :: "string \<Rightarrow> bool" where
  "other_file p \<longleftrightarrow> suffix ''apply.meta'' p \<or> suffix ''snapshot.meta'' p"

definition paths_ok :: "'sm RaftNode \<Rightarrow> bool" where
  "paths_ok n \<longleftrightarrow> hard_file (rs_path (rn_storage n)) \<and> other_file (ap_path (rn_apply_progress n))
     \<and> pred_option (\<lambda>mgr. other_file (sms_path (mgr_meta mgr))) (rn_snapshot_manager n)"

definition same_vote :: "RaftStorage \<Rightarrow> RaftStorage \<Rightarrow> bool" where
  "same_vote s s' \<longleftrightarrow> rs_path s' = rs_path s \<and> rs_current_term s' = rs_current_term s \<and> rs_voted_for s' = rs_voted_for s
     \<and> (rs_ok s \<longrightarrow> rs_ok s')"

text \<open>The file is fully synced and holds a state with the same term and vote.\<close>

definition on_disk :: "RaftStorage \<Rightarrow> directory \<Rightarrow> bool" where
  "on_disk s d \<longleftrightarrow>
     (\<exists>s'. same_vote s s'
        \<and> map_of d (rs_path s) = Some \<lparr>f_data = rs_Serialize s', f_synced = length (rs_Serialize s')\<rparr>)"

definition vote_durable :: "'sm RaftNode \<Rightarrow> bool" where
  "vote_durable n \<longleftrightarrow> paths_ok n \<and> on_disk (rn_storage n) (rn_disk n)"

lemma hard_file_other:
  assumes "hard_file p"
  shows "p \<noteq> x @ ''snapshot.bin''" "p \<noteq> x @ ''snapshot.bin.tmp''" "p \<noteq> x @ ''snapshot.recv.tmp''"
    "other_file y \<Longrightarrow> p \<noteq> y" "other_file y \<Longrightarrow> p \<noteq> y @ ''.tmp''"
proof -
  obtain q where q: "p = q @ ''meta.json''" using assms by (auto simp: hard_file_def suffix_def)
  have neq: "a \<noteq> b" if "rev a ! k \<noteq> rev b ! k" for a b :: string and k using that by auto
  show "p \<noteq> x @ ''snapshot.bin''" unfolding q by (rule neq [of _ 1]) simp
  show "p \<noteq> x @ ''snapshot.bin.tmp''" "p \<noteq> x @ ''snapshot.recv.tmp''" unfolding q by (rule neq [of _ 0], simp)+
  show "other_file y \<Longrightarrow> p \<noteq> y" "other_file y \<Longrightarrow> p \<noteq> y @ ''.tmp''"
    unfolding q other_file_def suffix_def by (auto intro!: neq [of _ 0])
qed

lemma map_of_replace_other:
  "name \<noteq> path \<Longrightarrow> name \<noteq> path @ ''.tmp'' \<Longrightarrow> map_of (replace_file path content d) name = map_of d name"
  by (simp add: replace_file_def WriteAndFsync_def map_of_fs_other)

lemma map_of_HandleChunk:
  assumes "hard_file p"
  shows "map_of (snd (HandleChunk dir req d)) p = map_of d p"
proof -
  have "p \<noteq> recv_tmp dir" "p \<noteq> recv_bin dir"
    unfolding recv_tmp_def recv_bin_def by (rule hard_file_other [OF assms])+
  then show ?thesis by (simp add: HandleChunk_def Let_def map_of_fs_other)
qed

lemma sw_AddBatch_other:
  "p \<noteq> sw_tmp (snd dw) \<Longrightarrow> map_of (fst (snd (sw_AddBatch es dw))) p = map_of (fst dw) p
     \<and> sw_path (snd (snd (sw_AddBatch es dw))) = sw_path (snd dw)"
proof (induction es arbitrary: dw)
  case (Cons e es)
  obtain d w where dw: "dw = (d, w)" by (cases dw)
  show ?case
    using Cons.prems Cons.IH [of "(fs_append (sw_tmp w) (snapshot_record e) d, w)"]
    by (simp add: dw sw_Add_def map_of_fs_other)
qed simp

lemma sw_Finalize_other:
  "p \<noteq> sw_tmp (snd dw) \<Longrightarrow> p \<noteq> sw_path (snd dw)
     \<Longrightarrow> map_of (fst (snd (sw_Finalize k dw))) p = map_of (fst dw) p"
  by (cases dw) (simp add: sw_Finalize_def map_of_fs_other)

lemma sw_Open_other:
  assumes "p \<noteq> path @ ''.tmp''"
  shows "map_of (fst (sw_Open (d, sw_new path))) p = map_of d p" "sw_path (snd (sw_Open (d, sw_new path))) = path"
  using assms by (simp_all add: sw_Open_def sw_new_def sw_tmp_def map_of_fs_other)

lemma map_of_SaveSnapshot:
  assumes "p \<noteq> path" "p \<noteq> path @ ''.tmp''"
  shows "map_of (snd (SaveSnapshot path s d)) p = map_of d p"
proof -
  let ?b = "sw_AddBatch (concat (map state_Export (kv_shards s))) (sw_Open (d, sw_new path))"
  have b: "map_of (fst (snd ?b)) p = map_of d p" "sw_path (snd (snd ?b)) = path"
    using sw_AddBatch_other [of p "sw_Open (d, sw_new path)" "concat (map state_Export (kv_shards s))"]
      sw_Open_other [OF assms(2), of d] assms(2)
    by (simp_all add: sw_tmp_def)
  show ?thesis
    using b sw_Finalize_other [of p "snd ?b"] assms by (simp add: SaveSnapshot_def Let_def case_prod_beta sw_tmp_def)
qed

locale local_snapshots =
  fixes M :: "'sm StateMachineOps"
  assumes save_local: "hard_file p \<Longrightarrow> map_of (snd (sm_SaveSnapshot M (dir @ ''snapshot.bin'') s d)) p = map_of d p"

section \<open>The discipline\<close>

definition disciplined :: "'sm RaftNode \<Rightarrow> 'sm RaftNode \<Rightarrow> bool" where
  "disciplined n n' \<longleftrightarrow>
     rn_node_id n' = rn_node_id n
   \<and> rs_path (rn_storage n') = rs_path (rn_storage n)
   \<and> term_of n \<le> term_of n'
   \<and> (term_of n' = term_of n \<longrightarrow> vote_of n = [] \<or> vote_of n' = vote_of n)
   \<and> (rn_role n' = Leader \<longrightarrow> rn_role n = Leader \<and> term_of n' = term_of n \<and> vote_of n' = vote_of n)
   \<and> (rn_role n' = Candidate \<longrightarrow>
        rn_role n = Candidate \<and> term_of n' = term_of n \<and> vote_of n' = vote_of n \<or> vote_of n' = rn_node_id n)
   \<and> (vote_durable n \<longrightarrow> vote_durable n')"

lemma disciplinedD:
  assumes "disciplined n n'"
  shows "rn_node_id n' = rn_node_id n" "term_of n \<le> term_of n'"
    "term_of n' = term_of n \<Longrightarrow> vote_of n = [] \<or> vote_of n' = vote_of n"
    "rn_role n' = Leader \<Longrightarrow> rn_role n = Leader" "rn_role n' = Leader \<Longrightarrow> term_of n' = term_of n"
    "rn_role n' = Leader \<Longrightarrow> vote_of n' = vote_of n"
    "rn_role n' = Candidate \<Longrightarrow> rn_role n = Candidate \<and> vote_of n' = vote_of n \<or> vote_of n' = rn_node_id n"
    "vote_durable n \<Longrightarrow> vote_durable n'"
  using assms by (simp_all add: disciplined_def) blast

lemma disciplined_refl [simp, discipline]: "disciplined n n"
  by (simp add: disciplined_def)

lemma disciplined_trans [trans]: "disciplined n n' \<Longrightarrow> disciplined n' n'' \<Longrightarrow> disciplined n n''"
  unfolding disciplined_def by (elim conjE, intro conjI) (simp | linarith | metis order_antisym | metis)+

text \<open>Changes that leave role, hard state and files alone.\<close>

lemma disciplined_same:
  assumes "rn_node_id n' = rn_node_id n" "rn_role n' = rn_role n" "rn_storage n' = rn_storage n"
    "rn_disk n' = rn_disk n" "ap_path (rn_apply_progress n') = ap_path (rn_apply_progress n)"
    "rn_snapshot_manager n' = rn_snapshot_manager n"
  shows "disciplined n n'"
  using assms by (auto simp: disciplined_def vote_durable_def paths_ok_def)

lemma disciplined_after:
  assumes "disciplined n m"
    "rn_node_id n' = rn_node_id m" "rn_role n' = rn_role m" "rn_storage n' = rn_storage m"
    "rn_disk n' = rn_disk m" "ap_path (rn_apply_progress n') = ap_path (rn_apply_progress m)"
    "rn_snapshot_manager n' = rn_snapshot_manager m"
  shows "disciplined n n'"
  using disciplined_trans [OF assms(1) disciplined_same [OF assms(2-7)]] .

lemma on_log_fields [simp]:
  "rn_node_id (on_log f n) = rn_node_id n" "rn_role (on_log f n) = rn_role n" "rn_storage (on_log f n) = rn_storage n"
  "rn_disk (on_log f n) = rn_disk n" "rn_apply_progress (on_log f n) = rn_apply_progress n"
  "rn_snapshot_manager (on_log f n) = rn_snapshot_manager n" "rn_config (on_log f n) = rn_config n"
  "rn_config_state (on_log f n) = rn_config_state n"
  by (simp_all add: on_log_def)

lemma append_log_fields [simp]:
  "rn_node_id (append_log e b n) = rn_node_id n" "rn_role (append_log e b n) = rn_role n"
  "rn_storage (append_log e b n) = rn_storage n" "rn_disk (append_log e b n) = rn_disk n"
  "rn_apply_progress (append_log e b n) = rn_apply_progress n"
  "rn_snapshot_manager (append_log e b n) = rn_snapshot_manager n"
  by (simp_all add: append_log_def)

section \<open>Roles and terms\<close>

lemma on_storage_fields [simp]:
  "rn_node_id (on_storage f n) = rn_node_id n" "rn_role (on_storage f n) = rn_role n"
  "rn_apply_progress (on_storage f n) = rn_apply_progress n"
  "rn_snapshot_manager (on_storage f n) = rn_snapshot_manager n"
  "rn_config (on_storage f n) = rn_config n" "rn_config_state (on_storage f n) = rn_config_state n"
  by (simp_all add: on_storage_def split: prod.split)

lemma rs_Flush_snd [simp]: "snd (rs_Flush (d, s)) = s"
  by (simp add: rs_Flush_def)

lemma storage_updates [simp]:
  "rn_storage (on_storage (rs_SetState t v) n) = (rn_storage n)\<lparr>rs_current_term := t, rs_voted_for := v\<rparr>"
  "rn_storage (on_storage (rs_set_voted_for v) n) = (rn_storage n)\<lparr>rs_voted_for := v\<rparr>"
  "rn_storage (on_storage (rs_SetJointConfigState cs jc) n)
     = (rn_storage n)\<lparr>rs_config_state := cs, rs_joint_config := jc\<rparr>"
  by (simp_all add: on_storage_def rs_SetState_def rs_set_voted_for_def rs_SetJointConfigState_def case_prod_beta)

lemma rs_Flush_on_disk: "rs_path s \<noteq> [] \<Longrightarrow> on_disk s (fst (rs_Flush (d, s)))"
  by (auto simp: on_disk_def rs_Flush_def replace_file_synced same_vote_def)

lemma vote_durable_path: "vote_durable n \<Longrightarrow> rs_path (rn_storage n) \<noteq> []"
  by (auto simp: vote_durable_def paths_ok_def hard_file_def suffix_def)

lemma vote_durable_flush:
  assumes "vote_durable n" "f (rn_disk n, rn_storage n) = rs_Flush (rn_disk n, s')" "rs_path s' = rs_path (rn_storage n)"
  shows "vote_durable (on_storage f n)"
proof -
  have st: "rn_storage (on_storage f n) = s'" "rn_disk (on_storage f n) = fst (rs_Flush (rn_disk n, s'))"
    by (simp_all add: on_storage_def assms(2) case_prod_beta)
  have "on_disk s' (fst (rs_Flush (rn_disk n, s')))"
    using vote_durable_path [OF assms(1)] assms(3) by (simp add: rs_Flush_on_disk)
  then show ?thesis using assms by (simp add: vote_durable_def paths_ok_def st)
qed

lemma vote_durable_updates [simp]:
  "vote_durable n \<Longrightarrow> vote_durable (on_storage (rs_SetState t v) n)"
  "vote_durable n \<Longrightarrow> vote_durable (on_storage (rs_set_voted_for v) n)"
  "vote_durable n \<Longrightarrow> vote_durable (on_storage (rs_SetJointConfigState cs jc) n)"
  by (erule vote_durable_flush [where s' = "(rn_storage n)\<lparr>rs_current_term := t, rs_voted_for := v\<rparr>"],
      simp_all add: rs_SetState_def,
      erule vote_durable_flush [where s' = "(rn_storage n)\<lparr>rs_voted_for := v\<rparr>"],
      simp_all add: rs_set_voted_for_def,
      erule vote_durable_flush [where s' = "(rn_storage n)\<lparr>rs_config_state := cs, rs_joint_config := jc\<rparr>"],
      simp_all add: rs_SetJointConfigState_def)

lemma CancelTransfer_fields [simp]:
  "rn_node_id (CancelTransfer n) = rn_node_id n" "rn_role (CancelTransfer n) = rn_role n"
  "rn_storage (CancelTransfer n) = rn_storage n" "rn_disk (CancelTransfer n) = rn_disk n"
  "rn_apply_progress (CancelTransfer n) = rn_apply_progress n"
  "rn_snapshot_manager (CancelTransfer n) = rn_snapshot_manager n"
  "rn_config (CancelTransfer n) = rn_config n" "rn_config_state (CancelTransfer n) = rn_config_state n"
  by (simp_all add: CancelTransfer_def)

lemma SetRoleLocked_fields [simp]:
  "rn_node_id (SetRoleLocked r n) = rn_node_id n" "rn_role (SetRoleLocked r n) = r"
  "rn_storage (SetRoleLocked r n) = rn_storage n" "rn_disk (SetRoleLocked r n) = rn_disk n"
  "rn_apply_progress (SetRoleLocked r n) = rn_apply_progress n"
  "rn_snapshot_manager (SetRoleLocked r n) = rn_snapshot_manager n"
  "rn_config (SetRoleLocked r n) = rn_config n" "rn_config_state (SetRoleLocked r n) = rn_config_state n"
  by (simp_all add: SetRoleLocked_def Let_def StopHeartbeat_def StartHeartbeat_def split: RaftRole.split)

lemma vote_durable_cong:
  "rn_storage n' = rn_storage n \<Longrightarrow> rn_disk n' = rn_disk n
     \<Longrightarrow> ap_path (rn_apply_progress n') = ap_path (rn_apply_progress n)
     \<Longrightarrow> rn_snapshot_manager n' = rn_snapshot_manager n \<Longrightarrow> vote_durable n' \<longleftrightarrow> vote_durable n"
  by (simp add: vote_durable_def paths_ok_def)

lemma vote_durable_SetRoleLocked [simp]: "vote_durable (SetRoleLocked r n) \<longleftrightarrow> vote_durable n"
  by (rule vote_durable_cong) simp_all

lemma disciplined_follower:
  assumes "disciplined n m"
  shows "disciplined n (SetRoleLocked Follower m)"
  using assms by (simp add: disciplined_def)

lemma BecomeFollower_discipline [discipline]: "disciplined n (BecomeFollower t n)"
  by (simp add: disciplined_def BecomeFollower_def)

lemma BecomeCandidate_discipline [discipline]:
  "disciplined n (BecomeCandidate n)" "disciplined n (BecomeCandidateNewTerm n)"
  by (simp_all add: disciplined_def BecomeCandidate_def BecomeCandidateNewTerm_def)

lemma OnElectionTimeout_discipline [discipline]: "disciplined n (OnElectionTimeout n)"
  by (simp add: OnElectionTimeout_def discipline)

section \<open>Applying\<close>

lemma on_progress_fields [simp]:
  "rn_node_id (on_progress f n) = rn_node_id n" "rn_role (on_progress f n) = rn_role n"
  "rn_storage (on_progress f n) = rn_storage n" "rn_snapshot_manager (on_progress f n) = rn_snapshot_manager n"
  "rn_config (on_progress f n) = rn_config n" "rn_config_state (on_progress f n) = rn_config_state n"
  "rn_disk (on_progress f n) = fst (f (rn_disk n, rn_apply_progress n))"
  "rn_apply_progress (on_progress f n) = snd (f (rn_disk n, rn_apply_progress n))"
  by (simp_all add: on_progress_def split: prod.split)

text \<open>Writing other files.\<close>

lemma disciplined_files:
  assumes "rn_node_id n' = rn_node_id n" "rn_role n' = rn_role n" "rn_storage n' = rn_storage n"
    and "paths_ok n \<Longrightarrow> paths_ok n'"
    and "\<And>p. paths_ok n \<Longrightarrow> hard_file p \<Longrightarrow> map_of (rn_disk n') p = map_of (rn_disk n) p"
  shows "disciplined n n'"
proof -
  have "vote_durable n'" if d: "vote_durable n"
  proof -
    have p: "paths_ok n" using d by (simp add: vote_durable_def)
    then have "hard_file (rs_path (rn_storage n))" by (simp add: paths_ok_def)
    from assms(5) [OF p this] show ?thesis
      using d assms(4) [OF p] by (simp add: vote_durable_def on_disk_def assms(3))
  qed
  then show ?thesis using assms(1-3) by (simp add: disciplined_def)
qed

lemma map_of_replace_meta:
  "hard_file p \<Longrightarrow> other_file q \<Longrightarrow> map_of (replace_file q content d) p = map_of d p"
  using hard_file_other(4,5) [of p q] map_of_replace_other [of p q content d] by blast

lemma map_of_ap_Flush:
  "hard_file p \<Longrightarrow> other_file (ap_path a) \<Longrightarrow> map_of (fst (ap_Flush (d, a))) p = map_of d p"
  by (simp add: ap_Flush_def map_of_replace_meta)

lemma ap_Flush_snd [simp]: "snd (ap_Flush (d, a)) = a"
  by (simp add: ap_Flush_def)

lemma on_progress_files:
  assumes "\<And>d. f (d, rn_apply_progress n) = ap_Flush (d, a)" "ap_path a = ap_path (rn_apply_progress n)"
  shows "disciplined n (on_progress f n)"
  by (rule disciplined_files) (simp_all add: assms paths_ok_def map_of_ap_Flush)

lemma on_progress_discipline [discipline]:
  "disciplined n (on_progress ap_Flush n)" "disciplined n (on_progress (ap_Update i) n)"
  "disciplined n (on_progress (ap_Reset i) n)"
  by (rule on_progress_files [OF refl refl], (rule on_progress_files, simp add: ap_Update_def ap_Reset_def, simp)+)

lemma set_joint_discipline:
  assumes "disciplined n m"
  shows "disciplined n (on_storage (rs_SetJointConfigState cs jc) m)"
  using assms by (rule disciplined_trans) (simp add: disciplined_def)

lemma apply_config_discipline: "disciplined n (apply_config c i n)"
  unfolding apply_config_def Let_def
  by (simp, intro conjI impI; rule set_joint_discipline, rule disciplined_same; simp)

lemma apply_one_discipline: "disciplined n (snd (apply_one M clk e (r, n)))"
  by (auto simp: apply_one_def Let_def case_prod_beta split: option.split
      intro: disciplined_same disciplined_after [OF apply_config_discipline])

lemma apply_batch_discipline: "disciplined n (snd (fold (apply_one M clk) es (r, n)))"
proof (induction es arbitrary: r n)
  case (Cons e es)
  obtain r1 n1 where 1: "apply_one M clk e (r, n) = (r1, n1)" by (cases "apply_one M clk e (r, n)")
  then have "disciplined n n1" using apply_one_discipline [of n M clk e r] by simp
  then show ?case using Cons.IH [of n1 r1] 1 disciplined_trans by auto
qed simp

lemma flush_progress_discipline: "disciplined n (flush_progress clk n)"
proof -
  let ?n = "n\<lparr>rn_apply_progress := ap_UpdateMemoryOnly (rn_last_applied n) (rn_apply_progress n)\<rparr>"
  have 1: "disciplined n ?n" by (rule disciplined_same) (simp_all add: ap_UpdateMemoryOnly_def)
  have 2: "disciplined n (on_log f ?n)" for f by (rule disciplined_after [OF 1]) simp_all
  have 3: "disciplined n (on_progress ap_Flush m\<lparr>rn_last_meta_flush := x\<rparr>)" if "disciplined n m" for m x
    by (rule disciplined_after [OF disciplined_trans [OF that on_progress_discipline(1)]]) simp_all
  show ?thesis using 1 2 by (auto simp: flush_progress_def Let_def intro!: 3)
qed

lemma apply_loop_discipline: "disciplined n (snd (apply_loop M clk k (r, n)))"
proof (induction k arbitrary: r n)
  case (Suc k)
  have step: "disciplined n (snd (apply_loop M clk k rn))" if "disciplined n (snd rn)" for rn
    using disciplined_trans [OF that Suc.IH [of "snd rn" "fst rn"]] by simp
  have batch: "disciplined n (snd (fold (apply_one M clk) es (r, n)))" for es by (rule apply_batch_discipline)
  show ?case
    by (auto simp: Let_def case_prod_beta split: option.split
        intro!: step batch disciplined_trans [OF batch flush_progress_discipline])
qed simp

lemma ApplyCommittedLogs_discipline [discipline]: "disciplined n (snd (ApplyCommittedLogs M clk n))"
  by (simp add: ApplyCommittedLogs_def apply_loop_discipline)

lemma disciplined_apply:
  "disciplined n m \<Longrightarrow> disciplined n (snd (ApplyCommittedLogs M clk m))"
  by (erule disciplined_trans) (rule ApplyCommittedLogs_discipline)

section \<open>Handlers\<close>

lemma reset_timer_discipline: "disciplined n m \<Longrightarrow> disciplined n (reset_timer m)"
  by (erule disciplined_after) (simp_all add: reset_timer_def)

lemma disciplined_commit:
  "disciplined n m \<Longrightarrow> disciplined n (m\<lparr>rn_commit_index := i\<rparr>)" "disciplined n m \<Longrightarrow> disciplined n (m\<lparr>rn_log := l\<rparr>)"
  by (erule disciplined_after; simp)+

lemma disciplined_BecomeFollower: "disciplined n m \<Longrightarrow> disciplined n (BecomeFollower t m)"
  by (erule disciplined_trans) (rule BecomeFollower_discipline)

lemma OnHeartbeat_discipline [discipline]: "disciplined n (snd (OnHeartbeat M clk req n))"
  unfolding OnHeartbeat_def Let_def
  by (auto intro!: reset_timer_discipline disciplined_apply disciplined_commit discipline)

lemma OnAppendEntries_discipline [discipline]: "disciplined n (snd (OnAppendEntries M clk req n))"
proof -
  define m where "m = (if term_of n < aq_term req then BecomeFollower (aq_term req) n
      else if rn_role n \<noteq> Leader then reset_timer n else n)"
  have m: "disciplined n m" by (simp add: m_def discipline reset_timer_discipline)
  have a: "disciplined n (snd (ApplyCommittedLogs M clk (m\<lparr>rn_log := x, rn_commit_index := i\<rparr>)))" for x i
    by (rule disciplined_apply, rule disciplined_commit, rule disciplined_commit, rule m)
  show ?thesis
    unfolding OnAppendEntries_def Let_def m_def [symmetric] case_prod_beta
    using m a disciplined_commit(2) [OF m] by (simp split: option.split)
qed

lemma install_complete_discipline: "disciplined n (install_complete req n)"
proof -
  let ?n = "n\<lparr>rn_last_applied := iq_last_included_index req,
      rn_commit_index := max (rn_commit_index n) (iq_last_included_index req),
      rn_last_snapshot_index := iq_last_included_index req, rn_last_snapshot_term := iq_last_included_term req\<rparr>"
  have "disciplined n ?n" by (rule disciplined_same) simp_all
  then have "disciplined n (on_progress (ap_Update (iq_last_included_index req)) ?n)"
    by (rule disciplined_trans) (rule on_progress_discipline)
  then show ?thesis unfolding install_complete_def Let_def by (rule disciplined_after) simp_all
qed

lemma chunk_discipline:
  "disciplined n (n\<lparr>rn_disk := snd (HandleChunk dir req (rn_disk n))\<rparr>)"
  by (rule disciplined_files) (simp_all add: paths_ok_def map_of_HandleChunk)

lemma OnInstallSnapshot_discipline [discipline]: "disciplined n (snd (OnInstallSnapshot M clk req n))"
proof -
  have c: "disciplined n (m\<lparr>rn_disk := snd (HandleChunk dir req (rn_disk m))\<rparr>)" if "disciplined n m" for m dir
    using that chunk_discipline by (rule disciplined_trans)
  have s: "disciplined n (m\<lparr>rn_sm := x\<rparr>)" if "disciplined n m" for m x
    using that by (rule disciplined_after) simp_all
  have i: "disciplined n (install_complete req m)" if "disciplined n m" for m
    using that install_complete_discipline by (rule disciplined_trans)
  show ?thesis
    unfolding OnInstallSnapshot_def Let_def case_prod_beta
    by (auto split: option.split intro!: c s i discipline)
qed

section \<open>The leader's rounds\<close>

lemma commit_candidate_discipline: "disciplined n (commit_candidate l i n)"
  by (auto simp: commit_candidate_def Let_def intro!: disciplined_commit)

lemma AdvanceCommitIndexLocked_discipline [discipline]: "disciplined n (AdvanceCommitIndexLocked n)"
  by (auto simp: AdvanceCommitIndexLocked_def AdvanceCommitIndexJoint_def commit_candidate_discipline
      split: option.split)

lemma MaybeAutoFinalizeJoint_discipline [discipline]: "disciplined n (MaybeAutoFinalizeJoint n)"
  by (auto simp: MaybeAutoFinalizeJoint_def split: option.split intro!: disciplined_same)

lemma disciplined_peers: "disciplined n m \<Longrightarrow> disciplined n (m\<lparr>rn_peers := a\<rparr>)"
  by (erule disciplined_after) simp_all

lemma rep_begin_discipline [discipline]: "disciplined n (snd (rep_begin n))"
  by (auto simp: rep_begin_def ResizePeerArrays_def Let_def split: option.split intro!: disciplined_same)

lemma rep_finish_discipline [discipline]: "disciplined n (snd (rep_finish M clk plan rsps n))"
proof -
  have a: "disciplined n (MaybeAutoFinalizeJoint (AdvanceCommitIndexLocked (n\<lparr>rn_peers := a\<rparr>)))" for a
    by (rule disciplined_trans [OF disciplined_trans [OF disciplined_peers]]) (rule discipline)+
  show ?thesis
    unfolding rep_finish_def Let_def case_prod_beta by (auto intro!: disciplined_apply a discipline)
qed

lemma StepDown_discipline [discipline]: "disciplined n (StepDown n)"
  by (simp add: StepDown_def discipline)

lemma hb_progress_discipline: "disciplined n (snd (hb_progress acks n))"
proof -
  have "disciplined n ((ResizePeerArrays k n)\<lparr>rn_peers := a\<rparr>)" for k a
    by (rule disciplined_same) (simp_all add: ResizePeerArrays_def Let_def)
  then show ?thesis
    unfolding hb_progress_def Let_def case_prod_beta
    using disciplined_trans AdvanceCommitIndexLocked_discipline by fastforce
qed

lemma disciplined_transfer: "disciplined n m \<Longrightarrow> disciplined n (m\<lparr>rn_transfer := x\<rparr>)"
  by (erule disciplined_after) simp_all

lemma hb_transfer_discipline: "disciplined n (snd (hb_transfer clk need n))"
proof -
  have c: "disciplined n (CheckTransferTimeout clk n)"
    unfolding CheckTransferTimeout_def CancelTransfer_def by (auto intro!: disciplined_transfer)
  show ?thesis
    unfolding hb_transfer_def Let_def using c by (auto simp: set_transfer_state_def intro!: disciplined_transfer)
qed

lemma hb_finish_discipline [discipline]: "disciplined n (snd (hb_finish clk is_loop epoch acks n))"
proof -
  let ?m = "snd (hb_progress acks n)"
  have p: "disciplined n ?m" by (rule hb_progress_discipline)
  then have e: "disciplined n (ExtendLeaderLease clk (?m\<lparr>rn_last_majority_ack := now\<rparr>))" for now
    by (rule disciplined_after) (simp_all add: ExtendLeaderLease_def)
  have t: "disciplined n (snd (hb_transfer clk need m))" if "disciplined n m" for m need
    using that hb_transfer_discipline by (rule disciplined_trans)
  have s: "disciplined n (StepDown ?m)" using p StepDown_discipline by (rule disciplined_trans)
  show ?thesis
    unfolding hb_finish_def Let_def case_prod_beta using p e s by (auto intro!: t discipline)
qed

section \<open>Clients, snapshots\<close>

lemma read_discipline [discipline]:
  "disciplined n (snd (read_begin clk n))" "disciplined n (snd (read_finish clk req acc n))"
proof -
  show "disciplined n (snd (read_begin clk n))"
    unfolding read_begin_def Let_def by (auto intro: disciplined_same)
  have "disciplined n (ExtendLeaderLease clk (n\<lparr>rn_last_majority_ack := now\<rparr>))" for now
    by (rule disciplined_same) (simp_all add: ExtendLeaderLease_def)
  then show "disciplined n (snd (read_finish clk req acc n))"
    unfolding read_finish_def by (auto intro!: discipline)
qed

lemma submit_discipline [discipline]:
  "disciplined n (snd (submit_append e n))" "disciplined n (snd (group_join i n))"
  "disciplined n (snd (group_take n))" "disciplined n (on_log f n)"
  by (auto simp: submit_append_def group_join_def group_take_def Let_def intro!: disciplined_same)

lemma transfer_discipline [discipline]:
  "disciplined n (CancelTransfer n)" "disciplined n (n\<lparr>rn_transfer := x\<rparr>)"
  by (auto simp: CancelTransfer_def intro!: disciplined_transfer)

lemma BeginConfigChange_discipline [discipline]: "disciplined n (snd (BeginConfigChange target n))"
  by (auto simp: BeginConfigChange_def Let_def intro!: disciplined_same)

lemma replay_discipline [discipline]:
  "disciplined n (ReplayUnappliedLogs M clk n)" "disciplined n (ResetApplyProgress i n)"
proof -
  show "disciplined n (ReplayUnappliedLogs M clk n)"
    unfolding ReplayUnappliedLogs_def by (auto intro!: disciplined_apply disciplined_commit)
  have "disciplined n (n\<lparr>rn_last_applied := i\<rparr>)" by (rule disciplined_same) simp_all
  then show "disciplined n (ResetApplyProgress i n)"
    unfolding ResetApplyProgress_def by (rule disciplined_trans) (rule on_progress_discipline)
qed

lemma map_of_sms_Flush:
  "hard_file p \<Longrightarrow> other_file (sms_path a) \<Longrightarrow> map_of (fst (sms_Flush (d, a))) p = map_of d p"
  by (simp add: sms_Flush_def map_of_replace_meta)

lemma sms_Flush_snd [simp]: "snd (sms_Flush (d, a)) = a"
  by (simp add: sms_Flush_def)

lemma sms_SetMeta_files:
  "hard_file p \<Longrightarrow> other_file (sms_path a) \<Longrightarrow> map_of (fst (sms_SetMeta m (d, a))) p = map_of d p"
  "sms_path (snd (sms_SetMeta m (d, a))) = sms_path a"
  by (simp_all add: sms_SetMeta_def map_of_sms_Flush)

lemma sms_Load_files:
  "hard_file p \<Longrightarrow> other_file (sms_path a) \<Longrightarrow> map_of (fst (sms_Load (d, a))) p = map_of d p"
  "sms_path (snd (sms_Load (d, a))) = sms_path a"
  by (simp_all add: sms_Load_def Let_def map_of_sms_Flush)

context local_snapshots
begin

lemma CreateSnapshot_fields:
  assumes "CreateSnapshot M clk b mgr n = (ok, mgr1, n1)" and "other_file (sms_path (mgr_meta mgr))"
  shows "rn_node_id n1 = rn_node_id n" "rn_role n1 = rn_role n" "rn_storage n1 = rn_storage n"
    "rn_apply_progress n1 = rn_apply_progress n" "sms_path (mgr_meta mgr1) = sms_path (mgr_meta mgr)"
    "hard_file p \<Longrightarrow> map_of (rn_disk n1) p = map_of (rn_disk n) p"
  using assms save_local
  by (auto simp: CreateSnapshot_def Let_def case_prod_beta sms_SetMeta_files split: option.splits if_splits)

lemma ScheduleCreateIfNeeded_discipline:
  assumes "ScheduleCreateIfNeeded M clk b mgr n = (ok, mgr1, n1)" and "rn_snapshot_manager n = Some mgr"
  shows "disciplined n (n1\<lparr>rn_snapshot_manager := Some mgr1\<rparr>)"
proof (cases "(ok, mgr1, n1) = (False, mgr, n)")
  case True
  then show ?thesis using assms(2) by (auto intro: disciplined_same)
next
  case False
  then have c: "CreateSnapshot M clk b mgr n = (ok, mgr1, n1)"
    using assms(1) by (auto simp: ScheduleCreateIfNeeded_def split: if_splits)
  have m: "paths_ok n \<Longrightarrow> other_file (sms_path (mgr_meta mgr))" using assms(2) by (simp add: paths_ok_def)
  show ?thesis
  proof (cases "paths_ok n")
    case True
    note f = CreateSnapshot_fields [OF c m [OF True]]
    show ?thesis by (rule disciplined_files) (use f True m [OF True] in \<open>simp_all add: paths_ok_def\<close>)
  next
    case no: False
    have "rn_node_id n1 = rn_node_id n" "rn_role n1 = rn_role n" "rn_storage n1 = rn_storage n"
      using c by (auto simp: CreateSnapshot_def Let_def case_prod_beta split: option.splits if_splits)
    then show ?thesis using no by (auto intro: disciplined_files)
  qed
qed

lemma CreateSnapshotIfNeeded_discipline: "disciplined n (snd (CreateSnapshotIfNeeded M clk n))"
proof (cases "rn_snapshot_manager n")
  case (Some mgr)
  obtain ok mgr1 n1 where s: "ScheduleCreateIfNeeded M clk (rn_last_applied n) mgr n = (ok, mgr1, n1)"
    by (metis prod_cases3)
  note d = ScheduleCreateIfNeeded_discipline [OF s Some]
  have "disciplined n ((n1\<lparr>rn_snapshot_manager := Some mgr1\<rparr>)\<lparr>rn_last_snapshot_index := x, rn_last_snapshot_term := y\<rparr>)" for x y
    using d by (rule disciplined_after) simp_all
  then show ?thesis using d by (simp add: CreateSnapshotIfNeeded_def Some s Let_def)
qed (simp add: CreateSnapshotIfNeeded_def)

lemma snapshot_loop_turn_discipline: "disciplined n (snapshot_loop_turn M clk n)"
proof (cases "rn_snapshot_manager n")
  case (Some mgr)
  obtain ok mgr1 n1 where s: "ScheduleCreateIfNeeded M clk 0 mgr n = (ok, mgr1, n1)" by (metis prod_cases3)
  show ?thesis
    using ScheduleCreateIfNeeded_discipline [OF s Some] by (simp add: snapshot_loop_turn_def Some s)
qed (simp add: snapshot_loop_turn_def)

end

interpretation kv_snapshots: local_snapshots "kv_ops env" for env
proof
  fix p dir s d
  assume "hard_file p"
  then have "p \<noteq> dir @ ''snapshot.bin''" "p \<noteq> (dir @ ''snapshot.bin'') @ ''.tmp''"
    using hard_file_other(1,2) [of p dir] by auto
  then show "map_of (snd (sm_SaveSnapshot (kv_ops env) (dir @ ''snapshot.bin'') s d)) p = map_of d p"
    by (simp add: kv_ops_def map_of_SaveSnapshot)
qed

section \<open>Recovery\<close>

lemma rs_Load_after_failure:
  assumes "on_disk s d" "rs_ok s" "power_failure d d1"
  obtains s' where "rs_Load (fs_reboot d1, rs_new (rs_path s)) = (fs_reboot d1, rs_readback s')" "same_vote s s'"
    "map_of (fs_reboot d1) (rs_path s) = Some \<lparr>f_data = rs_Serialize s', f_synced = length (rs_Serialize s')\<rparr>"
proof -
  obtain s' where s': "same_vote s s'"
    "map_of d (rs_path s) = Some \<lparr>f_data = rs_Serialize s', f_synced = length (rs_Serialize s')\<rparr>"
    using assms(1) by (auto simp: on_disk_def)
  have ok: "rs_ok s'" "rs_path s' = rs_path s" using s'(1) assms(2) by (auto simp: same_vote_def)
  have "fs_read d1 (rs_path s) = Some (rs_Serialize s')"
    using power_failure_synced [OF assms(3) s'(2)] s'(2) by (simp add: fs_read_def)
  then have m: "map_of (fs_reboot d1) (rs_path s) = Some \<lparr>f_data = rs_Serialize s', f_synced = length (rs_Serialize s')\<rparr>"
    by (auto simp: map_of_fs_reboot fs_read_def)
  then have "ReadFile (rs_path s) (fs_reboot d1) = rs_Serialize s'" by (simp add: ReadFile_def fs_read_def)
  moreover have "rs_Serialize s' \<noteq> []" by (simp add: rs_Serialize_def)
  moreover have "rs_path (rs_new (rs_path s)) = rs_path s" "rs_path s \<noteq> []"
    using ok by (simp_all add: rs_new_def rs_ok_def)
  ultimately have "rs_Load (fs_reboot d1, rs_new (rs_path s)) = (fs_reboot d1, rs_readback s')"
    using rs_roundtrip [OF ok(1)] by (simp add: rs_Load_def Let_def ok(2))
  then show thesis using that s'(1) m by blast
qed

lemma other_file_snapshot [simp]: "other_file (x @ ''snapshot.meta'')" "other_file (x @ ''apply.meta'')"
  by (simp_all add: other_file_def suffix_def)

lemma loader_files: "hard_file p \<Longrightarrow> map_of (snd (loader_Load dir d)) p = map_of d p"
  by (simp add: loader_Load_def Let_def case_prod_beta sms_Load_files sms_new_def)

lemma recover_snapshot_fields:
  "rn_node_id (recover_snapshot M clk path n) = rn_node_id n" "rn_role (recover_snapshot M clk path n) = rn_role n"
  "rn_storage (recover_snapshot M clk path n) = rn_storage n" "rn_config (recover_snapshot M clk path n) = rn_config n"
  "rn_config_state (recover_snapshot M clk path n) = rn_config_state n"
  by (auto simp: recover_snapshot_def Let_def case_prod_beta split: option.split prod.split SnapshotLoadStatus.split)

lemma recover_snapshot_discipline: "disciplined n (recover_snapshot M clk path n)"
proof -
  obtain r d where l: "loader_Load path (rn_disk n) = (r, d)" by (cases "loader_Load path (rn_disk n)")
  have "map_of d p = map_of (rn_disk n) p" if "hard_file p" for p
    using loader_files [OF that, of path "rn_disk n"] by (simp add: l)
  then have d: "disciplined n (n\<lparr>rn_disk := d\<rparr>)"
    by (auto intro: disciplined_files simp: paths_ok_def)
  have s: "disciplined n (n\<lparr>rn_disk := d, rn_sm := x\<rparr>)" for x using d by (rule disciplined_after) simp_all
  have "disciplined n (n\<lparr>rn_disk := d, rn_sm := x, rn_last_applied := i, rn_last_snapshot_index := j, rn_last_snapshot_term := t\<rparr>)"
    for x i j t using d by (rule disciplined_after) simp_all
  then have "disciplined n (on_progress (ap_Update k)
      (n\<lparr>rn_disk := d, rn_sm := x, rn_last_applied := i, rn_last_snapshot_index := j, rn_last_snapshot_term := t\<rparr>))" for k x i j t
    by (rule disciplined_trans) (rule on_progress_discipline)
  then have p: "disciplined n (on_log f (on_progress (ap_Update k)
      (n\<lparr>rn_disk := d, rn_sm := x, rn_last_applied := i, rn_last_snapshot_index := j, rn_last_snapshot_term := t\<rparr>)))" for f k x i j t
    by (rule disciplined_trans) (rule submit_discipline)
  show ?thesis
    unfolding recover_snapshot_def l
    using d s p by (simp add: Let_def case_prod_beta split: option.split prod.split SnapshotLoadStatus.split)
qed

lemma ap_Load_files:
  "hard_file p \<Longrightarrow> other_file (ap_path a) \<Longrightarrow> map_of (fst (ap_Load (d, a))) p = map_of d p"
  "ap_path (snd (ap_Load (d, a))) = ap_path a"
  by (simp_all add: ap_Load_def Let_def map_of_ap_Flush ap_Deserialize_def split: option.split)

lemma SetStoragePath_recovers:
  assumes "vote_durable n" "rs_ok (rn_storage n)" "power_failure (rn_disk n) d1"
    and "rs_path (rn_storage n) = with_slash path @ ''meta.json''"
    and "rn_disk n0 = fs_reboot d1" "rn_snapshot_manager n0 = None"
    and n'_def: "n' = SetStoragePath M clk path n0"
  shows "term_of n' = term_of n" "vote_of n' = vote_of n" "rs_path (rn_storage n') = rs_path (rn_storage n)"
    "rn_role n' = rn_role n0" "rn_node_id n' = rn_node_id n0" "rn_config n' = rn_config n0" "vote_durable n'"
proof -
  let ?p = "with_slash path"
  define n1 where "n1 = on_storage rs_Load (n0\<lparr>rn_snapshot_dir := ?p, rn_storage := rs_new (?p @ ''meta.json'')\<rparr>)"
  define n2 where "n2 = n1\<lparr>rn_config_state := rs_config_state (rn_storage n1), rn_joint := rs_joint_config (rn_storage n1),
      rn_apply_progress := ap_new (?p @ ''apply.meta'')\<rparr>"
  define n3 where "n3 = on_progress ap_Load n2"
  define n4 where "n4 = n3\<lparr>rn_last_applied := ap_last_applied (rn_apply_progress n3)\<rparr>"
  have n': "n' = (recover_snapshot M clk ?p n4)\<lparr>rn_commit_index := rn_last_applied (recover_snapshot M clk ?p n4)\<rparr>"
    unfolding n'_def SetStoragePath_def Let_def n4_def n3_def n2_def n1_def by simp
  obtain s' where s': "rs_Load (fs_reboot d1, rs_new (?p @ ''meta.json'')) = (fs_reboot d1, rs_readback s')"
    "same_vote (rn_storage n) s'"
    "map_of (fs_reboot d1) (?p @ ''meta.json'') = Some \<lparr>f_data = rs_Serialize s', f_synced = length (rs_Serialize s')\<rparr>"
    using rs_Load_after_failure [OF _ assms(2,3)] assms(1,4) unfolding vote_durable_def by metis
  have st: "rn_storage n1 = rs_readback s'" "rn_disk n1 = fs_reboot d1" "rn_snapshot_manager n1 = None"
    by (simp_all add: n1_def on_storage_def assms(5,6) s'(1))
  have b: "rs_path (rs_readback s') = ?p @ ''meta.json''" "rs_current_term (rs_readback s') = term_of n"
    "rs_voted_for (rs_readback s') = vote_of n"
    using s'(2) assms(4) by (simp_all add: rs_readback_def same_vote_def)
  have "same_vote (rs_readback s') s'" using s'(2) assms(2,4) by (simp add: same_vote_def rs_readback_def)
  then have "on_disk (rn_storage n1) (rn_disk n1)" using s'(3) b(1) by (auto simp: on_disk_def st)
  moreover have "hard_file (?p @ ''meta.json'')" by (simp add: hard_file_def suffix_def)
  ultimately have v2: "vote_durable n2"
    by (simp add: vote_durable_def paths_ok_def n2_def st b(1) assms(6) ap_new_def)
  have "disciplined n2 n3"
    unfolding n3_def by (rule disciplined_files) (simp_all add: paths_ok_def ap_Load_files)
  then have "disciplined n2 n4" unfolding n4_def by (rule disciplined_after) simp_all
  then have "disciplined n2 (recover_snapshot M clk ?p n4)" using recover_snapshot_discipline by (rule disciplined_trans)
  then have "disciplined n2 n'" unfolding n' by (rule disciplined_after) simp_all
  then show "vote_durable n'" using v2 by (simp add: disciplined_def)
  show "term_of n' = term_of n" "vote_of n' = vote_of n" "rs_path (rn_storage n') = rs_path (rn_storage n)"
    by (simp_all add: n' recover_snapshot_fields n4_def n3_def n2_def st b assms(4))
  show "rn_role n' = rn_role n0" "rn_node_id n' = rn_node_id n0" "rn_config n' = rn_config n0"
    by (simp_all add: n' recover_snapshot_fields n4_def n3_def n2_def n1_def)
qed

section \<open>Steps of a node\<close>

text \<open>Every locked section of a node apart from the three of an election: handlers, the parts of the
  leader's rounds, reads and writes, snapshots, transfer, the election timeout. Requests and responses are
  arbitrary. Left out are calls only made while a node is set up (identity, peers, role).\<close>

inductive node_step :: "'sm StateMachineOps \<Rightarrow> 'sm RaftNode \<Rightarrow> 'sm RaftNode \<Rightarrow> bool" for M where
  step_timeout: "node_step M n (OnElectionTimeout n)"
| step_heartbeat: "node_step M n (snd (OnHeartbeat M clk req n))"
| step_append: "node_step M n (snd (OnAppendEntries M clk areq n))"
| step_install: "node_step M n (snd (OnInstallSnapshot M clk ireq n))"
| step_timeout_now: "term_of n < t \<Longrightarrow> node_step M n (BecomeFollower t n)"
| step_hb_finish: "node_step M n (snd (hb_finish clk is_loop epoch acks n))"
| step_rep_begin: "node_step M n (snd (rep_begin n))"
| step_rep_finish: "node_step M n (snd (rep_finish M clk plan rsps n))"
| step_advance: "node_step M n (AdvanceCommitIndexLocked n)"
| step_finalize: "node_step M n (MaybeAutoFinalizeJoint n)"
| step_apply: "node_step M n (snd (ApplyCommittedLogs M clk n))"
| step_read_begin: "node_step M n (snd (read_begin clk n))"
| step_read_finish: "node_step M n (snd (read_finish clk rreq acc n))"
| step_submit: "node_step M n (snd (submit_append e n))"
| step_join: "node_step M n (snd (group_join i n))"
| step_take: "node_step M n (snd (group_take n))"
| step_persist: "node_step M n (on_log ls_Persist n)"
| step_config: "node_step M n (snd (BeginConfigChange target n))"
| step_transfer: "node_step M n (n\<lparr>rn_transfer := x\<rparr>)"
| step_cancel: "node_step M n (CancelTransfer n)"
| step_snapshot: "node_step M n (snd (CreateSnapshotIfNeeded M clk n))"
| step_snapshot_loop: "node_step M n (snapshot_loop_turn M clk n)"
| step_replay: "node_step M n (ReplayUnappliedLogs M clk n)"
| step_reset: "node_step M n (ResetApplyProgress i n)"

inductive_cases node_stepE: "node_step M n n'"

context local_snapshots
begin

lemma node_step_discipline: "node_step M n n' \<Longrightarrow> disciplined n n'"
  by (erule node_stepE)
    (simp_all only: discipline CreateSnapshotIfNeeded_discipline snapshot_loop_turn_discipline)

end

end
