(* ===== verification/Raft_Cluster.thy ===== *)
theory Raft_Cluster
  imports Raft_Votes
begin

text \<open>
  A cluster of nodes of \<^verbatim>\<open>server/raft/raft_node.cc\<close> that exchange vote requests, and Election Safety for
  it. A step of the cluster is one locked section of one node, or a crash and restart of one; the requests
  sent and the responses given are never removed, so messages may be delayed, lost, repeated and
  reordered. Membership is fixed: every step leaves every node with the stable configuration that names
  all the others. Nodes that are made leader without an election (\<^verbatim>\<open>SetRole\<close>, \<^verbatim>\<open>TryBecomeLeader\<close>,
  \<^verbatim>\<open>BootstrapSingleNode\<close>) are not part of these runs.
\<close>

section \<open>Runs\<close>

record 'sm Cluster =
  cl_nodes :: "NodeId \<Rightarrow> 'sm RaftNode"
  cl_requests :: "VoteRequest set"
  cl_responses :: "(NodeId \<times> VoteRequest \<times> VoteResponse) set"
  cl_leaders :: "(Term \<times> NodeId) set"

definition fixed_config :: "NodeId set \<Rightarrow> NodeId \<Rightarrow> 'sm RaftNode \<Rightarrow> bool" where
  "fixed_config members i n \<longleftrightarrow> rn_config_state n = kStable \<and> distinct (voters (rn_config n))
     \<and> set (voters (rn_config n)) = members - {i}"

text \<open>A fresh process on the files that survived, before its storage is opened.\<close>

definition fresh_node ::
  "NodeId \<Rightarrow> directory \<Rightarrow> ClusterConfig \<Rightarrow> LogStore option \<Rightarrow> 'sm option \<Rightarrow> string option \<Rightarrow> 'sm RaftNode" where
  "fresh_node i d cfg l s recv =
     (rn_new i)\<lparr>rn_disk := d, rn_config := cfg, rn_log := l, rn_sm := s, rn_receiver := recv, rn_transport := True\<rparr>"

definition tally_of :: "VoteRequest \<Rightarrow> (NodeId \<times> VoteResponse) list \<Rightarrow> Tally" where
  "tally_of req rsps = fold (\<lambda>(p, rsp). tally_add p rsp) rsps (tally_init req)"

definition put_node :: "NodeId \<Rightarrow> 'sm RaftNode \<Rightarrow> 'sm Cluster \<Rightarrow> 'sm Cluster" where
  "put_node i n c = c\<lparr>cl_nodes := (cl_nodes c)(i := n)\<rparr>"

inductive cluster_step :: "'sm StateMachineOps \<Rightarrow> NodeId set \<Rightarrow> 'sm Cluster \<Rightarrow> 'sm Cluster \<Rightarrow> bool" for M members where
  cl_local: "i \<in> members \<Longrightarrow> node_step M (cl_nodes c i) n \<Longrightarrow> fixed_config members i n
    \<Longrightarrow> cluster_step M members c (put_node i n c)"
| cl_no_election: "i \<in> members \<Longrightarrow> election_begin (cl_nodes c i) = (None, n) \<Longrightarrow> fixed_config members i n
    \<Longrightarrow> cluster_step M members c (put_node i n c)"
| cl_begin: "i \<in> members \<Longrightarrow> election_begin (cl_nodes c i) = (Some (req, peers), n) \<Longrightarrow> fixed_config members i n
    \<Longrightarrow> cluster_step M members c ((put_node i n c)\<lparr>cl_requests := insert req (cl_requests c)\<rparr>)"
| cl_vote: "p \<in> members \<Longrightarrow> req \<in> cl_requests c \<Longrightarrow> OnRequestVote req (cl_nodes c p) = (rsp, n) \<Longrightarrow> fixed_config members p n
    \<Longrightarrow> cluster_step M members c ((put_node p n c)\<lparr>cl_responses := insert (p, req, rsp) (cl_responses c)\<rparr>)"
| cl_finish: "i \<in> members \<Longrightarrow> req \<in> cl_requests c \<Longrightarrow> vq_candidate_id req = i \<Longrightarrow> map fst rsps = GetPeerIds (cl_nodes c i)
    \<Longrightarrow> list_all (\<lambda>(p, rsp). (p, req, rsp) \<in> cl_responses c \<or> \<not> vr_vote_granted rsp) rsps
    \<Longrightarrow> election_finish clk req (tally_of req rsps) (cl_nodes c i) = n \<Longrightarrow> fixed_config members i n
    \<Longrightarrow> cluster_step M members c
          ((put_node i n c)\<lparr>cl_leaders := (if rn_role n = Leader then insert (term_of n, i) (cl_leaders c) else cl_leaders c)\<rparr>)"
| cl_restart: "i \<in> members \<Longrightarrow> power_failure (rn_disk (cl_nodes c i)) d \<Longrightarrow> rs_ok (rn_storage (cl_nodes c i))
    \<Longrightarrow> rs_path (rn_storage (cl_nodes c i)) = with_slash path @ ''meta.json''
    \<Longrightarrow> n = SetStoragePath M clk path (fresh_node i (fs_reboot d) cfg l s recv) \<Longrightarrow> fixed_config members i n
    \<Longrightarrow> cluster_step M members c (put_node i n c)"

inductive_cases cluster_stepE: "cluster_step M members c c'"

inductive cluster_reach :: "'sm StateMachineOps \<Rightarrow> NodeId set \<Rightarrow> 'sm Cluster \<Rightarrow> 'sm Cluster \<Rightarrow> bool" for M members where
  reach_start: "cluster_reach M members c c"
| reach_step: "cluster_reach M members c c' \<Longrightarrow> cluster_step M members c' c'' \<Longrightarrow> cluster_reach M members c c''"

text \<open>A cluster before its first election: followers with durable hard state, no messages.\<close>

definition cluster_init :: "NodeId set \<Rightarrow> 'sm Cluster \<Rightarrow> bool" where
  "cluster_init members c \<longleftrightarrow> finite members \<and> [] \<notin> members
     \<and> (\<forall>i \<in> members. rn_node_id (cl_nodes c i) = i \<and> rn_role (cl_nodes c i) = Follower
          \<and> fixed_config members i (cl_nodes c i) \<and> vote_durable (cl_nodes c i))
     \<and> cl_requests c = {} \<and> cl_responses c = {} \<and> cl_leaders c = {}"

section \<open>The election sections\<close>

lemma election_begin_discipline: "disciplined n (snd (election_begin n))"
  unfolding election_begin_def Let_def
  by (auto split: RaftRole.split intro!: discipline)

lemma election_begin_request:
  assumes "election_begin n = (Some (req, peers), n')"
  shows "vq_candidate_id req = rn_node_id n" "vq_term req = term_of n'" "vote_of n' = rn_node_id n"
    "term_of n < term_of n'" "rn_role n' = Candidate"
  using assms
  by (auto simp: election_begin_def Let_def BecomeCandidate_def BecomeCandidateNewTerm_def
      split: if_splits RaftRole.splits)

lemma OnRequestVote_discipline:
  assumes "rn_role n \<noteq> Follower \<Longrightarrow> vote_of n \<noteq> []" "vq_candidate_id req \<noteq> []"
  shows "disciplined n (snd (OnRequestVote req n))"
proof -
  define m where "m = (if term_of n < vq_term req then BecomeFollower (vq_term req) n else n)"
  have m: "disciplined n m" by (simp add: m_def discipline)
  have "disciplined m (on_storage (rs_set_voted_for (vq_candidate_id req)) m)"
    if "vote_of m \<noteq> [] \<longrightarrow> vote_of m = vq_candidate_id req"
    using that assms by (auto simp: disciplined_def m_def BecomeFollower_def split: if_splits)
  then have "disciplined n (on_storage (rs_set_voted_for (vq_candidate_id req)) m)"
    if "vote_of m \<noteq> [] \<longrightarrow> vote_of m = vq_candidate_id req"
    using that m disciplined_trans by blast
  then show ?thesis
    unfolding OnRequestVote_def m_def [symmetric] Let_def using m by auto
qed

lemma OnRequestVote_granted:
  assumes "OnRequestVote req n = (rsp, n')" "vr_vote_granted rsp"
  shows "term_of n \<le> vq_term req" "term_of n' = vq_term req" "vote_of n' = vq_candidate_id req"
    "term_of n = vq_term req \<Longrightarrow> vote_of n = [] \<or> vote_of n = vq_candidate_id req"
  using assms
  by (auto simp: OnRequestVote_def Let_def vote_rsp_def BecomeFollower_def split: if_splits)

lemma BecomeLeader_fields:
  "rn_node_id (BecomeLeader clk n) = rn_node_id n" "rn_role (BecomeLeader clk n) = Leader"
  "rn_storage (BecomeLeader clk n) = rn_storage n" "rn_disk (BecomeLeader clk n) = rn_disk n"
  "rn_apply_progress (BecomeLeader clk n) = rn_apply_progress n"
  "rn_snapshot_manager (BecomeLeader clk n) = rn_snapshot_manager n"
  by (simp_all add: BecomeLeader_def BecomeLeaderInitPeers_def Let_def)

lemma tally_votes:
  "votes_received (ta_result (fold (\<lambda>(p, rsp). tally_add p rsp) rsps t))
     = votes_received (ta_result t) + length (filter (\<lambda>(p, rsp). vr_vote_granted rsp) rsps)"
  by (induction rsps arbitrary: t) (auto simp: tally_add_def Let_def)

text \<open>An election ends in a disciplined step or in leadership backed by a majority of grants.\<close>

definition wins :: "VoteRequest \<Rightarrow> Tally \<Rightarrow> 'sm RaftNode \<Rightarrow> 'sm RaftNode \<Rightarrow> bool" where
  "wins req t n n' \<longleftrightarrow> rn_role n' = Leader \<and> rn_role n = Candidate \<and> rn_node_id n' = rn_node_id n
     \<and> rn_storage n' = rn_storage n \<and> vote_durable n' = vote_durable n \<and> term_of n = vq_term req
     \<and> (length (voters (rn_config n)) + 1) div 2 + 1 \<le> votes_received (ta_result t)"

lemma election_finish_cases:
  assumes "rn_config_state n = kStable"
  shows "disciplined n (election_finish clk req t n) \<or> wins req t n (election_finish clk req t n)"
proof (cases "term_of n < ta_max_term t \<or> rn_role n \<noteq> Candidate \<or> term_of n \<noteq> vq_term req")
  case True
  then show ?thesis by (auto simp: election_finish_def discipline)
next
  case False
  let ?n = "n\<lparr>rn_vote_count := votes_received (ta_result t)\<rparr>"
  have n: "disciplined n ?n" by (rule disciplined_same) simp_all
  show ?thesis
  proof (cases "(length (voters (rn_config n)) + 1) div 2 + 1 \<le> votes_received (ta_result t)")
    case True
    have "vote_durable (BecomeLeader clk ?n) \<longleftrightarrow> vote_durable n"
      by (rule vote_durable_cong) (simp_all add: BecomeLeader_fields)
    then have "wins req t n (BecomeLeader clk ?n)" using False True by (simp add: wins_def BecomeLeader_fields)
    then show ?thesis
      using False True assms by (simp add: election_finish_def Let_def TryBecomeLeaderLocked_def BecomeLeader_fields)
  next
    case no: False
    then show ?thesis
      using False n assms disciplined_follower [OF n] by (simp add: election_finish_def Let_def TryBecomeLeaderLocked_def)
  qed
qed

section \<open>The invariant\<close>

text \<open>\<open>voted c p t x\<close>: node \<open>p\<close> has given its vote of term \<open>t\<close> to \<open>x\<close>, by a response or by being a candidate.\<close>

definition voted :: "'sm Cluster \<Rightarrow> NodeId \<Rightarrow> Term \<Rightarrow> NodeId \<Rightarrow> bool" where
  "voted c p t x \<longleftrightarrow>
     (\<exists>req rsp. (p, req, rsp) \<in> cl_responses c \<and> vr_vote_granted rsp \<and> vq_term req = t \<and> vq_candidate_id req = x)
   \<or> (x = p \<and> (\<exists>req \<in> cl_requests c. vq_term req = t \<and> vq_candidate_id req = x))"

definition votes_ok :: "'sm Cluster \<Rightarrow> NodeId \<Rightarrow> 'sm RaftNode \<Rightarrow> bool" where
  "votes_ok c p n \<longleftrightarrow>
     (\<forall>t x. voted c p t x \<longrightarrow> x \<noteq> [] \<and> t \<le> term_of n \<and> (t = term_of n \<longrightarrow> vote_of n = x)
        \<and> (\<forall>y. voted c p t y \<longrightarrow> y = x))"

definition node_ok :: "NodeId set \<Rightarrow> 'sm Cluster \<Rightarrow> NodeId \<Rightarrow> 'sm RaftNode \<Rightarrow> bool" where
  "node_ok members c i n \<longleftrightarrow> rn_node_id n = i \<and> fixed_config members i n \<and> vote_durable n
     \<and> (rn_role n \<noteq> Follower \<longrightarrow> vote_of n = i) \<and> votes_ok c i n
     \<and> (rn_role n = Leader \<longrightarrow> (term_of n, i) \<in> cl_leaders c)"

definition backed :: "NodeId set \<Rightarrow> 'sm Cluster \<Rightarrow> Term \<Rightarrow> NodeId \<Rightarrow> bool" where
  "backed members c t i \<longleftrightarrow>
     (\<exists>Q \<subseteq> members. card members div 2 + 1 \<le> card Q \<and> (\<forall>p \<in> Q. voted c p t i))"

definition cluster_inv :: "NodeId set \<Rightarrow> 'sm Cluster \<Rightarrow> bool" where
  "cluster_inv members c \<longleftrightarrow> finite members \<and> [] \<notin> members
     \<and> (\<forall>req \<in> cl_requests c. vq_candidate_id req \<in> members)
     \<and> (\<forall>i \<in> members. node_ok members c i (cl_nodes c i))
     \<and> (\<forall>(t, i) \<in> cl_leaders c. backed members c t i)"

lemma cluster_init_inv: "cluster_init members c \<Longrightarrow> cluster_inv members c"
  by (auto simp: cluster_init_def cluster_inv_def node_ok_def votes_ok_def voted_def)

lemma votes_ok_disciplined:
  assumes "votes_ok c p n" "disciplined n n'"
  shows "votes_ok c p n'"
  unfolding votes_ok_def
proof (intro allI impI)
  fix t x
  assume v: "voted c p t x"
  then have o: "x \<noteq> []" "t \<le> term_of n" "t = term_of n \<longrightarrow> vote_of n = x" "\<forall>y. voted c p t y \<longrightarrow> y = x"
    using assms(1) by (auto simp: votes_ok_def)
  note d = disciplinedD(2,3) [OF assms(2)]
  show "x \<noteq> [] \<and> t \<le> term_of n' \<and> (t = term_of n' \<longrightarrow> vote_of n' = x) \<and> (\<forall>y. voted c p t y \<longrightarrow> y = x)"
    using o d by (cases "t = term_of n'") auto
qed

lemma node_ok_disciplined:
  assumes "node_ok members c i n" "disciplined n n'" "fixed_config members i n'"
  shows "node_ok members c i n'"
proof -
  have o: "rn_node_id n = i" "vote_durable n" "rn_role n \<noteq> Follower \<Longrightarrow> vote_of n = i" "votes_ok c i n"
    "rn_role n = Leader \<Longrightarrow> (term_of n, i) \<in> cl_leaders c"
    using assms(1) by (simp_all add: node_ok_def)
  note d = disciplinedD [OF assms(2)]
  have "rn_role n' \<noteq> Follower \<longrightarrow> vote_of n' = i"
    using o(1,3) d(4,6,7) by (cases "rn_role n'") auto
  moreover have "votes_ok c i n'" using o(4) assms(2) by (rule votes_ok_disciplined)
  ultimately show ?thesis using o d(1,4,5,8) assms(3) by (simp add: node_ok_def)
qed

text \<open>A new vote of the node, for its present term and to the one it has on record.\<close>

lemma votes_ok_add:
  assumes "votes_ok c p n" "x0 \<noteq> []" "t0 = term_of n" "vote_of n = x0"
    and v: "\<And>t x. voted c' p t x \<longleftrightarrow> voted c p t x \<or> t = t0 \<and> x = x0"
  shows "votes_ok c' p n"
  unfolding votes_ok_def
proof (intro allI impI)
  fix t x
  assume x: "voted c' p t x"
  have o: "y \<noteq> []" "u \<le> term_of n" "u = term_of n \<Longrightarrow> vote_of n = y" "\<And>z. voted c p u z \<Longrightarrow> z = y"
    if "voted c p u y" for u y using assms(1) that by (auto simp: votes_ok_def)
  have "x \<noteq> [] \<and> t \<le> term_of n \<and> (t = term_of n \<longrightarrow> vote_of n = x)" using x o assms(2-4) unfolding v by blast
  moreover have "y = x" if "voted c' p t y" for y
    using x that o(3,4) assms(3,4) unfolding v by metis
  ultimately show "x \<noteq> [] \<and> t \<le> term_of n \<and> (t = term_of n \<longrightarrow> vote_of n = x) \<and> (\<forall>y. voted c' p t y \<longrightarrow> y = x)"
    by blast
qed

text \<open>Replacing one node of a cluster whose messages only grow.\<close>

lemma put_node_inv:
  assumes "cluster_inv members c" "node_ok members c' i (cl_nodes c' i)"
    and "\<And>j. j \<noteq> i \<Longrightarrow> cl_nodes c' j = cl_nodes c j"
    and "\<And>j t x. j \<noteq> i \<Longrightarrow> voted c' j t x = voted c j t x"
    and "\<And>t x. voted c i t x \<Longrightarrow> voted c' i t x"
    and "\<forall>req \<in> cl_requests c'. vq_candidate_id req \<in> members"
    and "cl_leaders c \<subseteq> cl_leaders c'"
    and "\<forall>(t, j) \<in> cl_leaders c' - cl_leaders c. backed members c' t j"
  shows "cluster_inv members c'"
proof -
  have v: "voted c' j t x" if "voted c j t x" for j t x using assms(4,5) that by (cases "j = i") auto
  have "node_ok members c' j (cl_nodes c' j)" if "j \<in> members" for j
  proof (cases "j = i")
    case False
    have "node_ok members c j (cl_nodes c j)" using assms(1) that by (simp add: cluster_inv_def)
    moreover have "votes_ok c' j n = votes_ok c j n" for n by (simp add: votes_ok_def assms(4) [OF False])
    ultimately show ?thesis using assms(3) [OF False] subsetD [OF assms(7)] by (simp add: node_ok_def)
  qed (use assms(2) in simp)
  moreover have "backed members c' t j" if "(t, j) \<in> cl_leaders c" for t j
  proof -
    have "backed members c t j" using assms(1) that by (auto simp: cluster_inv_def)
    then show ?thesis using v unfolding backed_def by blast
  qed
  ultimately have "\<forall>i \<in> members. node_ok members c' i (cl_nodes c' i)" "\<forall>(t, i) \<in> cl_leaders c'. backed members c' t i"
    using assms(8) by blast+
  then show ?thesis using assms(1,6) by (simp add: cluster_inv_def)
qed

text \<open>A step that only changes one node, within the discipline.\<close>

lemma local_step_inv:
  assumes "cluster_inv members c" "i \<in> members" "disciplined (cl_nodes c i) n" "fixed_config members i n"
  shows "cluster_inv members (put_node i n c)"
proof (rule put_node_inv [OF assms(1), where i = i])
  have v: "voted (put_node i n c) = voted c" by (simp add: voted_def put_node_def fun_eq_iff)
  then show "\<And>j t x. j \<noteq> i \<Longrightarrow> voted (put_node i n c) j t x = voted c j t x"
    "\<And>t x. voted c i t x \<Longrightarrow> voted (put_node i n c) i t x" by simp_all
  have "node_ok members c i n"
    using node_ok_disciplined [OF _ assms(3,4)] assms(1,2) by (simp add: cluster_inv_def)
  then show "node_ok members (put_node i n c) i (cl_nodes (put_node i n c) i)"
    by (simp add: node_ok_def votes_ok_def v) (simp add: put_node_def)
qed (use assms(1) in \<open>simp_all add: put_node_def cluster_inv_def\<close>)

lemma begin_inv:
  assumes inv: "cluster_inv members c" and i: "i \<in> members"
    and b: "election_begin (cl_nodes c i) = (Some (req, peers), n)" and f: "fixed_config members i n"
  shows "cluster_inv members ((put_node i n c)\<lparr>cl_requests := insert req (cl_requests c)\<rparr>)" (is "cluster_inv members ?c")
proof (rule put_node_inv [OF inv, where i = i])
  have ok: "node_ok members c i (cl_nodes c i)" using inv i by (simp add: cluster_inv_def)
  then have id: "rn_node_id (cl_nodes c i) = i" and vo: "votes_ok c i (cl_nodes c i)" by (simp_all add: node_ok_def)
  note r = election_begin_request [OF b, unfolded id]
  have d: "disciplined (cl_nodes c i) n" using election_begin_discipline [of "cl_nodes c i"] b by simp
  have v: "voted ?c j t x \<longleftrightarrow> voted c j t x \<or> j = i \<and> t = vq_term req \<and> x = i" for j t x
    using r(1) by (auto simp: voted_def put_node_def)
  show "\<And>j t x. j \<noteq> i \<Longrightarrow> voted ?c j t x = voted c j t x" "\<And>t x. voted c i t x \<Longrightarrow> voted ?c i t x"
    by (simp_all add: v)
  have ne: "i \<noteq> []" using inv i by (auto simp: cluster_inv_def)
  have "votes_ok ?c i n"
    by (rule votes_ok_add [OF votes_ok_disciplined [OF vo d] ne r(2,3)]) (simp add: v)
  then show "node_ok members ?c i (cl_nodes ?c i)"
    using node_ok_disciplined [OF ok d f] by (simp add: node_ok_def put_node_def)
  show "\<forall>req \<in> cl_requests ?c. vq_candidate_id req \<in> members"
    using inv r(1) i by (simp add: cluster_inv_def put_node_def)
qed (simp_all add: put_node_def)

lemma vote_inv:
  assumes inv: "cluster_inv members c" and p: "p \<in> members" and req: "req \<in> cl_requests c"
    and b: "OnRequestVote req (cl_nodes c p) = (rsp, n)" and f: "fixed_config members p n"
  shows "cluster_inv members ((put_node p n c)\<lparr>cl_responses := insert (p, req, rsp) (cl_responses c)\<rparr>)" (is "cluster_inv members ?c")
proof (rule put_node_inv [OF inv, where i = p])
  have ok: "node_ok members c p (cl_nodes c p)" using inv p by (simp add: cluster_inv_def)
  then have vo: "votes_ok c p (cl_nodes c p)" by (simp add: node_ok_def)
  have ne: "p \<noteq> []" "vq_candidate_id req \<noteq> []" using inv p req by (auto simp: cluster_inv_def)
  have d: "disciplined (cl_nodes c p) n"
    using OnRequestVote_discipline [of "cl_nodes c p" req] ok ne b by (simp add: node_ok_def)
  have v: "voted ?c j t x \<longleftrightarrow> voted c j t x \<or> j = p \<and> vr_vote_granted rsp \<and> t = vq_term req \<and> x = vq_candidate_id req"
    for j t x by (auto simp: voted_def put_node_def)
  show "\<And>j t x. j \<noteq> p \<Longrightarrow> voted ?c j t x = voted c j t x" "\<And>t x. voted c p t x \<Longrightarrow> voted ?c p t x"
    by (simp_all add: v)
  note o = votes_ok_disciplined [OF vo d]
  have "votes_ok ?c p n"
  proof (cases "vr_vote_granted rsp")
    case True
    note g = OnRequestVote_granted(2,3) [OF b True]
    show ?thesis by (rule votes_ok_add [OF o ne(2) g(1) [symmetric] g(2)]) (simp add: v True)
  next
    case False
    then show ?thesis using o by (simp add: votes_ok_def v)
  qed
  then show "node_ok members ?c p (cl_nodes ?c p)"
    using node_ok_disciplined [OF ok d f] by (simp add: node_ok_def put_node_def)
qed (use inv in \<open>simp_all add: put_node_def cluster_inv_def\<close>)

lemma GetPeerIds_fixed:
  assumes "fixed_config members i n" "rn_node_id n = i"
  shows "distinct (GetPeerIds n)" "set (GetPeerIds n) = members - {i}" "length (voters (rn_config n)) = card (members - {i})"
  using assms distinct_card [of "voters (rn_config n)"] by (auto simp: fixed_config_def GetPeerIds_def)

text \<open>The grants of a won election, with the candidate's own vote, are a majority of the members.\<close>

lemma tally_majority:
  assumes inv: "cluster_inv members c" and i: "i \<in> members" and req: "req \<in> cl_requests c" "vq_candidate_id req = i"
    and peers: "map fst rsps = GetPeerIds (cl_nodes c i)"
    and granted: "list_all (\<lambda>(p, rsp). (p, req, rsp) \<in> cl_responses c \<or> \<not> vr_vote_granted rsp) rsps"
    and win: "(length (voters (rn_config (cl_nodes c i))) + 1) div 2 + 1 \<le> votes_received (ta_result (tally_of req rsps))"
  shows "backed members c (vq_term req) i"
proof -
  have ok: "fixed_config members i (cl_nodes c i)" "rn_node_id (cl_nodes c i) = i" and fin: "finite members"
    using inv i by (simp_all add: cluster_inv_def node_ok_def)
  note g = GetPeerIds_fixed [OF ok]
  define G where "G = map fst (filter (\<lambda>(p, rsp). vr_vote_granted rsp) rsps)"
  have "distinct G" using g(1) unfolding G_def peers [symmetric] by (rule distinct_map_filter)
  then have G: "card (set G) = length G" by (rule distinct_card)
  have "set G \<subseteq> set (map fst rsps)" unfolding G_def by auto
  then have sub: "set G \<subseteq> members - {i}" unfolding peers g(2) .
  have "votes_received (ta_result (tally_of req rsps)) = 1 + length G"
    by (simp add: tally_of_def tally_votes tally_init_def G_def)
  moreover have "card (insert i (set G)) = 1 + length G" using G sub by (subst card_insert_disjoint) auto
  moreover have "card (members - {i}) + 1 = card members" using card_Suc_Diff1 [OF fin i] by simp
  ultimately have "card members div 2 + 1 \<le> card (insert i (set G))" using win g(3) by simp
  moreover have "voted c p (vq_term req) i" if p: "p \<in> insert i (set G)" for p
  proof (cases "p = i")
    case False
    then obtain rsp where "(p, rsp) \<in> set rsps" "vr_vote_granted rsp" using p by (auto simp: G_def)
    then have "(p, req, rsp) \<in> cl_responses c" using granted by (auto simp: list_all_iff)
    then show ?thesis using \<open>vr_vote_granted rsp\<close> req(2) unfolding voted_def by blast
  qed (use req in \<open>auto simp: voted_def\<close>)
  moreover have "insert i (set G) \<subseteq> members" using sub i by auto
  ultimately show ?thesis unfolding backed_def by blast
qed

lemma finish_inv:
  assumes inv: "cluster_inv members c" and i: "i \<in> members" and req: "req \<in> cl_requests c" "vq_candidate_id req = i"
    and peers: "map fst rsps = GetPeerIds (cl_nodes c i)"
    and granted: "list_all (\<lambda>(p, rsp). (p, req, rsp) \<in> cl_responses c \<or> \<not> vr_vote_granted rsp) rsps"
    and n: "election_finish clk req (tally_of req rsps) (cl_nodes c i) = n" and f: "fixed_config members i n"
  shows "cluster_inv members
    ((put_node i n c)\<lparr>cl_leaders := (if rn_role n = Leader then insert (term_of n, i) (cl_leaders c) else cl_leaders c)\<rparr>)"
    (is "cluster_inv members ?c")
proof -
  have ok: "node_ok members c i (cl_nodes c i)" using inv i by (simp add: cluster_inv_def)
  then have "rn_config_state (cl_nodes c i) = kStable" by (simp add: node_ok_def fixed_config_def)
  then consider "disciplined (cl_nodes c i) n" | "wins req (tally_of req rsps) (cl_nodes c i) n"
    using election_finish_cases n by blast
  then show ?thesis
  proof cases
    case 1
    have "(term_of n, i) \<in> cl_leaders c" if "rn_role n = Leader"
      using node_ok_disciplined [OF ok 1 f] that by (simp add: node_ok_def)
    then have "?c = put_node i n c" by (simp add: put_node_def insert_absorb)
    then show ?thesis using local_step_inv [OF inv i 1 f] by simp
  next
    case 2
    have v: "voted ?c = voted c" by (simp add: voted_def put_node_def fun_eq_iff)
    have b: "backed members c (vq_term req) i"
      using tally_majority [OF inv i req peers granted] 2 by (simp add: wins_def)
    show ?thesis
    proof (rule put_node_inv [OF inv, where i = i])
      have "rn_storage n = rn_storage (cl_nodes c i)" using 2 by (simp add: wins_def)
      moreover have "votes_ok c i (cl_nodes c i)" using ok by (simp add: node_ok_def)
      ultimately have "votes_ok c i n" unfolding votes_ok_def by simp
      then have "votes_ok ?c i n" by (simp only: votes_ok_def v)
      then show "node_ok members ?c i (cl_nodes ?c i)"
        using ok 2 f by (simp add: node_ok_def wins_def put_node_def)
      show "\<forall>(t, j) \<in> cl_leaders ?c - cl_leaders c. backed members ?c t j"
      proof -
        have "backed members ?c (vq_term req) i" using b by (simp only: backed_def v)
        moreover have "cl_leaders ?c \<subseteq> insert (vq_term req, i) (cl_leaders c)" using 2 by (auto simp: wins_def put_node_def)
        ultimately show ?thesis by blast
      qed
      show "\<And>j t x. j \<noteq> i \<Longrightarrow> voted ?c j t x = voted c j t x" "\<And>t x. voted c i t x \<Longrightarrow> voted ?c i t x"
        by (simp_all only: v)
    qed (use inv in \<open>simp_all add: put_node_def cluster_inv_def subset_insertI\<close>)
  qed
qed

lemma restart_inv:
  assumes inv: "cluster_inv members c" and i: "i \<in> members" and pf: "power_failure (rn_disk (cl_nodes c i)) d"
    and rs: "rs_ok (rn_storage (cl_nodes c i))" "rs_path (rn_storage (cl_nodes c i)) = with_slash path @ ''meta.json''"
    and n: "n = SetStoragePath M clk path (fresh_node i (fs_reboot d) cfg l s recv)" and f: "fixed_config members i n"
  shows "cluster_inv members (put_node i n c)"
proof (rule local_step_inv [OF inv i _ f])
  have ok: "vote_durable (cl_nodes c i)" "rn_node_id (cl_nodes c i) = i"
    using inv i by (simp_all add: cluster_inv_def node_ok_def)
  have fresh: "rn_disk (fresh_node i (fs_reboot d) cfg l s recv) = fs_reboot d"
    "rn_snapshot_manager (fresh_node i (fs_reboot d) cfg l s recv) = None"
    "rn_role (fresh_node i (fs_reboot d) cfg l s recv) = Follower"
    "rn_node_id (fresh_node i (fs_reboot d) cfg l s recv) = i"
    by (simp_all add: fresh_node_def rn_new_def)
  note r = SetStoragePath_recovers [OF ok(1) rs(1) pf rs(2) fresh(1,2) n]
  show "disciplined (cl_nodes c i) n" using r ok(2) fresh(3,4) by (simp add: disciplined_def)
qed

context local_snapshots
begin

lemma cluster_step_inv:
  assumes "cluster_step M members c c'" "cluster_inv members c"
  shows "cluster_inv members c'"
  using assms(1)
proof cases
  case (cl_local i n)
  then show ?thesis using local_step_inv [OF assms(2)] node_step_discipline by blast
next
  case (cl_no_election i n)
  then show ?thesis using local_step_inv [OF assms(2)] election_begin_discipline by (metis snd_conv)
next
  case (cl_begin i req peers n)
  then show ?thesis using begin_inv [OF assms(2)] by simp
next
  case (cl_vote p req rsp n)
  then show ?thesis using vote_inv [OF assms(2)] by simp
next
  case (cl_finish i req rsps clk n)
  then show ?thesis using finish_inv [OF assms(2) cl_finish(2-7)] by simp
next
  case (cl_restart i d path n clk cfg l s recv)
  then show ?thesis using restart_inv [OF assms(2) cl_restart(2-6)] by simp
qed

lemma cluster_reach_inv: "cluster_reach M members c c' \<Longrightarrow> cluster_inv members c \<Longrightarrow> cluster_inv members c'"
  by (induction rule: cluster_reach.induct) (blast intro: cluster_step_inv)+

end

lemma one_leader_per_term:
  assumes "cluster_inv members c" "(t, i) \<in> cl_leaders c" "(t, j) \<in> cl_leaders c"
  shows "i = j"
proof -
  have b: "backed members c t i" "backed members c t j" and fin: "finite members"
    using assms by (auto simp: cluster_inv_def)
  then obtain Q R where q: "Q \<subseteq> members" "card members div 2 + 1 \<le> card Q" "\<forall>p \<in> Q. voted c p t i"
    "R \<subseteq> members" "card members div 2 + 1 \<le> card R" "\<forall>p \<in> R. voted c p t j"
    unfolding backed_def by blast
  obtain p where p: "p \<in> Q" "p \<in> R" using majorities_intersect [OF fin q(1,4,2,5)] by blast
  then have "votes_ok c p (cl_nodes c p)" using assms(1) q(1) by (auto simp: cluster_inv_def node_ok_def)
  then show ?thesis using q(3,6) p by (auto simp: votes_ok_def)
qed

section \<open>A small cluster\<close>

text \<open>Two nodes that start on empty directories.\<close>

definition demo_node :: "NodeId \<Rightarrow> KvState RaftNode" where
  "demo_node i = SetStoragePath (kv_ops plain_env) \<lparr>steady_ms = 0, wall_ms = 0\<rparr> ''d''
     (fresh_node i [] \<lparr>version = 0, voters = (if i = ''a'' then [''b''] else [''a'']), learners = []\<rparr> None None None)"

definition demo_cluster :: "KvState Cluster" where
  "demo_cluster = \<lparr>cl_nodes = demo_node, cl_requests = {}, cl_responses = {}, cl_leaders = {}\<rparr>"

lemma fresh_start:
  fixes M :: "'sm StateMachineOps"
  assumes n_def: "n = SetStoragePath M clk ''d'' (fresh_node i [] cfg None None None)"
  shows "rn_storage n = rs_new ''d/meta.json''" "rn_role n = Follower" "rn_node_id n = i" "rn_config n = cfg"
    "rn_config_state n = kStable" "rn_log n = None" "\<not> rn_shutdown n" "vote_durable n"
proof -
  have p: "with_slash ''d'' = ''d/''" by (simp add: with_slash_def)
  let ?s = "rs_new ''d/meta.json''"
  have l: "rs_Load ([], ?s) = (fst (rs_Flush ([], ?s)), ?s)"
    by (simp add: rs_Load_def rs_new_def ReadFile_def fs_read_def rs_Flush_def)
  have st: "rs_config_state ?s = kStable" by (simp add: rs_new_def)
  define n2 where "n2 = (fresh_node i [] cfg None None None :: 'sm RaftNode)\<lparr>rn_snapshot_dir := ''d/'', rn_storage := ?s,
      rn_disk := fst (rs_Flush ([], ?s)), rn_config_state := kStable, rn_joint := rs_joint_config ?s,
      rn_apply_progress := ap_new ''d/apply.meta''\<rparr>"
  have n: "n = (let m = on_progress ap_Load n2; k = ap_last_applied (rn_apply_progress m)
      in m\<lparr>rn_last_applied := k, rn_commit_index := k\<rparr>)"
    unfolding n_def SetStoragePath_def p n2_def
    by (simp add: Let_def on_storage_def on_progress_def l fresh_node_def rn_new_def recover_snapshot_def case_prod_beta st)
  show "rn_storage n = ?s" "rn_role n = Follower" "rn_node_id n = i" "rn_config n = cfg" "rn_config_state n = kStable"
    by (simp_all add: n Let_def n2_def fresh_node_def rn_new_def)
  show "rn_log n = None" "\<not> rn_shutdown n"
    by (simp_all add: n Let_def n2_def fresh_node_def rn_new_def on_progress_def case_prod_beta)
  have f: "rn_snapshot_manager n2 = None" "ap_path (rn_apply_progress n2) = ''d/apply.meta''" "rn_storage n2 = ?s"
    "rn_disk n2 = fst (rs_Flush ([], ?s))" "rs_path ?s = ''d/meta.json''"
    by (simp_all add: n2_def fresh_node_def rn_new_def ap_new_def rs_new_def)
  have "hard_file (''d/'' @ ''meta.json'')" unfolding hard_file_def by (rule suffixI) (rule refl)
  moreover have "other_file (''d/'' @ ''apply.meta'')" by (rule other_file_snapshot)
  ultimately have "vote_durable n2" using rs_Flush_on_disk [of ?s "[]"] by (simp add: vote_durable_def paths_ok_def f)
  moreover have "disciplined n2 (on_progress ap_Load n2)"
    by (rule disciplined_files) (simp_all add: paths_ok_def ap_Load_files)
  then have "disciplined n2 n" unfolding n Let_def by (rule disciplined_after) simp_all
  ultimately show "vote_durable n" by (simp add: disciplinedD)
qed

lemma demo_fields:
  "rn_storage (demo_node i) = rs_new ''d/meta.json''" "rn_role (demo_node i) = Follower" "rn_node_id (demo_node i) = i"
  "rn_config (demo_node i) = \<lparr>version = 0, voters = (if i = ''a'' then [''b''] else [''a'']), learners = []\<rparr>"
  "rn_config_state (demo_node i) = kStable" "rn_log (demo_node i) = None" "\<not> rn_shutdown (demo_node i)"
  "vote_durable (demo_node i)"
  using fresh_start [OF demo_node_def] by simp_all

lemma demo_init: "cluster_init {''a'', ''b''} demo_cluster"
  by (auto simp: cluster_init_def demo_cluster_def demo_fields fixed_config_def)

text \<open>Node \<open>a\<close> stands for election, \<open>b\<close> grants its vote, \<open>a\<close> wins.\<close>

lemma demo_election:
  obtains c where "cluster_reach (kv_ops plain_env) {''a'', ''b''} demo_cluster c" "rn_role (cl_nodes c ''a'') = Leader"
    "term_of (cl_nodes c ''a'') = 1"
proof -
  let ?M = "kv_ops plain_env" and ?V = "{''a'', ''b''}"
  define n1 where "n1 = BecomeCandidate (demo_node ''a'')"
  define req where "req = \<lparr>vq_group_id = rn_group_id n1, vq_term = 1, vq_candidate_id = ''a'', vq_last_log_index = 0, vq_last_log_term = 0\<rparr>"
  have log: "rn_log (SetRoleLocked r n) = rn_log n" "rn_log (on_storage g n) = rn_log n" for r g and n :: "KvState RaftNode"
    by (simp_all add: SetRoleLocked_def Let_def CancelTransfer_def StopHeartbeat_def StartHeartbeat_def on_storage_def
        split: RaftRole.split prod.split)
  have n1: "rn_role n1 = Candidate" "term_of n1 = 1" "rn_node_id n1 = ''a''" "rn_config n1 = rn_config (demo_node ''a'')"
    "rn_config_state n1 = kStable" "rn_log n1 = None"
    by (simp_all add: n1_def BecomeCandidate_def demo_fields rs_new_def log)
  have b: "election_begin (demo_node ''a'') = (Some (req, [''b'']), n1)"
    using n1 by (simp add: election_begin_def demo_fields n1_def [symmetric] req_def log_last_def log_last_term_def GetPeerIds_def)
  define c1 where "c1 = (put_node ''a'' n1 demo_cluster)\<lparr>cl_requests := insert req (cl_requests demo_cluster)\<rparr>"
  have f1: "fixed_config ?V ''a'' n1" using n1 by (auto simp: fixed_config_def demo_fields)
  have s1: "cluster_step ?M ?V demo_cluster c1"
    unfolding c1_def by (rule cl_begin [OF _ _ f1, where peers = "[''b'']"]) (simp_all add: demo_cluster_def b)
  define n2 where "n2 = snd (OnRequestVote req (demo_node ''b''))"
  define rsp where "rsp = fst (OnRequestVote req (demo_node ''b''))"
  have v: "vr_vote_granted rsp" "vr_term rsp = 1" "rn_config n2 = rn_config (demo_node ''b'')" "rn_config_state n2 = kStable"
    by (simp_all add: rsp_def n2_def OnRequestVote_def Let_def req_def demo_fields rs_new_def BecomeFollower_def vote_rsp_def
        log_last_def log_last_term_def log)
  define c2 where "c2 = (put_node ''b'' n2 c1)\<lparr>cl_responses := insert (''b'', req, rsp) (cl_responses c1)\<rparr>"
  have nb: "cl_nodes c1 ''b'' = demo_node ''b''" "req \<in> cl_requests c1"
    by (simp_all add: c1_def put_node_def demo_cluster_def)
  have s2: "cluster_step ?M ?V c1 c2"
    unfolding c2_def using v nb
    by (intro cl_vote) (auto simp: n2_def rsp_def fixed_config_def demo_fields)
  define clk where "clk = \<lparr>steady_ms = 0, wall_ms = 0\<rparr>"
  define n3 where "n3 = election_finish clk req (tally_of req [(''b'', rsp)]) n1"
  have t: "ta_max_term (tally_of req [(''b'', rsp)]) = 1" "votes_received (ta_result (tally_of req [(''b'', rsp)])) = 2"
    using v(1,2) by (simp_all add: tally_of_def tally_add_def tally_init_def req_def)
  have n3: "n3 = BecomeLeader clk (n1\<lparr>rn_vote_count := 2\<rparr>)"
    using n1 t by (simp add: n3_def election_finish_def Let_def req_def TryBecomeLeaderLocked_def demo_fields BecomeLeader_fields)
  have cfg3: "rn_config n3 = rn_config n1" "rn_config_state n3 = rn_config_state n1"
    by (simp_all add: n3 BecomeLeader_def BecomeLeaderInitPeers_def Let_def)
  have na: "cl_nodes c2 ''a'' = n1" "req \<in> cl_requests c2" "(''b'', req, rsp) \<in> cl_responses c2"
    by (simp_all add: c2_def c1_def put_node_def)
  define c3 where "c3 = (put_node ''a'' n3 c2)
      \<lparr>cl_leaders := (if rn_role n3 = Leader then insert (term_of n3, ''a'') (cl_leaders c2) else cl_leaders c2)\<rparr>"
  have f3: "fixed_config ?V ''a'' n3" using f1 cfg3 by (simp add: fixed_config_def)
  have peers: "map fst [(''b'', rsp)] = GetPeerIds (cl_nodes c2 ''a'')"
    using n1 by (simp add: na(1) GetPeerIds_def demo_fields)
  have cand: "vq_candidate_id req = ''a''" by (simp add: req_def)
  have s3: "cluster_step ?M ?V c2 c3"
    unfolding c3_def
    by (rule cl_finish [OF _ na(2) cand peers _ _ f3, where clk = clk]) (simp_all add: na n3_def)
  have "cluster_reach ?M ?V demo_cluster c3"
    using reach_step [OF reach_step [OF reach_step [OF reach_start s1] s2] s3] .
  moreover have "rn_role (cl_nodes c3 ''a'') = Leader" "term_of (cl_nodes c3 ''a'') = 1"
    using n1(2) by (simp_all add: c3_def put_node_def n3 BecomeLeader_fields)
  ultimately show thesis using that by blast
qed

section \<open>Election Safety\<close>

text \<open>C1: Election Safety. In every run of a cluster over the key-value store, with messages lost,
  delayed, repeated and reordered and nodes that lose power and restart from their files, no term has two
  leaders: neither one after the other, nor at the same time.\<close>

theorem election_safety:
  assumes "cluster_init members c0" and "cluster_reach (kv_ops env) members c0 c"
  shows "(\<forall>t i j. (t, i) \<in> cl_leaders c \<and> (t, j) \<in> cl_leaders c \<longrightarrow> i = j)
    \<and> (\<forall>i j. i \<in> members \<and> j \<in> members \<and> rn_role (cl_nodes c i) = Leader \<and> rn_role (cl_nodes c j) = Leader
      \<and> term_of (cl_nodes c i) = term_of (cl_nodes c j) \<longrightarrow> i = j)"
proof -
  have inv: "cluster_inv members c"
    using kv_snapshots.cluster_reach_inv [OF assms(2)] cluster_init_inv [OF assms(1)] .
  have "(term_of (cl_nodes c k), k) \<in> cl_leaders c" if "k \<in> members" "rn_role (cl_nodes c k) = Leader" for k
    using inv that by (simp add: cluster_inv_def node_ok_def)
  then show ?thesis using one_leader_per_term [OF inv] by metis
qed

theorem election_safety_witness:
  "\<exists>c. cluster_reach (kv_ops plain_env) {''a'', ''b''} demo_cluster c \<and> rn_role (cl_nodes c ''a'') = Leader
    \<and> \<not> (rn_role (cl_nodes c ''b'') = Leader \<and> term_of (cl_nodes c ''b'') = term_of (cl_nodes c ''a''))"
proof -
  obtain c where c: "cluster_reach (kv_ops plain_env) {''a'', ''b''} demo_cluster c" "rn_role (cl_nodes c ''a'') = Leader"
    using demo_election by metis
  have "\<not> (rn_role (cl_nodes c ''b'') = Leader \<and> term_of (cl_nodes c ''b'') = term_of (cl_nodes c ''a''))"
    using conjunct2 [OF election_safety [OF demo_init c(1)], rule_format, of "''b''" "''a''"] c(2) by auto
  then show ?thesis using c by blast
qed

text \<open>C2: the invariant behind it. In every reachable state of the cluster, candidates and leaders have voted
  for themselves, the hard-state file on stable storage holds each node's term and vote, and no node has
  given two votes in one term.\<close>

theorem cluster_vote_invariant:
  assumes "cluster_init members c0" and "cluster_reach (kv_ops env) members c0 c" and "i \<in> members"
  shows "(rn_role (cl_nodes c i) \<noteq> Follower \<longrightarrow> vote_of (cl_nodes c i) = i)
    \<and> on_disk (rn_storage (cl_nodes c i)) (rn_disk (cl_nodes c i))
    \<and> (\<forall>t x y. voted c i t x \<and> voted c i t y \<longrightarrow> x = y)"
proof -
  have "cluster_inv members c"
    using kv_snapshots.cluster_reach_inv [OF assms(2)] cluster_init_inv [OF assms(1)] .
  then have "node_ok members c i (cl_nodes c i)" using assms(3) by (simp add: cluster_inv_def)
  then show ?thesis unfolding node_ok_def vote_durable_def votes_ok_def by blast
qed

theorem cluster_vote_invariant_witness:
  "\<exists>c. cluster_reach (kv_ops plain_env) {''a'', ''b''} demo_cluster c \<and> rn_role (cl_nodes c ''a'') = Leader
    \<and> vote_of (cl_nodes c ''a'') = ''a'' \<and> on_disk (rn_storage (cl_nodes c ''a'')) (rn_disk (cl_nodes c ''a''))"
proof -
  obtain c where c: "cluster_reach (kv_ops plain_env) {''a'', ''b''} demo_cluster c" "rn_role (cl_nodes c ''a'') = Leader"
    using demo_election by metis
  have "vote_of (cl_nodes c ''a'') = ''a''" "on_disk (rn_storage (cl_nodes c ''a'')) (rn_disk (cl_nodes c ''a''))"
    using cluster_vote_invariant [OF demo_init c(1), of "''a''"] c(2) by simp_all
  then show ?thesis using c by blast
qed

end
