(* ===== verification/Raft_Progress.thy ===== *)
theory Raft_Progress
  imports Raft_Client Kv_Spec
begin

text \<open>
  What the handlers and rounds of a node do to its log, its commit index and its state machine.
\<close>

section \<open>Applying\<close>

lemma ls_Flush_keeps:
  assumes "ls_inv l"
  shows "ls_inv (ls_Flush l)" "ls_base (ls_Flush l) = ls_base l" "ls_ents (ls_Flush l) = ls_ents l"
proof (atomize (full), cases l)
  case (Segmented g)
  have "sl_inv (snd (sl_Flush g)) \<and> sl_base (snd (sl_Flush g)) = sl_base g \<and> sl_ents (snd (sl_Flush g)) = sl_ents g"
    using assms
    by (auto simp: Segmented ls_inv_def sl_inv_def sl_Flush_def sl_ents_def writer_ok_def ww_Flush_def ww_IsOpen_def
        split: option.splits)
  then show "ls_inv (ls_Flush l) \<and> ls_base (ls_Flush l) = ls_base l \<and> ls_ents (ls_Flush l) = ls_ents l"
    by (simp add: Segmented ls_defs ls_Flush_def)
qed (use assms in \<open>simp add: ls_defs ls_Flush_def\<close>)

definition is_config :: "LogEntry \<Rightarrow> bool" where
  "is_config e \<longleftrightarrow> starts_with ''CONFIG_CHANGE'' (command e)"

text \<open>The entries with indexes above \<open>a\<close> up to \<open>b\<close>.\<close>

definition ents_between :: "LogStore \<Rightarrow> LogIndex \<Rightarrow> LogIndex \<Rightarrow> LogEntry list" where
  "ents_between l a b = take (b - a) (drop (a - ls_base l) (ls_ents l))"

lemma ents_between_split:
  assumes "ls_base l \<le> a" "a \<le> b" "b \<le> c"
  shows "ents_between l a c = ents_between l a b @ ents_between l b c"
proof -
  have "c - a = (b - a) + (c - b)" "b - ls_base l = (b - a) + (a - ls_base l)" using assms by auto
  then show ?thesis by (simp add: ents_between_def take_add add.commute)
qed

lemma ents_between_empty [simp]: "ents_between l a a = []"
  by (simp add: ents_between_def)

text \<open>The batch the loop reads next.\<close>

lemma next_batch:
  assumes "ls_inv l" "ls_base l \<le> a" "a < c" "a < ls_LastIndex l"
  defines "m \<equiv> min (min kBatchSize (c - a)) (ls_LastIndex l - a)"
    and "es \<equiv> ls_GetRange l (a + 1) (min kBatchSize (c - a))"
  shows "es = ents_between l a (a + m)" "0 < m" "a + m \<le> min c (ls_LastIndex l)" "es \<noteq> []"
    "entry_index (last es) = a + m" "set es \<subseteq> set (ls_ents l)"
proof -
  let ?ys = "drop (a - ls_base l) (ls_ents l)"
  have L: "ls_LastIndex l = ls_base l + length (ls_ents l)" using assms(1) by (rule ls.LastIndex)
  then have ly: "length ?ys = ls_LastIndex l - a" using assms(2) by simp
  have x: "min kBatchSize (c - a) \<noteq> 0" using assms(3) by (simp add: kBatchSize_def)
  have r: "es = take (min kBatchSize (c - a)) ?ys"
    using ls.GetRange [OF assms(1), of "a + 1" "min kBatchSize (c - a)"] assms(2-4) x
    by (simp add: Let_def es_def)
  show m: "0 < m" using assms(3,4) by (simp add: m_def kBatchSize_def)
  show "a + m \<le> min c (ls_LastIndex l)" using assms(3,4) unfolding m_def by linarith
  have len: "length es = m" unfolding r m_def length_take ly by (rule min.commute)
  then show ne: "es \<noteq> []" using m by auto
  show "es = ents_between l a (a + m)"
    unfolding r m_def ents_between_def ly [symmetric] by (simp add: min_def)
  have "numbered (ls_base l + (a - ls_base l)) es"
    unfolding r by (rule numbered_take, rule numbered_drop, rule ls.inv_numbered, rule assms(1))
  then have "numbered a es" using assms(2) by simp
  then have "entry_index (es ! (m - 1)) = a + (m - 1) + 1" using m len by (simp add: numbered_def)
  then show "entry_index (last es) = a + m" using ne len m by (simp add: last_conv_nth)
  show "set es \<subseteq> set (ls_ents l)" unfolding r using set_take_subset set_drop_subset by fast
qed

definition run_entries :: "'sm StateMachineOps \<Rightarrow> Clock \<Rightarrow> LogEntry list \<Rightarrow> 'sm \<Rightarrow> 'sm" where
  "run_entries M clk es s = snd (apply_all (sm_ApplyLogEntry M) (map (Pair (wall_ms clk)) es) s)"

lemma run_entries_append: "run_entries M clk (xs @ ys) s = run_entries M clk ys (run_entries M clk xs s)"
  by (simp add: run_entries_def apply_all_append)

lemma run_entries_simps [simp]:
  "run_entries M clk [] s = s"
  "run_entries M clk (e # es) s = run_entries M clk es (snd (sm_ApplyLogEntry M (wall_ms clk) e s))"
  by (simp_all add: run_entries_def case_prod_beta)

lemma apply_batch:
  assumes "rn_sm n = Some s" "\<not> rn_crashed n" "list_all (\<lambda>e. \<not> is_config e) es" "es \<noteq> []"
  shows "\<exists>r'. fold (apply_one M clk) es (r, n)
    = (r', n\<lparr>rn_sm := Some (run_entries M clk es s), rn_last_applied := entry_index (last es)\<rparr>)"
  using assms
proof (induction es arbitrary: r n s)
  case Nil
  then show ?case by blast
next
  case (Cons e es)
  obtain res s1 where e: "sm_ApplyLogEntry M (wall_ms clk) e s = (res, s1)"
    by (cases "sm_ApplyLogEntry M (wall_ms clk) e s")
  let ?n = "n\<lparr>rn_sm := Some s1, rn_last_applied := entry_index e\<rparr>"
  have one: "apply_one M clk e (r, n) = (res, ?n)"
    using Cons.prems e by (simp add: apply_one_def is_config_def)
  show ?case
  proof (cases "es = []")
    case True
    then show ?thesis using one e by simp
  next
    case False
    have "\<exists>r'. fold (apply_one M clk) es (res, ?n)
        = (r', ?n\<lparr>rn_sm := Some (run_entries M clk es s1), rn_last_applied := entry_index (last es)\<rparr>)"
      using Cons.prems False by (intro Cons.IH) simp_all
    then show ?thesis using one e False by simp
  qed
qed

text \<open>The log is the same, up to what is buffered.\<close>

definition same_log :: "'sm RaftNode \<Rightarrow> LogStore \<Rightarrow> bool" where
  "same_log n l \<longleftrightarrow> (case rn_log n of None \<Rightarrow> False
     | Some l' \<Rightarrow> ls_inv l' \<and> ls_base l' = ls_base l \<and> ls_ents l' = ls_ents l)"

lemma same_logD:
  assumes "same_log n l" "ls_inv l"
  obtains l' where "rn_log n = Some l'" "ls_inv l'" "ls_base l' = ls_base l" "ls_ents l' = ls_ents l"
    "ls_LastIndex l' = ls_LastIndex l"
  using assms ls.LastIndex by (auto simp: same_log_def split: option.splits)

lemma flush_progress_keeps:
  "rn_sm (flush_progress clk n) = rn_sm n" "rn_last_applied (flush_progress clk n) = rn_last_applied n"
  "rn_commit_index (flush_progress clk n) = rn_commit_index n" "rn_crashed (flush_progress clk n) = rn_crashed n"
  "same_log n l \<Longrightarrow> same_log (flush_progress clk n) l"
  using ls_Flush_keeps
  by (auto simp: flush_progress_def Let_def on_progress_def on_log_def same_log_def case_prod_beta split: option.splits)

definition applied_to :: "LogIndex \<Rightarrow> LogStore \<Rightarrow> 'sm \<Rightarrow> 'sm RaftNode \<Rightarrow> 'sm RaftNode \<Rightarrow> bool" where
  "applied_to goal l s n n' \<longleftrightarrow> rn_last_applied n' = goal \<and> \<not> rn_crashed n' \<and> rn_commit_index n' = rn_commit_index n
     \<and> same_log n' l \<and> rn_sm n' = Some s"

lemma apply_loop_step:
  assumes "same_log n l" "ls_inv l" "rn_sm n = Some s" "\<not> rn_crashed n" "ls_base l \<le> rn_last_applied n"
    and "list_all (\<lambda>e. \<not> is_config e) (ls_ents l)" "rn_last_applied n < rn_commit_index n" "rn_last_applied n < ls_LastIndex l"
  obtains b r' n' where "apply_loop M clk (Suc k) (r, n) = apply_loop M clk k (r', n')"
    "applied_to b l (run_entries M clk (ents_between l (rn_last_applied n) b) s) n n'"
    "rn_last_applied n < b" "b \<le> min (rn_commit_index n) (ls_LastIndex l)"
proof -
  obtain l0 where l0: "rn_log n = Some l0" "ls_inv l0" "ls_base l0 = ls_base l" "ls_ents l0 = ls_ents l"
    "ls_LastIndex l0 = ls_LastIndex l" using same_logD [OF assms(1,2)] by metis
  let ?a = "rn_last_applied n" and ?c = "rn_commit_index n"
  let ?es = "ls_GetRange l0 (?a + 1) (min kBatchSize (?c - ?a))"
  define b where "b = ?a + min (min kBatchSize (?c - ?a)) (ls_LastIndex l0 - ?a)"
  have base: "ls_base l0 \<le> ?a" and less: "?a < ls_LastIndex l0" using assms(5,8) l0 by simp_all
  note nb = next_batch [OF l0(2) base assms(7) less, folded b_def]
  have cfg: "list_all (\<lambda>e. \<not> is_config e) ?es" using assms(6) nb(6) l0(4) unfolding list_all_iff by auto
  let ?n = "n\<lparr>rn_sm := Some (run_entries M clk ?es s), rn_last_applied := b\<rparr>"
  obtain r1 where f: "fold (apply_one M clk) ?es (r, n) = (r1, ?n)"
    using apply_batch [OF assms(3,4) cfg nb(4), of M clk r] nb(5) by auto
  have "apply_loop M clk (Suc k) (r, n) = apply_loop M clk k (r1, flush_progress clk ?n)"
    using assms(4,7) l0(1) less nb(4) f by (simp add: Let_def)
  moreover have "same_log ?n l" using assms(1) by (simp add: same_log_def)
  then have "applied_to b l (run_entries M clk ?es s) n (flush_progress clk ?n)"
    using assms(4) by (simp add: applied_to_def flush_progress_keeps)
  moreover have "?es = ents_between l ?a b" using nb(1) l0(3,4) by (simp add: ents_between_def)
  ultimately show thesis using that nb(2,3) l0(5) b_def by auto
qed

lemma apply_loop_applies:
  assumes "same_log n l" "ls_inv l" "rn_sm n = Some s" "\<not> rn_crashed n" "ls_base l \<le> rn_last_applied n"
    and "list_all (\<lambda>e. \<not> is_config e) (ls_ents l)" "rn_commit_index n - rn_last_applied n \<le> k"
    and "goal = max (rn_last_applied n) (min (rn_commit_index n) (ls_LastIndex l))"
  shows "applied_to goal l (run_entries M clk (ents_between l (rn_last_applied n) goal) s) n (snd (apply_loop M clk k (r, n)))"
  using assms
proof (induction k arbitrary: n s r)
  case 0
  then have "goal = rn_last_applied n" by simp
  then show ?case using "0.prems" by (simp add: applied_to_def)
next
  case (Suc k)
  show ?case
  proof (cases "rn_last_applied n < rn_commit_index n \<and> rn_last_applied n < ls_LastIndex l")
    case False
    then have g: "goal = rn_last_applied n" using Suc.prems(8) by auto
    obtain l' where l': "rn_log n = Some l'" "ls_LastIndex l' = ls_LastIndex l"
      using same_logD [OF Suc.prems(1,2)] by metis
    have "snd (apply_loop M clk (Suc k) (r, n)) = n"
      using l' False Suc.prems(4) by (simp add: Let_def)
    then show ?thesis using Suc.prems g by (simp add: applied_to_def)
  next
    case True
    obtain b r' n' where st: "apply_loop M clk (Suc k) (r, n) = apply_loop M clk k (r', n')"
      "applied_to b l (run_entries M clk (ents_between l (rn_last_applied n) b) s) n n'"
      "rn_last_applied n < b" "b \<le> min (rn_commit_index n) (ls_LastIndex l)"
      using apply_loop_step [OF Suc.prems(1-6), of M clk k r] True by metis
    have n': "same_log n' l" "rn_last_applied n' = b" "rn_commit_index n' = rn_commit_index n" "\<not> rn_crashed n'"
      "rn_sm n' = Some (run_entries M clk (ents_between l (rn_last_applied n) b) s)"
      using st(2) by (simp_all add: applied_to_def)
    have k: "rn_commit_index n' - rn_last_applied n' \<le> k" "ls_base l \<le> rn_last_applied n'"
      "goal = max (rn_last_applied n') (min (rn_commit_index n') (ls_LastIndex l))" "b \<le> goal"
      using Suc.prems(5,7,8) st(3,4) n'(2,3) by auto
    have "ents_between l (rn_last_applied n) goal = ents_between l (rn_last_applied n) b @ ents_between l b goal"
      using Suc.prems(5) st(3) k(4) by (intro ents_between_split) auto
    then show ?thesis
      using Suc.IH [OF n'(1) Suc.prems(2) n'(5,4) k(2) Suc.prems(6) k(1,3), of r'] st(1) n'(2,3)
      by (simp add: applied_to_def run_entries_append)
  qed
qed

lemma ApplyCommittedLogs_applies:
  assumes "rn_log n = Some l" and "ls_inv l" and "rn_sm n = Some s" and "\<not> rn_crashed n"
    and "ls_base l \<le> rn_last_applied n" and "list_all (\<lambda>e. \<not> is_config e) (ls_ents l)"
    and "goal = max (rn_last_applied n) (min (rn_commit_index n) (ls_LastIndex l))"
  shows "applied_to goal l (run_entries M clk (ents_between l (rn_last_applied n) goal) s) n (snd (ApplyCommittedLogs M clk n))"
proof -
  have "same_log n l" using assms(1,2) by (simp add: same_log_def)
  from apply_loop_applies [OF this assms(2-6) order_refl assms(7)] show ?thesis
    using assms(1,3) by (simp add: ApplyCommittedLogs_def)
qed

text \<open>A node with one committed write in its log.\<close>

definition demo_write :: LogEntry where
  "demo_write = mk_entry 1 0 ''SET k v''"

definition demo_log :: LogStore where
  "demo_log = snd (ls_Append demo_write True (InMemory cl_init))"

definition demo_follower :: "KvState RaftNode" where
  "demo_follower = (rn_new ''a'')\<lparr>rn_log := Some demo_log, rn_sm := Some (kv_init 1), rn_commit_index := 1\<rparr>"

lemma demo_log_fields:
  "ls_inv demo_log" "ls_base demo_log = 0" "ls_ents demo_log = [demo_write\<lparr>entry_index := 1\<rparr>]" "ls_LastIndex demo_log = 1"
  "\<not> is_config (demo_write\<lparr>entry_index := i\<rparr>)"
proof -
  have i: "ls_inv (InMemory cl_init)" "ls_ents (InMemory cl_init) = []" "ls_base (InMemory cl_init) = 0"
    by (simp_all add: ls_defs cl_init_inv cl_init_ents)
  then have "ls_LastIndex (InMemory cl_init) = 0" using ls.LastIndex by simp
  then show d: "ls_inv demo_log" "ls_base demo_log = 0" "ls_ents demo_log = [demo_write\<lparr>entry_index := 1\<rparr>]"
    using ls.Append [OF i(1) prod.collapse [symmetric], of demo_write True] i by (simp_all add: demo_log_def)
  then show "ls_LastIndex demo_log = 1" using ls.LastIndex by simp
  show "\<not> is_config (demo_write\<lparr>entry_index := i\<rparr>)" by (simp add: is_config_def demo_write_def mk_entry_def)
qed

lemma demo_follower_fields [simp]:
  "rn_log demo_follower = Some demo_log" "rn_sm demo_follower = Some (kv_init 1)" "\<not> rn_crashed demo_follower"
  "rn_last_applied demo_follower = 0" "rn_commit_index demo_follower = 1"
  by (simp_all add: demo_follower_def rn_new_def)

text \<open>C5: every committed entry the log holds gets applied. One call of ApplyCommittedLogs runs the state
  machine on the entries after the last applied one, up to the commit index or the end of the log,
  each once and in order, and records the last of them as applied; batches and the periodic flushing of
  the progress file make no difference. (No membership entry among them; the log not compacted beyond
  the last applied entry.)\<close>

theorem committed_entries_are_applied:
  assumes "rn_log n = Some l" and "ls_inv l" and "rn_sm n = Some s" and "\<not> rn_crashed n"
    and "ls_base l \<le> rn_last_applied n" and "list_all (\<lambda>e. \<not> is_config e) (ls_ents l)"
    and "goal = max (rn_last_applied n) (min (rn_commit_index n) (ls_LastIndex l))"
    and "n' = snd (ApplyCommittedLogs M clk n)"
  shows "rn_last_applied n' = goal
    \<and> rn_sm n' = Some (snd (apply_all (sm_ApplyLogEntry M)
        (map (Pair (wall_ms clk)) (ents_between l (rn_last_applied n) goal)) s))"
  using ApplyCommittedLogs_applies [OF assms(1-7), of M clk] assms(8) by (simp add: applied_to_def run_entries_def)

theorem committed_entries_are_applied_witness:
  "rn_last_applied (snd (ApplyCommittedLogs (kv_ops plain_env) \<lparr>steady_ms = 0, wall_ms = 0\<rparr> demo_follower)) = 1"
  using committed_entries_are_applied [of demo_follower demo_log "kv_init 1" 1
      "snd (ApplyCommittedLogs (kv_ops plain_env) \<lparr>steady_ms = 0, wall_ms = 0\<rparr> demo_follower)"
      "kv_ops plain_env" "\<lparr>steady_ms = 0, wall_ms = 0\<rparr>"]
  by (simp add: demo_log_fields)

section \<open>Waiting\<close>

lemma wait_loop_result:
  "fst (wait_loop M d target turns n) = WaitApplied \<Longrightarrow> target \<le> rn_last_applied (snd (wait_loop M d target turns n))"
  by (induction turns arbitrary: n) (auto simp: Let_def split: if_splits)

lemma wait_loop_stops:
  assumes "i < length turns" "d < steady_ms (fst (turns ! i))"
  shows "fst (wait_loop M d target turns n) \<noteq> WaitRunning"
  using assms
proof (induction turns arbitrary: n i)
  case (Cons t turns)
  obtain clk others where t: "t = (clk, others)" by (cases t)
  show ?case
  proof (cases i)
    case 0
    then show ?thesis using Cons.prems t by (simp add: Let_def)
  next
    case (Suc j)
    then show ?thesis using Cons.IH [of j] Cons.prems t by (simp add: Let_def)
  qed
qed simp

lemma strictly_later:
  assumes "sorted_wrt (\<lambda>a b. f a < f b) xs" "\<forall>x \<in> set xs. a \<le> f x" "i < length xs"
  shows "a + i \<le> (f (xs ! i) :: nat)"
  using assms(3)
proof (induction i)
  case 0
  then show ?case using assms(2) by simp
next
  case (Suc i)
  have "f (xs ! i) < f (xs ! Suc i)" using assms(1) Suc.prems by (simp add: sorted_wrt_iff_nth_less)
  then show ?case using Suc by simp
qed

text \<open>C10: waiting for an index to be applied ends. Each turn of the loop sleeps a millisecond, so the
  clock readings of the turns grow; whatever the other fibers do to the node in between, within
  the timeout plus two turns the wait has returned, and when it reports success the index is applied.\<close>

theorem WaitForApplied_returns:
  assumes "kWaitForAppliedTimeoutMs + 2 \<le> length turns"
    and "sorted_wrt (\<lambda>a b. steady_ms (fst a) < steady_ms (fst b)) turns"
    and "\<forall>t \<in> set turns. steady_ms clk \<le> steady_ms (fst t)"
    and "WaitForApplied M clk target turns n = (r, n')"
  shows "r \<noteq> WaitRunning \<and> (r = WaitApplied \<longrightarrow> target \<le> rn_last_applied n')"
proof -
  let ?i = "kWaitForAppliedTimeoutMs + 1"
  have i: "?i < length turns" using assms(1) by simp
  then have "steady_ms clk + ?i \<le> steady_ms (fst (turns ! ?i))" by (rule strictly_later [OF assms(2,3)])
  then have "fst (WaitForApplied M clk target turns n) \<noteq> WaitRunning"
    unfolding WaitForApplied_def by (intro wait_loop_stops [OF i]) simp
  then show ?thesis
    using assms(4) wait_loop_result [of M "steady_ms clk + kWaitForAppliedTimeoutMs" target turns n]
    by (simp add: WaitForApplied_def)
qed

theorem WaitForApplied_returns_witness:
  "fst (WaitForApplied (kv_ops plain_env) \<lparr>steady_ms = 0, wall_ms = 0\<rparr> 7
     (map (\<lambda>k. (\<lparr>steady_ms = k, wall_ms = 0\<rparr>, \<lambda>n. n)) [0..<5002]) demo_follower) \<noteq> WaitRunning"
  using WaitForApplied_returns [of "map (\<lambda>k. (\<lparr>steady_ms = k, wall_ms = 0\<rparr>, \<lambda>n. n)) [0..<5002]"
      "\<lparr>steady_ms = 0, wall_ms = 0\<rparr>" "kv_ops plain_env" 7 demo_follower, OF _ _ _ prod.collapse [symmetric]]
  by (simp add: kWaitForAppliedTimeoutMs_def sorted_wrt_map del: upt_rec_numeral)

section \<open>Reads\<close>

lemma prod_cases3_collapse: "x = (fst x, fst (snd x), snd (snd x))"
  by simp

text \<open>The answers the confirmation round of a read gets.\<close>

fun read_answers :: "'w Transport \<Rightarrow> ReadIndexRequest \<Rightarrow> NodeId list \<Rightarrow> 'w \<Rightarrow> ReadIndexResponse list" where
  "read_answers T req [] w = []"
| "read_answers T req (p # ps) w = (let (rsp, w1) = SendReadIndex T p req w in rsp # read_answers T req ps w1)"

definition confirms :: "Term \<Rightarrow> ReadIndexResponse \<Rightarrow> bool" where
  "confirms t rsp \<longleftrightarrow> rr_success rsp \<and> rr_term rsp = t"

lemma read_poll_answers:
  "fst (read_poll T req ps acc w)
    = (fst acc + length (filter (confirms (rq_term req)) (read_answers T req ps w)),
       foldl max (snd acc) (map rr_term (read_answers T req ps w)))"
  by (induction ps arbitrary: acc w) (auto simp: Let_def case_prod_beta confirms_def)

lemma foldl_max_ge: "(a :: nat) \<le> foldl max a xs" "x \<in> set xs \<Longrightarrow> x \<le> foldl max a xs"
proof (induction xs arbitrary: a)
  case (Cons y ys)
  {
    case 1
    show ?case using Cons.IH(1) [of "max a y"] by simp
  next
    case 2
    then show ?case using Cons.IH [of "max a y"] by auto
  }
qed simp_all

definition read_request :: "'sm RaftNode \<Rightarrow> ReadIndexRequest" where
  "read_request n = \<lparr>rq_group_id = rn_group_id n, rq_term = term_of n, rq_leader_id = rn_node_id n,
     rq_request_id = rn_next_read_id n + 1\<rparr>"

text \<open>A call that gets past the confirmation round: the node after it, the index, and the wait.\<close>

lemma ReadIndex_slow:
  assumes "ReadIndex M T others clk turns n w = (Some i, n', w')" "0 < i" "rn_role n = Leader" "rn_lease_expire n \<le> steady_ms clk"
    and "(acc, w1) = read_poll T (read_request n) (if rn_transport n then GetPeerIds n else []) (1, term_of n) w"
    and "m = fst (others (n\<lparr>rn_next_read_id := rn_next_read_id n + 1\<rparr>) w1)"
  shows "rn_role m = Leader" "term_of m = term_of n" "snd acc \<le> term_of n"
    "(length (voters (rn_config m)) + 1) div 2 + 1 \<le> fst acc" "i = rn_commit_index m"
    "\<exists>k v. read_wait M others clk turns i k v = (Some i, n', w')"
proof -
  define n1 where "n1 = n\<lparr>rn_next_read_id := rn_next_read_id n + 1\<rparr>"
  define v where "v = snd (others n1 w1)"
  have n1: "rn_transport n1 = rn_transport n" "GetPeerIds n1 = GetPeerIds n" by (simp_all add: n1_def GetPeerIds_def)
  have b: "read_begin clk n = (ReadSlow (read_request n) (GetPeerIds n), n1)"
    using assms(3,4) n1(2) by (simp add: read_begin_def Let_def n1_def read_request_def)
  have t: "rq_term (read_request n) = term_of n" by (simp add: read_request_def)
  have o: "others n1 w1 = (m, v)" using assms(6) by (simp add: v_def n1_def)
  have R: "ReadIndex M T others clk turns n w =
     (case read_finish clk (read_request n) acc m of
        (None, n3) \<Rightarrow> (Some 0, n3, v) | (Some i, n3) \<Rightarrow> read_wait M others clk turns i n3 v)"
    unfolding ReadIndex_def Let_def b by (simp only: prod.case ReadPlan.case n1 t assms(5) [symmetric] o)
  obtain k where f: "read_finish clk (read_request n) acc m = (Some (rn_commit_index m), k)"
    and c: "rn_role m = Leader" "term_of m = term_of n" "snd acc \<le> term_of m"
    "(length (voters (rn_config m)) + 1) div 2 + 1 \<le> fst acc"
    using R assms(1,2) t by (auto simp: read_finish_def split: if_splits)
  then show "rn_role m = Leader" "term_of m = term_of n" "snd acc \<le> term_of n"
    "(length (voters (rn_config m)) + 1) div 2 + 1 \<le> fst acc" by simp_all
  have r: "read_wait M others clk turns (rn_commit_index m) k v = (Some i, n', w')" using R f assms(1) by simp
  then show i: "i = rn_commit_index m" by (auto simp: read_wait_def Let_def case_prod_beta split: if_splits)
  show "\<exists>k v. read_wait M others clk turns i k v = (Some i, n', w')" using r i by blast
qed

lemma ReadIndex_leader:
  assumes "ReadIndex M T others clk turns n w = (Some i, n', w')" "0 < i"
  shows "rn_role n = Leader"
  using assms by (rule_tac ccontr) (auto simp: ReadIndex_def read_begin_def)

lemma ReadIndex_cases:
  assumes "ReadIndex M T others clk turns n w = (Some i, n', w')" "0 < i"
    and "\<forall>n w. rn_commit_index n \<le> rn_commit_index (fst (others n w))"
  shows "rn_commit_index n \<le> i \<and> (\<exists>k v. read_wait M others clk turns i k v = (Some i, n', w'))"
proof (cases "steady_ms clk < rn_lease_expire n")
  case True
  then have r: "read_wait M others clk turns (rn_commit_index n) n w = (Some i, n', w')"
    using assms(1,2) ReadIndex_leader [OF assms(1,2)] by (simp add: ReadIndex_def read_begin_def)
  then have "i = rn_commit_index n" by (auto simp: read_wait_def Let_def case_prod_beta split: if_splits)
  then show ?thesis using r by blast
next
  case False
  then have "rn_lease_expire n \<le> steady_ms clk" by simp
  note slow = ReadIndex_slow [OF assms(1,2) ReadIndex_leader [OF assms(1,2)] this prod.collapse refl]
  define n1 where "n1 = n\<lparr>rn_next_read_id := rn_next_read_id n + 1\<rparr>"
  have "rn_commit_index n \<le> rn_commit_index (fst (others n1 v))" for v
    using assms(3) [rule_format, of n1 v] by (simp add: n1_def)
  then have "rn_commit_index n \<le> i" using slow(5) by (simp add: n1_def)
  then show ?thesis using slow(6) by blast
qed

lemma wait_loop_late:
  "fst (wait_loop M d target turns n) = WaitTimedOut \<Longrightarrow> \<exists>t \<in> set turns. d < steady_ms (fst t)"
  by (induction turns arbitrary: n) (auto simp: Let_def split: if_splits)

text \<open>C6: a read index covers every write committed before the read. When ReadIndex returns an index on a
  node, the node was the leader, the index is at least its commit index at the call (as long as the other
  fibers do not lower the commit index), and on return the entries up to the index have been applied, or
  else the wait for them has passed its deadline.\<close>

theorem ReadIndex_covers_committed:
  assumes "ReadIndex M T others clk turns n w = (Some i, n', w')" and "0 < i"
    and "\<forall>n w. rn_commit_index n \<le> rn_commit_index (fst (others n w))"
  shows "rn_role n = Leader \<and> rn_commit_index n \<le> i
    \<and> (i \<le> rn_last_applied n' \<or> (\<exists>t \<in> set turns. steady_ms clk + kWaitForAppliedTimeoutMs < steady_ms (fst t)))"
proof -
  obtain k v where "rn_commit_index n \<le> i" and r: "read_wait M others clk turns i k v = (Some i, n', w')"
    using ReadIndex_cases [OF assms] by blast
  moreover define m where "m = fst (others k v)"
  have "n' = snd (WaitForApplied M clk i turns m)" "fst (WaitForApplied M clk i turns m) \<in> {WaitApplied, WaitTimedOut}"
    using r assms(2) by (auto simp: read_wait_def Let_def case_prod_beta m_def split: if_splits)
  then have "i \<le> rn_last_applied n' \<or> (\<exists>t \<in> set turns. steady_ms clk + kWaitForAppliedTimeoutMs < steady_ms (fst t))"
    using wait_loop_result [of M "steady_ms clk + kWaitForAppliedTimeoutMs" i turns m]
      wait_loop_late [of M "steady_ms clk + kWaitForAppliedTimeoutMs" i turns m] by (auto simp: WaitForApplied_def)
  ultimately show ?thesis using ReadIndex_leader [OF assms(1,2)] by blast
qed

text \<open>C7: a read is answered even when its index has not been applied. When the commit index of a leader with a
  valid lease lies behind the end of its log, the wait for it cannot succeed; once its deadline has passed,
  the call returns the index all the same, and the read goes on with a state machine that has not reached it.\<close>

theorem ReadIndex_returns_unapplied:
  assumes "rn_role n = Leader" and "steady_ms clk < rn_lease_expire n"
    and "rn_log n = Some l" and "ls_inv l" and "rn_sm n = Some s" and "\<not> rn_crashed n"
    and "ls_base l \<le> rn_last_applied n" and "list_all (\<lambda>e. \<not> is_config e) (ls_ents l)"
    and "rn_last_applied n \<le> ls_LastIndex l" and "ls_LastIndex l < rn_commit_index n"
    and "steady_ms clk + kWaitForAppliedTimeoutMs < steady_ms c"
  shows "\<exists>n'. ReadIndex M T quiet clk [(c, f)] n w = (Some (rn_commit_index n), n', w)
    \<and> rn_last_applied n' = ls_LastIndex l \<and> rn_last_applied n' < rn_commit_index n"
proof -
  define n' where "n' = snd (ApplyCommittedLogs M c n)"
  have "ls_LastIndex l = max (rn_last_applied n) (min (rn_commit_index n) (ls_LastIndex l))" using assms(9,10) by simp
  from ApplyCommittedLogs_applies [OF assms(3-8) this, of M c]
  have a: "rn_last_applied n' = ls_LastIndex l" "\<not> rn_crashed n'" by (simp_all add: applied_to_def n'_def)
  then have "WaitForApplied M clk (rn_commit_index n) [(c, f)] n = (WaitTimedOut, n')"
    using assms(10,11) by (simp add: WaitForApplied_def n'_def Let_def)
  moreover have "read_begin clk n = (ReadFast (rn_commit_index n), n)" using assms(1,2) by (simp add: read_begin_def)
  ultimately have "ReadIndex M T quiet clk [(c, f)] n w = (Some (rn_commit_index n), n', w)"
    using assms(10) by (simp add: ReadIndex_def read_wait_def)
  then show ?thesis using a(1) assms(10) by simp
qed

text \<open>A leader of two nodes, and a transport on which the other node agrees to everything.\<close>

definition demo_leader :: "KvState RaftNode" where
  "demo_leader = demo_follower\<lparr>rn_role := Leader, rn_transport := True,
     rn_config := \<lparr>version = 0, voters = [''b''], learners = []\<rparr>\<rparr>"

definition yes_transport :: "'w Transport" where
  "yes_transport =
     \<lparr>SendVoteRequest = \<lambda>p r w. (\<lparr>vr_group_id = 0, vr_term = vq_term r, vr_vote_granted = True\<rparr>, w),
      SendHeartbeat = \<lambda>p r w. (\<lparr>hr_group_id = 0, hr_term = hq_term r, hr_success = True, hr_last_log_index = 0\<rparr>, w),
      SendAppendEntries = \<lambda>p r w. (\<lparr>ar_group_id = 0, ar_term = aq_term r, ar_success = True, ar_last_log_index = 0\<rparr>, w),
      SendInstallSnapshot = \<lambda>p r w. (\<lparr>ir_group_id = 0, ir_term = iq_term r, ir_success = True\<rparr>, w),
      SendReadIndex = \<lambda>p r w. (\<lparr>rr_group_id = 0, rr_term = rq_term r, rr_success = True, rr_commit_index = 0\<rparr>, w),
      SendTimeoutNow = \<lambda>p r w. (\<lparr>tr_group_id = 0, tr_term = tq_term r, tr_accepted = True\<rparr>, w)\<rparr>"

lemma demo_leader_fields [simp]:
  "rn_log demo_leader = Some demo_log" "rn_sm demo_leader = Some (kv_init 1)" "\<not> rn_crashed demo_leader"
  "rn_last_applied demo_leader = 0" "rn_commit_index demo_leader = 1" "rn_role demo_leader = Leader"
  "GetPeerIds demo_leader = [''b'']" "voters (rn_config demo_leader) = [''b'']" "rn_transport demo_leader"
  "rn_lease_expire demo_leader = 0" "rn_group_id demo_leader = 0" "rn_node_id demo_leader = ''a''"
  "\<not> rn_group_active demo_leader" "rn_config_state demo_leader = kStable"
  by (simp_all add: demo_leader_def demo_follower_def rn_new_def GetPeerIds_def)

definition demo_reader :: "KvState RaftNode" where
  "demo_reader = fst (snd (ReadIndex (kv_ops plain_env) yes_transport quiet \<lparr>steady_ms = 0, wall_ms = 0\<rparr>
     [(\<lparr>steady_ms = 1, wall_ms = 9\<rparr>, \<lambda>n. n)] demo_leader ()))"

lemma demo_read:
  "ReadIndex (kv_ops plain_env) yes_transport quiet \<lparr>steady_ms = 0, wall_ms = 0\<rparr> [(\<lparr>steady_ms = 1, wall_ms = 9\<rparr>, \<lambda>n. n)] demo_leader ()
    = (Some 1, demo_reader, ())"
proof -
  let ?clk = "\<lparr>steady_ms = 0, wall_ms = 0\<rparr>" and ?c = "\<lparr>steady_ms = 1, wall_ms = 9\<rparr>"
  define m where "m = ExtendLeaderLease ?clk (demo_leader\<lparr>rn_next_read_id := rn_next_read_id demo_leader + 1, rn_last_majority_ack := 0\<rparr>)"
  have m: "rn_log m = Some demo_log" "rn_sm m = Some (kv_init 1)" "\<not> rn_crashed m" "rn_last_applied m = 0" "rn_commit_index m = 1"
    by (simp_all add: m_def ExtendLeaderLease_def)
  have "applied_to 1 demo_log (run_entries (kv_ops plain_env) ?c (ents_between demo_log (rn_last_applied m) 1) (kv_init 1)) m
      (snd (ApplyCommittedLogs (kv_ops plain_env) ?c m))"
    by (rule ApplyCommittedLogs_applies) (simp_all add: m demo_log_fields)
  then have a: "rn_last_applied (snd (ApplyCommittedLogs (kv_ops plain_env) ?c m)) = 1"
    "\<not> rn_crashed (snd (ApplyCommittedLogs (kv_ops plain_env) ?c m))" by (simp_all add: applied_to_def)
  have b: "read_begin ?clk demo_leader
      = (ReadSlow (read_request demo_leader) [''b''], demo_leader\<lparr>rn_next_read_id := rn_next_read_id demo_leader + 1\<rparr>)"
    by (simp add: read_begin_def read_request_def Let_def GetPeerIds_def)
  have f: "read_finish ?clk (read_request demo_leader) (2, term_of demo_leader)
      (demo_leader\<lparr>rn_next_read_id := rn_next_read_id demo_leader + 1\<rparr>) = (Some 1, m)"
    by (simp add: read_finish_def read_request_def m_def)
  have p: "read_poll yes_transport (read_request demo_leader) [''b''] (1, rq_term (read_request demo_leader)) () = ((2, term_of demo_leader), ())"
    by (simp add: yes_transport_def read_request_def)
  have "fst (read_wait (kv_ops plain_env) quiet ?clk [(?c, \<lambda>n. n)] 1 m ()) = Some 1"
    using a by (simp add: read_wait_def WaitForApplied_def Let_def)
  then have "fst (ReadIndex (kv_ops plain_env) yes_transport quiet ?clk [(?c, \<lambda>n. n)] demo_leader ()) = Some 1"
    by (simp add: ReadIndex_def b p f del: read_poll.simps One_nat_def)
  then show ?thesis unfolding demo_reader_def by (metis (full_types) prod.collapse old.unit.exhaust)
qed

theorem ReadIndex_covers_committed_witness:
  "1 \<le> rn_last_applied demo_reader"
  using ReadIndex_covers_committed [OF demo_read]
  by (simp add: kWaitForAppliedTimeoutMs_def)

theorem ReadIndex_returns_unapplied_witness:
  "fst (ReadIndex (kv_ops plain_env) yes_transport quiet \<lparr>steady_ms = 0, wall_ms = 0\<rparr>
     [(\<lparr>steady_ms = 5001, wall_ms = 0\<rparr>, \<lambda>n. n)] (demo_leader\<lparr>rn_commit_index := 6, rn_lease_expire := 1\<rparr>) ()) = Some 6"
  using ReadIndex_returns_unapplied [of "demo_leader\<lparr>rn_commit_index := 6, rn_lease_expire := 1\<rparr>" "\<lparr>steady_ms = 0, wall_ms = 0\<rparr>"
      demo_log "kv_init 1" "\<lparr>steady_ms = 5001, wall_ms = 0\<rparr>" "kv_ops plain_env" yes_transport "\<lambda>n. n" "()"]
  by (auto simp: demo_log_fields kWaitForAppliedTimeoutMs_def)

text \<open>C8: in the absence of a membership change, a leader without a valid lease answers a read only after a
  majority of the cluster, itself included, has confirmed its term: the answers counted are those of the
  voters of its configuration, and none of them came from a later term. (The other fibers may do anything
  to the node in between but change the configuration.)\<close>

theorem ReadIndex_needs_majority:
  assumes "ReadIndex M T others clk turns n w = (Some i, n', w')" and "0 < i" and "rn_lease_expire n \<le> steady_ms clk"
    and "rn_config_state n = kStable" and "\<forall>n w. rn_config (fst (others n w)) = rn_config n"
    and "answers = read_answers T (read_request n)
          (if rn_transport n then filter (\<lambda>v. v \<noteq> rn_node_id n) (voters (rn_config n)) else []) w"
  shows "rn_role n = Leader
    \<and> length (voters (rn_config n)) + 1 < 2 * (1 + length (filter (confirms (term_of n)) answers))
    \<and> list_all (\<lambda>a. rr_term a \<le> term_of n) answers"
proof -
  note leader = ReadIndex_leader [OF assms(1,2)]
  have p: "(if rn_transport n then filter (\<lambda>v. v \<noteq> rn_node_id n) (voters (rn_config n)) else [])
      = (if rn_transport n then GetPeerIds n else [])"
    using assms(4) by (simp add: GetPeerIds_def)
  note slow = ReadIndex_slow [OF assms(1,2) leader assms(3) prod.collapse refl,
      unfolded read_poll_answers, folded p, folded assms(6), simplified fst_conv snd_conv]
  have t: "rq_term (read_request n) = term_of n" by (simp add: read_request_def)
  have "rr_term a \<le> term_of n" if "a \<in> set answers" for a
    using foldl_max_ge(2) [of "rr_term a" "map rr_term answers" "term_of n"] that slow(3) by force
  then show ?thesis using leader slow(4) t assms(5) by (simp add: list_all_iff)
qed

theorem ReadIndex_needs_majority_witness:
  "2 < 2 * (1 + length (filter (confirms (term_of demo_leader)) (read_answers yes_transport (read_request demo_leader) [''b''] ())))"
  using ReadIndex_needs_majority [OF demo_read _ _ _ _ refl]
  by simp

section \<open>Writes\<close>

text \<open>The log of the second node starts with the log of the first.\<close>

definition log_grows :: "'sm RaftNode \<Rightarrow> 'sm RaftNode \<Rightarrow> bool" where
  "log_grows n n' \<longleftrightarrow> (case rn_log n of None \<Rightarrow> rn_log n' = None
     | Some l \<Rightarrow> ls_inv l \<longrightarrow> (\<exists>l' more. rn_log n' = Some l' \<and> ls_inv l' \<and> ls_base l' = ls_base l \<and> ls_ents l' = ls_ents l @ more))"

lemma log_grows_same: "rn_log n' = rn_log n \<Longrightarrow> log_grows n n'"
  by (simp add: log_grows_def split: option.splits)

lemma log_grows_refl [simp]: "log_grows n n"
  by (simp add: log_grows_same)

lemma log_grows_trans [trans]: "log_grows n m \<Longrightarrow> log_grows m k \<Longrightarrow> log_grows n k"
  by (fastforce simp: log_grows_def split: option.splits)

lemma log_growsD:
  assumes "log_grows n n'" "rn_log n = Some l" "ls_inv l" "ls_base l < i" "i \<le> ls_LastIndex l"
  obtains l' where "rn_log n' = Some l'" "ls_inv l'" "ls_Get l' i = ls_Get l i" "ls_LastIndex l \<le> ls_LastIndex l'"
    "ls_base l' = ls_base l"
proof -
  obtain l' more where l': "rn_log n' = Some l'" "ls_inv l'" "ls_base l' = ls_base l" "ls_ents l' = ls_ents l @ more"
    using assms(1-3) by (auto simp: log_grows_def)
  have L: "ls_LastIndex l = ls_base l + length (ls_ents l)" "ls_LastIndex l' = ls_base l' + length (ls_ents l')"
    using ls.LastIndex assms(3) l'(2) by simp_all
  have "ls_Get l i = Some (ls_ents l ! (i - ls_base l - 1))" using assms(3-5) by (rule ls.Get_present)
  moreover have "ls_Get l' i = Some (ls_ents l' ! (i - ls_base l' - 1))"
    using assms(4,5) l' L by (intro ls.Get_present) simp_all
  ultimately show thesis using that [OF l'(1,2)] assms(4,5) l'(3,4) L by (simp add: nth_append)
qed

lemma append_log_grows: "log_grows n (append_log e fl n)"
proof (cases "rn_log n")
  case (Some l)
  show ?thesis
    using ls.Append [OF _ prod.collapse [symmetric], of l e fl] Some by (auto simp: log_grows_def append_log_def on_log_def)
qed (simp add: log_grows_def append_log_def on_log_def)

text \<open>Applying keeps the log as it is, up to what is buffered.\<close>

definition log_kept :: "'sm RaftNode \<Rightarrow> 'sm RaftNode \<Rightarrow> bool" where
  "log_kept n n' \<longleftrightarrow> (case rn_log n of None \<Rightarrow> rn_log n' = None | Some l \<Rightarrow> ls_inv l \<longrightarrow> same_log n' l)"

lemma log_kept_same: "rn_log n' = rn_log n \<Longrightarrow> log_kept n n'"
  by (simp add: log_kept_def same_log_def split: option.splits)

lemma log_kept_refl [simp]: "log_kept n n"
  by (simp add: log_kept_same)

lemma log_kept_trans: "log_kept n m \<Longrightarrow> log_kept m k \<Longrightarrow> log_kept n k"
  by (auto simp: log_kept_def same_log_def split: option.splits)

lemma log_kept_grows: "log_kept n n' \<Longrightarrow> log_grows n n'"
  by (auto simp: log_kept_def log_grows_def same_log_def split: option.splits)

lemma flush_progress_kept: "log_kept n (flush_progress clk n)"
proof (cases "rn_log n")
  case (Some l)
  then have "ls_inv l \<Longrightarrow> same_log n l" by (simp add: same_log_def)
  then show ?thesis using Some flush_progress_keeps(5) by (auto simp: log_kept_def)
qed (simp add: log_kept_def flush_progress_def Let_def on_progress_def on_log_def case_prod_beta)

lemma apply_one_log: "rn_log (snd (apply_one M clk e rn)) = rn_log (snd rn)"
  by (auto simp: apply_one_def apply_config_def on_storage_def Let_def case_prod_beta split: option.splits)

lemma apply_fold_log: "rn_log (snd (fold (apply_one M clk) es rn)) = rn_log (snd rn)"
  by (induction es arbitrary: rn) (simp_all add: apply_one_log)

lemma apply_loop_kept: "log_kept (snd rn) (snd (apply_loop M clk k rn))"
proof (induction k arbitrary: rn)
  case (Suc k)
  obtain r n where rn: "rn = (r, n)" by (cases rn)
  show ?case
  proof (cases "rn_log n")
    case (Some l)
    let ?es = "ls_GetRange l (rn_last_applied n + 1) (min kBatchSize (rn_commit_index n - rn_last_applied n))"
    obtain r1 n1 where f: "fold (apply_one M clk) ?es (r, n) = (r1, n1)" by fastforce
    have g: "log_kept n n1" using apply_fold_log [of M clk ?es "(r, n)"] f by (intro log_kept_same) simp
    let ?n2 = "if rn_crashed n1 then n1 else flush_progress clk n1"
    have "log_kept n ?n2" using log_kept_trans [OF g flush_progress_kept] g by simp
    then have "log_kept n (snd (apply_loop M clk k (r1, ?n2)))" using Suc.IH [of "(r1, ?n2)"] log_kept_trans by fastforce
    then show ?thesis using Some rn f by (simp add: Let_def)
  qed (simp add: rn log_kept_same)
qed (simp add: log_kept_same)

lemma ApplyCommittedLogs_kept: "log_kept n (snd (ApplyCommittedLogs M clk n))"
  using apply_loop_kept [of "(ok_result, n)"] by (simp add: ApplyCommittedLogs_def log_kept_same)

lemma ApplyCommittedLogs_grows: "log_grows n (snd (ApplyCommittedLogs M clk n))"
  by (rule log_kept_grows, rule ApplyCommittedLogs_kept)

lemma SetRoleLocked_log: "rn_log (SetRoleLocked r n) = rn_log n"
  by (cases r) (simp_all add: SetRoleLocked_def Let_def StopHeartbeat_def StartHeartbeat_def CancelTransfer_def)

lemma BecomeFollower_log: "rn_log (BecomeFollower t n) = rn_log n"
  by (simp add: BecomeFollower_def SetRoleLocked_log on_storage_def case_prod_beta)

lemma AdvanceCommitIndex_log: "rn_log (AdvanceCommitIndexLocked n) = rn_log n"
  by (simp add: AdvanceCommitIndexLocked_def AdvanceCommitIndexJoint_def commit_candidate_def Let_def split: option.splits)

lemma MaybeAutoFinalize_grows: "log_grows n (MaybeAutoFinalizeJoint n)"
proof -
  have "log_grows n ((append_log e True n)\<lparr>rn_joint_finalize_appended := True\<rparr>)" for e
    by (rule log_grows_trans [OF append_log_grows log_grows_same]) simp
  then show ?thesis by (simp add: MaybeAutoFinalizeJoint_def split: option.splits)
qed

lemma commit_step_grows:
  assumes "log_grows n m"
  shows "log_grows n (snd (ApplyCommittedLogs M clk (MaybeAutoFinalizeJoint (AdvanceCommitIndexLocked m))))"
proof -
  have "log_grows n (AdvanceCommitIndexLocked m)" using assms log_grows_trans log_grows_same AdvanceCommitIndex_log by blast
  then show ?thesis using log_grows_trans MaybeAutoFinalize_grows ApplyCommittedLogs_grows by blast
qed

lemma rep_begin_log: "rn_log (snd (rep_begin n)) = rn_log n"
  by (simp add: rep_begin_def ResizePeerArrays_def Let_def split: option.splits)

lemma rep_finish_grows: "log_grows n (snd (rep_finish M clk plan rsps n))"
proof -
  define a where "a = snd (fold (peer_progress (rn_last_snapshot_index n)) (zip (rp_reqs plan) rsps) (False, rn_peers n))"
  have "log_grows n (snd (ApplyCommittedLogs M clk (MaybeAutoFinalizeJoint (AdvanceCommitIndexLocked (n\<lparr>rn_peers := a\<rparr>)))))"
    by (rule commit_step_grows, rule log_grows_same) simp
  moreover have "log_grows n (BecomeFollower t n)" for t by (rule log_grows_same) (rule BecomeFollower_log)
  ultimately show ?thesis by (simp add: rep_finish_def case_prod_beta a_def Let_def)
qed

text \<open>An entry at an index of the log. The sections of a write keep it, because they only append; what the
  other fibers do in between is the assumption \<open>stable_under\<close>.\<close>

definition holds_entry :: "LogIndex \<Rightarrow> LogEntry \<Rightarrow> 'sm RaftNode \<Rightarrow> bool" where
  "holds_entry i x n \<longleftrightarrow> (case rn_log n of None \<Rightarrow> False | Some l \<Rightarrow> ls_inv l \<and> ls_base l < i \<and> ls_Get l i = Some x)"

definition stable_under :: "('sm, 'w) Others \<Rightarrow> ('sm RaftNode \<Rightarrow> bool) \<Rightarrow> bool" where
  "stable_under others P \<longleftrightarrow> (\<forall>n w. P n \<longrightarrow> P (fst (others n w)))"

lemma stable_underD: "stable_under others P \<Longrightarrow> P n \<Longrightarrow> others n w = (n', w') \<Longrightarrow> P n'"
  unfolding stable_under_def by (metis fst_conv)

lemma holds_entry_grows:
  assumes "log_grows n n'" "holds_entry i x n"
  shows "holds_entry i x n'"
proof -
  obtain l where l: "rn_log n = Some l" "ls_inv l" "ls_base l < i" "ls_Get l i = Some x"
    using assms(2) by (auto simp: holds_entry_def split: option.splits)
  have "i \<le> ls_LastIndex l" using ls.Get_absent [OF l(2), of i] l(4) by (cases "ls_LastIndex l < i") simp_all
  then obtain l' where "rn_log n' = Some l'" "ls_inv l'" "ls_Get l' i = Some x" "ls_base l' = ls_base l"
    using log_growsD [OF assms(1) l(1-3)] l(4) by metis
  then show ?thesis using l(3) by (simp add: holds_entry_def)
qed

lemmas holds_entry_same = holds_entry_grows [OF log_grows_same]

lemma send_peers_stable:
  assumes "stable_under others P" "P n"
  shows "P (fst (snd (send_peers T others ll plan rs succ n w)))"
  using assms(2)
proof (induction rs arbitrary: succ n w)
  case (Cons r rs)
  obtain p w1 where p: "send_one T n (rp_term plan) r w = (p, w1)" by fastforce
  obtain n2 w2 where o: "others n w1 = (n2, w2)" by fastforce
  then have "P n2" using stable_underD [OF assms(1) Cons.prems] by simp
  then have "P (fst (snd (send_peers T others ll plan rs s n2 w2)))" for s by (rule Cons.IH)
  moreover have "P (fst (snd (send_peers T others ll plan rs s n w)))" for s using Cons.prems by (rule Cons.IH)
  ultimately show ?case using Cons.prems p o by (auto simp: case_prod_beta Let_def)
qed simp

lemma rep_rounds_stable:
  assumes "stable_under others (holds_entry i x)" "holds_entry i x n"
  shows "holds_entry i x (fst (snd (rep_rounds M T others clk ll k res n w)))"
  using assms(2)
proof (induction k arbitrary: res n w)
  case (Suc k)
  obtain p n1 where b: "rep_begin n = (p, n1)" by fastforce
  have h1: "holds_entry i x n1" using rep_begin_log [of n] b Suc.prems holds_entry_same by force
  obtain n2 w2 where o: "others n1 w = (n2, w2)" by fastforce
  have h2: "holds_entry i x n2" by (rule stable_underD [OF assms(1) h1 o])
  show ?case
  proof (cases p)
    case None
    then show ?thesis using b h1 by simp
  next
    case (Some plan)
    obtain rsps n3 w3 where s: "(if rn_transport n2 then send_peers T others ll plan (rp_reqs plan) 1 n2 w2
                              else (map (\<lambda>_. no_rsp) (rp_reqs plan), n2, w2)) = (rsps, n3, w3)" by (metis prod_cases3)
    have h3: "holds_entry i x n3"
      using send_peers_stable [OF assms(1) h2, of T ll plan "rp_reqs plan" 1 w2] s h2 by (auto split: if_splits)
    obtain o' n4 where f: "rep_finish M clk plan rsps n3 = (o', n4)" by fastforce
    have h4: "holds_entry i x n4" using holds_entry_grows [OF rep_finish_grows h3] f by (metis snd_conv)
    obtain n5 w5 where o5: "others n4 w3 = (n5, w5)" by fastforce
    have h5: "holds_entry i x n5" by (rule stable_underD [OF assms(1) h4 o5])
    have c: "holds_entry i x (snd (ApplyCommittedLogs M clk (MaybeAutoFinalizeJoint (AdvanceCommitIndexLocked n2))))"
      by (rule holds_entry_grows [OF commit_step_grows h2]) simp
    show ?thesis
    proof (cases "rp_reqs plan = []")
      case True
      then show ?thesis using b Some o h2 c by (simp add: case_prod_beta)
    next
      case False
      then have "rep_rounds M T others clk ll (Suc k) res n w =
         (case o' of None \<Rightarrow> (res, n4, w3)
          | Some (retry, r) \<Rightarrow> if retry \<and> \<not> rn_crashed n4 then rep_rounds M T others clk ll k r n5 w5 else (r, n4, w3))"
        using b Some o s f o5 by (auto split: option.splits)
      then show ?thesis using h4 Suc.IH [OF h5] by (simp split: option.splits prod.splits)
    qed
  qed
qed simp

lemma ReplicateLog_stable:
  assumes "stable_under others (holds_entry i x)" "holds_entry i x n"
  shows "holds_entry i x (fst (snd (ReplicateLog M T others clk ll n w)))"
  unfolding ReplicateLog_def by (rule rep_rounds_stable [OF assms])

lemma Persist_keeps:
  assumes "ls_inv l"
  shows "ls_inv (ls_Persist l)" "ls_base (ls_Persist l) = ls_base l" "ls_ents (ls_Persist l) = ls_ents l"
    "ls_anchor (ls_Persist l) = ls_anchor l"
proof -
  have "ls_Persist l = l \<or> ls_Persist l = ls_Flush l"
    by (cases l) (simp_all add: ls_Persist_def sl_Persist_def ls_Flush_def)
  moreover have "ls_anchor (ls_Flush l) = ls_anchor l"
    by (cases l) (simp_all add: ls_Flush_def ls_anchor_def sl_Flush_def case_prod_beta split: option.splits)
  ultimately show "ls_inv (ls_Persist l)" "ls_base (ls_Persist l) = ls_base l" "ls_ents (ls_Persist l) = ls_ents l"
    "ls_anchor (ls_Persist l) = ls_anchor l" using ls_Flush_keeps [OF assms] assms by auto
qed

lemma Persist_grows: "log_grows n (on_log ls_Persist n)"
  using Persist_keeps by (auto simp: log_grows_def on_log_def split: option.splits)

text \<open>The index the coordinator reports is the last one applied at that moment.\<close>

lemma coordinator_rounds_applied:
  assumes "coordinator_rounds M T others clk batch k applied n w = (applied', n', w')" "applied \<le> rn_last_applied n"
    and "stable_under others (holds_entry i x)" "holds_entry i x n"
  shows "applied' \<le> rn_last_applied n' \<and> holds_entry i x n'"
  using assms(1,2,4)
proof (induction k arbitrary: applied n w)
  case (Suc k)
  obtain n0 w0 where o0: "others n w = (n0, w0)" by fastforce
  obtain r n1 w1 where rep: "ReplicateLog M T others clk True n0 w0 = (r, n1, w1)" by (metis prod_cases3)
  obtain n2 w2 where o2: "others n1 w1 = (n2, w2)" by fastforce
  define n3 where "n3 = snd (ApplyCommittedLogs M clk n2)"
  have h0: "holds_entry i x n0" by (rule stable_underD [OF assms(3) Suc.prems(3) o0])
  have h1: "holds_entry i x n1" using ReplicateLog_stable [OF assms(3) h0, of M T clk True w0] rep by simp
  have h2: "holds_entry i x n2" by (rule stable_underD [OF assms(3) h1 o2])
  have h3: "holds_entry i x n3" unfolding n3_def by (rule holds_entry_grows [OF ApplyCommittedLogs_grows h2])
  have E: "coordinator_rounds M T others clk batch (Suc k) applied n w =
     (if rn_crashed n1 then (0, n1\<lparr>rn_crashed := False\<rparr>, w1)
      else if rn_crashed n3 then (0, n3\<lparr>rn_crashed := False\<rparr>, w2)
      else if foldl max 0 batch \<le> rn_last_applied n3 then (rn_last_applied n3, n3, w2)
      else coordinator_rounds M T others clk batch k (rn_last_applied n3) n3 w2)"
    using o0 rep o2 by (simp add: n3_def Let_def)
  consider "applied' = 0" "n' = n1\<lparr>rn_crashed := False\<rparr>" | "applied' = 0" "n' = n3\<lparr>rn_crashed := False\<rparr>"
    | "applied' = rn_last_applied n3" "n' = n3"
    | "coordinator_rounds M T others clk batch k (rn_last_applied n3) n3 w2 = (applied', n', w')"
    using Suc.prems(1) unfolding E by (metis prod.inject)
  then show ?case
  proof cases
    case 1
    then show ?thesis using holds_entry_same [OF _ h1, of n'] by simp
  next
    case 2
    then show ?thesis using holds_entry_same [OF _ h3, of n'] by simp
  next
    case 3
    then show ?thesis using h3 by simp
  next
    case 4
    then show ?thesis using Suc.IH h3 by blast
  qed
qed simp

lemma map_of_mapk: "map_of (map (\<lambda>j. (j, f j)) xs) i = (if i \<in> set xs then Some (f i) else None)"
  by (induction xs) simp_all

lemma CoordinatorCommit_applied:
  assumes "CoordinatorCommit M T others clk n w = (results, n', w')"
    and "stable_under others (holds_entry i x)" "holds_entry i x n"
  shows "holds_entry i x n'" "map_of results j = Some r \<Longrightarrow> ar_op r = ApplyOp_OK \<Longrightarrow> j \<le> rn_last_applied n'"
proof -
  obtain batch m where t: "group_take n = (batch, m)" by fastforce
  obtain applied m' v where c: "coordinator_rounds M T others clk batch 16 0 (on_log ls_Persist m) w = (applied, m', v)"
    by (metis prod_cases3)
  have res: "results = map (\<lambda>i. (i, waiter_result applied i)) batch" "m' = n'" "v = w'"
    using assms(1) t c by (simp_all add: CoordinatorCommit_def)
  have "rn_log m = rn_log n" using t by (auto simp: group_take_def)
  then have "holds_entry i x m" using holds_entry_same assms(3) by blast
  then have "holds_entry i x (on_log ls_Persist m)" using holds_entry_grows Persist_grows by blast
  note a = coordinator_rounds_applied [OF c [unfolded res] _ assms(2) this]
  then show "holds_entry i x n'" by simp
  show "j \<le> rn_last_applied n'" if "map_of results j = Some r" "ar_op r = ApplyOp_OK"
    using that a by (auto simp: res(1) map_of_mapk waiter_result_def apply_result_def split: if_splits)
qed

lemma submit_attempts_applied:
  assumes "submit_attempts M T others clk i k n w = (Some r, n', w')" "ar_op r = ApplyOp_OK"
    and "stable_under others (holds_entry i x)" "holds_entry i x n"
  shows "i \<le> rn_last_applied n' \<and> holds_entry i x n'"
  using assms(1,4)
proof (induction k arbitrary: n w)
  case 0
  then show ?case using assms(2) by (auto simp: apply_result_def)
next
  case (Suc k)
  obtain coord n1 where j: "group_join i n = (coord, n1)" by fastforce
  obtain m1 w1 where o1: "others n1 w = (m1, w1)" by fastforce
  obtain res n2 w2 where c: "CoordinatorCommit M T others clk m1 w1 = (res, n2, w2)" by (metis prod_cases3)
  obtain n3 w3 where o3: "others n2 w2 = (n3, w3)" by fastforce
  obtain n4 w4 where o4: "others n3 w3 = (n4, w4)" by fastforce
  have "rn_log n1 = rn_log n" using j by (auto simp: group_join_def)
  then have "holds_entry i x n1" using holds_entry_same Suc.prems(2) by blast
  then have h1: "holds_entry i x m1" using stable_underD [OF assms(3) _ o1] by blast
  note h2 = CoordinatorCommit_applied [OF c assms(3) h1]
  have h3: "holds_entry i x n3" by (rule stable_underD [OF assms(3) h2(1) o3])
  have h4: "holds_entry i x n4" by (rule stable_underD [OF assms(3) h3 o4])
  have s: "submit_attempts M T others clk i (Suc k) n w = (if \<not> coord then (None, n1, w)
     else case map_of res i of Some r \<Rightarrow> (Some r, n2, w2)
       | None \<Rightarrow> if i \<le> rn_last_applied n3 then (Some (apply_result ApplyOp_OK 1), n3, w3)
                 else submit_attempts M T others clk i k n4 w4)"
    using j o1 c o3 o4 by (simp split: option.splits)
  consider "map_of res i = Some r" "n' = n2" | "i \<le> rn_last_applied n3" "n' = n3"
    | "submit_attempts M T others clk i k n4 w4 = (Some r, n', w')"
    using Suc.prems(1) unfolding s by (cases "map_of res i") (auto split: if_splits)
  then show ?case
  proof cases
    case 1
    then show ?thesis using h2 assms(2) by simp
  next
    case 2
    then show ?thesis using h3 by simp
  next
    case 3
    then show ?thesis using Suc.IH h4 by blast
  qed
qed

lemma submit_append_log:
  assumes "rn_log n = Some l" "ls_inv l" "rn_role n = Leader"
  obtains l1 n1 where "submit_append e n = (Some (ls_LastIndex l + 1), n1)" "rn_log n1 = Some l1" "ls_inv l1"
    "ls_Get l1 (ls_LastIndex l + 1) = Some (e\<lparr>entry_term := term_of n, entry_index := ls_LastIndex l + 1\<rparr>)"
    "ls_base l1 < ls_LastIndex l + 1" "ls_LastIndex l1 = ls_LastIndex l + 1" "rn_group_active n1 = rn_group_active n"
proof -
  let ?e = "e\<lparr>entry_term := term_of n, entry_index := 0\<rparr>"
  obtain idx l1 where a: "ls_Append ?e False l = (idx, l1)" by fastforce
  note app = ls.Append [OF assms(2) a] and new = ls.Append_Get_new [OF assms(2) a]
  have "submit_append e n = (Some idx, n\<lparr>rn_log := Some l1\<rparr>)"
    using assms(1,3) a new(2) by (simp add: submit_append_def append_log_def on_log_def log_last_def Let_def)
  then show thesis using app new ls.LastIndex [OF assms(2)] by (intro that [of "n\<lparr>rn_log := Some l1\<rparr>" l1]) simp_all
qed

text \<open>C3: a write the leader acknowledges has been applied, and is in its log as long as nobody else removes it.
  When SubmitEntry returns a success, the node was the leader, the last applied index has reached the
  index the write was given, and, if whatever other fibers do while the lock is free keeps the entry at
  that index, the log holds the entry with the leader's term there.\<close>

theorem acknowledged_write_is_applied:
  assumes "rn_log n = Some l" and "ls_inv l"
    and "x = e\<lparr>entry_term := term_of n, entry_index := ls_LastIndex l + 1\<rparr>"
    and "stable_under others (holds_entry (ls_LastIndex l + 1) x)"
    and "SubmitEntry M T others clk e n w = (Some r, n', w')" and "ar_op r = ApplyOp_OK"
  shows "rn_role n = Leader \<and> ls_LastIndex l < rn_last_applied n'
    \<and> (\<exists>l'. rn_log n' = Some l' \<and> ls_Get l' (ls_LastIndex l + 1) = Some x)"
proof -
  have leader: "rn_role n = Leader"
    using assms(5,6) by (rule_tac ccontr) (auto simp: SubmitEntry_def submit_append_def apply_result_def)
  obtain l1 n1 where a: "submit_append e n = (Some (ls_LastIndex l + 1), n1)" "rn_log n1 = Some l1" "ls_inv l1"
    "ls_Get l1 (ls_LastIndex l + 1) = Some x" "ls_base l1 < ls_LastIndex l + 1"
    using submit_append_log [OF assms(1,2) leader] assms(3) by metis
  then have h1: "holds_entry (ls_LastIndex l + 1) x n1" by (simp add: holds_entry_def)
  obtain n2 w2 where o: "others n1 w = (n2, w2)" by fastforce
  have "holds_entry (ls_LastIndex l + 1) x n2" by (rule stable_underD [OF assms(4) h1 o])
  moreover have "submit_attempts M T others clk (ls_LastIndex l + 1) 8 n2 w2 = (Some r, n', w')"
    using assms(5) a(1) o by (simp add: SubmitEntry_def)
  ultimately have "ls_LastIndex l + 1 \<le> rn_last_applied n' \<and> holds_entry (ls_LastIndex l + 1) x n'"
    using submit_attempts_applied [OF _ assms(6,4)] by blast
  then show ?thesis using leader by (auto simp: holds_entry_def split: option.splits)
qed

text \<open>Other writes that arrive meanwhile are an instance of that assumption.\<close>

lemma submit_append_grows: "log_grows n (snd (submit_append e n))"
  using append_log_grows [of n] by (simp add: submit_append_def Let_def)

lemma concurrent_write_stable: "stable_under (\<lambda>n w. (snd (submit_append e n), w)) (holds_entry i x)"
  unfolding stable_under_def fst_conv by (intro allI impI holds_entry_grows [OF submit_append_grows])

text \<open>A leader without peers commits on its own.\<close>

definition alone :: "'sm RaftNode \<Rightarrow> bool" where
  "alone n \<longleftrightarrow> rn_role n = Leader \<and> rn_config_state n = kStable \<and> voters (rn_config n) = []"

lemma alone_replicates:
  assumes "alone n" "rn_log n = Some l"
  obtains m where "rn_log m = rn_log n" "rn_sm m = rn_sm n" "rn_crashed m = rn_crashed n" "rn_last_applied m = rn_last_applied n"
    "rn_commit_index m = rn_commit_index n" "rn_storage m = rn_storage n"
    "fst (snd (ReplicateLog M T quiet clk ll n w)) = snd (ApplyCommittedLogs M clk (commit_candidate l (ls_LastIndex l) m))"
proof -
  have p: "GetPeerIds n = []" using assms(1) by (simp add: alone_def GetPeerIds_def)
  define m where "m = snd (rep_begin n)"
  obtain plan where b: "rep_begin n = (Some plan, m)" "rp_reqs plan = []"
    using assms p by (simp add: rep_begin_def m_def alone_def Let_def)
  have m: "rn_log m = rn_log n" "rn_sm m = rn_sm n" "rn_crashed m = rn_crashed n" "rn_last_applied m = rn_last_applied n"
    "rn_commit_index m = rn_commit_index n" "rn_storage m = rn_storage n" "rn_config m = rn_config n"
    "rn_config_state m = rn_config_state n" "pa_last (rn_peers m) = []" "rn_role m = Leader"
    using assms p by (simp_all add: m_def rep_begin_def alone_def Let_def ResizePeerArrays_def vec_resize_def)
  have a: "AdvanceCommitIndexLocked m = commit_candidate l (ls_LastIndex l) m"
    using m assms by (simp add: AdvanceCommitIndexLocked_def alone_def quorum_index_def)
  then have "MaybeAutoFinalizeJoint (AdvanceCommitIndexLocked m) = AdvanceCommitIndexLocked m"
    using m assms(1) by (simp add: MaybeAutoFinalizeJoint_def commit_candidate_def Let_def alone_def)
  then have "fst (snd (ReplicateLog M T quiet clk ll n w)) = snd (ApplyCommittedLogs M clk (commit_candidate l (ls_LastIndex l) m))"
    using a b m(10) by (simp add: ReplicateLog_def eval_nat_numeral case_prod_beta Let_def)
  then show thesis using that m(1-6) by blast
qed

lemma alone_round:
  assumes "alone n" "rn_log n = Some l" "ls_inv l" "rn_sm n = Some s" "\<not> rn_crashed n"
    and "ls_base l \<le> rn_last_applied n" "list_all (\<lambda>e. \<not> is_config e) (ls_ents l)"
    and "ls_GetTerm l (ls_LastIndex l) = term_of n" "rn_last_applied n \<le> ls_LastIndex l" "rn_commit_index n \<le> ls_LastIndex l"
    and "n' = snd (ApplyCommittedLogs M clk (fst (snd (ReplicateLog M T quiet clk True n w))))"
  shows "rn_last_applied n' = ls_LastIndex l \<and> \<not> rn_crashed n' \<and> \<not> rn_crashed (fst (snd (ReplicateLog M T quiet clk True n w)))"
proof -
  obtain m where m: "rn_log m = rn_log n" "rn_sm m = rn_sm n" "rn_crashed m = rn_crashed n" "rn_last_applied m = rn_last_applied n"
    "rn_commit_index m = rn_commit_index n" "rn_storage m = rn_storage n"
    "fst (snd (ReplicateLog M T quiet clk True n w)) = snd (ApplyCommittedLogs M clk (commit_candidate l (ls_LastIndex l) m))"
    using alone_replicates [OF assms(1,2)] by metis
  define c where "c = commit_candidate l (ls_LastIndex l) m"
  have c: "rn_log c = Some l" "rn_sm c = Some s" "\<not> rn_crashed c" "rn_last_applied c = rn_last_applied n" "rn_commit_index c = ls_LastIndex l"
    using m(1-6) assms(2,4,5,8,10) by (simp_all add: c_def commit_candidate_def Let_def)
  define n1 where "n1 = snd (ApplyCommittedLogs M clk c)"
  have "ls_LastIndex l = max (rn_last_applied c) (min (rn_commit_index c) (ls_LastIndex l))" using c assms(9) by simp
  then obtain s1 where a: "applied_to (ls_LastIndex l) l s1 c n1"
    unfolding n1_def using c assms(3,6,7) ApplyCommittedLogs_applies by metis
  then have "same_log n1 l" by (simp add: applied_to_def)
  then obtain l1 where l1: "rn_log n1 = Some l1" "ls_inv l1" "ls_base l1 = ls_base l" "ls_ents l1 = ls_ents l" "ls_LastIndex l1 = ls_LastIndex l"
    using same_logD assms(3) by metis
  have x: "rn_sm n1 = Some s1" "\<not> rn_crashed n1" "rn_last_applied n1 = ls_LastIndex l" "rn_commit_index n1 = ls_LastIndex l"
    using a c(5) by (simp_all add: applied_to_def)
  have y: "ls_base l1 \<le> rn_last_applied n1" "list_all (\<lambda>e. \<not> is_config e) (ls_ents l1)"
    "ls_LastIndex l = max (rn_last_applied n1) (min (rn_commit_index n1) (ls_LastIndex l1))"
    using x(3,4) l1 assms(6,7,9) by simp_all
  have "n' = snd (ApplyCommittedLogs M clk n1)" using assms(11) m(7) by (simp add: n1_def c_def)
  moreover have "\<not> rn_crashed (fst (snd (ReplicateLog M T quiet clk True n w)))" using x(2) m(7) by (simp add: n1_def c_def)
  ultimately show ?thesis using ApplyCommittedLogs_applies [OF l1(1,2) x(1,2) y] by (simp add: applied_to_def)
qed

text \<open>The write path of such a leader: the entry is appended, committed and applied in the first round.\<close>

lemma alone_coordinator:
  assumes "alone n" "rn_log n = Some l" "ls_inv l" "rn_sm n = Some s" "\<not> rn_crashed n"
    and "ls_base l \<le> rn_last_applied n" "list_all (\<lambda>e. \<not> is_config e) (ls_ents l)"
    and "ls_GetTerm l (ls_LastIndex l) = term_of n" "rn_last_applied n \<le> ls_LastIndex l" "rn_commit_index n \<le> ls_LastIndex l"
  shows "fst (coordinator_rounds M T quiet clk [ls_LastIndex l] (Suc k) 0 n w) = ls_LastIndex l"
proof -
  define n' where "n' = snd (ApplyCommittedLogs M clk (fst (snd (ReplicateLog M T quiet clk True n w))))"
  have "rn_last_applied n' = ls_LastIndex l" "\<not> rn_crashed n'" "\<not> rn_crashed (fst (snd (ReplicateLog M T quiet clk True n w)))"
    using alone_round [OF assms n'_def] by simp_all
  then show ?thesis by (simp add: case_prod_beta Let_def n'_def)
qed

lemma appended_last:
  assumes "ls_inv l" "ls_Append e fl l = (i, l1)" "anchor_index (ls_anchor l) \<le> ls_LastIndex l"
  shows "ls_GetTerm l1 (ls_LastIndex l1) = entry_term e" "ls_LastIndex l1 = ls_LastIndex l + 1" "i = ls_LastIndex l + 1"
proof -
  note app = ls.Append [OF assms(1,2)] and new = ls.Append_Get_new [OF assms(1,2)]
  show i: "i = ls_LastIndex l + 1" "ls_LastIndex l1 = ls_LastIndex l + 1" using app new(2) by simp_all
  have "ls_base l1 < ls_LastIndex l1" using app ls.LastIndex assms(1) new(2) by simp
  then show "ls_GetTerm l1 (ls_LastIndex l1) = entry_term e"
    using ls.GetTerm_entry [of l1 "ls_LastIndex l1"] app new assms(3) by simp
qed

lemma alone_write:
  assumes "alone n" "rn_log n = Some l" "ls_inv l" "rn_sm n = Some s" "\<not> rn_crashed n" "\<not> rn_group_active n" "rn_group_waiters n = []"
    and "ls_base l \<le> rn_last_applied n" "list_all (\<lambda>e. \<not> is_config e) (e # ls_ents l)"
    and "anchor_index (ls_anchor l) \<le> ls_LastIndex l" "rn_last_applied n \<le> ls_LastIndex l" "rn_commit_index n \<le> ls_LastIndex l"
  shows "fst (SubmitEntry M T quiet clk e n w) = Some (apply_result ApplyOp_OK 1)"
proof -
  let ?e = "e\<lparr>entry_term := term_of n, entry_index := 0\<rparr>" and ?i = "ls_LastIndex l + 1"
  obtain i l1 where a: "ls_Append ?e False l = (i, l1)" by fastforce
  note app = ls.Append [OF assms(3) a] and al = appended_last [OF assms(3) a assms(10)]
  then have inv1: "ls_inv l1" by simp
  note per = Persist_keeps [OF inv1]
  let ?l = "ls_Persist l1"
  have L: "ls_LastIndex ?l = ?i" using ls.LastIndex per app assms(3) by simp
  have "ls_base ?l < ?i" using per app ls.LastIndex assms(3) by simp
  then have t: "ls_GetTerm ?l (ls_LastIndex ?l) = term_of n"
    using ls.GetTerm_entry [of ?l ?i] ls.Get_present [of ?l ?i] L per app ls.LastIndex [OF assms(3)] assms(10)
    by (simp add: nth_append)
  define k where "k = n\<lparr>rn_group_waiters := [], rn_group_active := False, rn_log := Some ?l\<rparr>"
  have c: "fst (coordinator_rounds M T quiet clk [ls_LastIndex ?l] (Suc 15) 0 k w) = ls_LastIndex ?l"
  proof (rule alone_coordinator)
    show "list_all (\<lambda>e. \<not> is_config e) (ls_ents ?l)" using per app assms(9) by (simp add: is_config_def)
  qed (use assms per app L t in \<open>simp_all add: k_def alone_def\<close>)
  have "CoordinatorCommit M T quiet clk (n\<lparr>rn_log := Some l1, rn_group_active := True, rn_group_waiters := [?i]\<rparr>) w
      = ([(?i, waiter_result (fst (coordinator_rounds M T quiet clk [?i] 16 0 k w)) ?i)], snd (coordinator_rounds M T quiet clk [?i] 16 0 k w))"
    by (simp add: CoordinatorCommit_def group_take_def on_log_def k_def case_prod_beta Let_def)
  then have "CoordinatorCommit M T quiet clk (n\<lparr>rn_log := Some l1, rn_group_active := True, rn_group_waiters := [?i]\<rparr>) w
      = ([(?i, apply_result ApplyOp_OK 1)], snd (coordinator_rounds M T quiet clk [?i] 16 0 k w))"
    using c L by (simp add: waiter_result_def eval_nat_numeral del: coordinator_rounds.simps)
  then have "fst (submit_attempts M T quiet clk ?i (Suc 7) (n\<lparr>rn_log := Some l1\<rparr>) w) = Some (apply_result ApplyOp_OK 1)"
    using assms(6,7) unfolding submit_attempts.simps by (simp add: group_join_def case_prod_beta)
  moreover have "submit_append e n = (Some ?i, n\<lparr>rn_log := Some l1\<rparr>)"
    using assms(1,2) a al by (simp add: alone_def submit_append_def append_log_def on_log_def log_last_def Let_def)
  ultimately show ?thesis by (simp add: SubmitEntry_def del: submit_attempts.simps)
qed

text \<open>C9: a leader without peers makes progress. A write submitted to it while no other group commit is
  under way is acknowledged, provided its log has not lost entries below the last applied one.\<close>

theorem single_node_write_succeeds:
  assumes "rn_role n = Leader" and "rn_config_state n = kStable" and "voters (rn_config n) = []"
    and "rn_log n = Some l" and "ls_inv l" and "rn_sm n = Some s" and "\<not> rn_crashed n"
    and "\<not> rn_group_active n" and "rn_group_waiters n = []"
    and "ls_base l \<le> rn_last_applied n" and "list_all (\<lambda>e. \<not> is_config e) (e # ls_ents l)"
    and "anchor_index (ls_anchor l) \<le> ls_LastIndex l"
    and "rn_last_applied n \<le> ls_LastIndex l" and "rn_commit_index n \<le> ls_LastIndex l"
  shows "fst (SubmitEntry M T quiet clk e n w) = Some (apply_result ApplyOp_OK 1)"
  using alone_write [OF _ assms(4-14)] assms(1-3) by (simp add: alone_def)

definition demo_single :: "KvState RaftNode" where
  "demo_single = (rn_new ''a'')\<lparr>rn_role := Leader, rn_log := Some (InMemory cl_init), rn_sm := Some (kv_init 1)\<rparr>"

lemma demo_single_fields:
  "rn_role demo_single = Leader" "rn_config_state demo_single = kStable" "voters (rn_config demo_single) = []"
  "rn_log demo_single = Some (InMemory cl_init)" "ls_inv (InMemory cl_init)" "rn_sm demo_single = Some (kv_init 1)"
  "\<not> rn_crashed demo_single" "\<not> rn_group_active demo_single" "rn_group_waiters demo_single = []"
  "ls_base (InMemory cl_init) = 0" "ls_ents (InMemory cl_init) = []" "anchor_index (ls_anchor (InMemory cl_init)) = 0"
  "rn_last_applied demo_single = 0" "rn_commit_index demo_single = 0" "ls_LastIndex (InMemory cl_init) = 0" "term_of demo_single = 0"
  by (simp_all add: demo_single_def rn_new_def ls_defs cl_init_inv cl_init_ents config_default_def cl_LastIndex_def rs_new_def)
     (simp_all add: cl_init_def)

lemma demo_write_no_config: "list_all (\<lambda>e. \<not> is_config e) [demo_write]"
  using demo_log_fields(5) [of 0] by (simp add: demo_write_def mk_entry_def)

theorem single_node_write_succeeds_witness:
  "fst (SubmitEntry (kv_ops plain_env) yes_transport quiet \<lparr>steady_ms = 0, wall_ms = 0\<rparr> demo_write demo_single ())
     = Some (apply_result ApplyOp_OK 1)"
  using single_node_write_succeeds [OF demo_single_fields(1-9), of demo_write "kv_ops plain_env" yes_transport
      "\<lparr>steady_ms = 0, wall_ms = 0\<rparr>" "()"] demo_write_no_config
  by (simp add: demo_single_fields)

theorem acknowledged_write_is_applied_witness:
  "0 < rn_last_applied (fst (snd (SubmitEntry (kv_ops plain_env) yes_transport quiet \<lparr>steady_ms = 0, wall_ms = 0\<rparr> demo_write demo_single ())))"
proof -
  let ?R = "SubmitEntry (kv_ops plain_env) yes_transport quiet \<lparr>steady_ms = 0, wall_ms = 0\<rparr> demo_write demo_single ()"
  have "fst ?R = Some (apply_result ApplyOp_OK 1)"
    using alone_write [OF _ demo_single_fields(4-9), of demo_write "kv_ops plain_env" yes_transport
        "\<lparr>steady_ms = 0, wall_ms = 0\<rparr>" "()"] demo_write_no_config by (simp add: demo_single_fields alone_def)
  then have "?R = (Some (apply_result ApplyOp_OK 1), fst (snd ?R), snd (snd ?R))" by (metis prod.collapse)
  from acknowledged_write_is_applied [OF demo_single_fields(4,5) refl _ this] show ?thesis
    by (simp add: stable_under_def apply_result_def)
qed

end
