(* ===== verification/Raft_Append.thy ===== *)
theory Raft_Append
  imports Raft_Progress
begin

text \<open>
  What AppendEntries does to the log of a follower, against a reference definition on lists.
\<close>

section \<open>Merging\<close>

lemma BecomeFollower_fields:
  "rn_commit_index (BecomeFollower t n) = rn_commit_index n" "rn_sm (BecomeFollower t n) = rn_sm n"
  "rn_last_applied (BecomeFollower t n) = rn_last_applied n" "rn_crashed (BecomeFollower t n) = rn_crashed n"
  "rn_group_active (BecomeFollower t n) = rn_group_active n" "rn_group_waiters (BecomeFollower t n) = rn_group_waiters n"
  "rn_role (BecomeFollower t n) = Follower"
  by (simp_all add: BecomeFollower_def SetRoleLocked_def Let_def StopHeartbeat_def CancelTransfer_def on_storage_def case_prod_beta)

text \<open>The received entries against the stored tail: entries of equal term are kept as stored, from the first
  conflict on the received ones replace the rest.\<close>

fun merge_entries :: "LogEntry list \<Rightarrow> LogEntry list \<Rightarrow> LogEntry list" where
  "merge_entries [] xs = []"
| "merge_entries (e # es) [] = e # es"
| "merge_entries (e # es) (x # xs) = (if entry_term x = entry_term e then x # merge_entries es xs else e # es)"

lemma length_merge [simp]: "length (merge_entries es xs) = length es"
  by (induction es xs rule: merge_entries.induct) auto

lemma entry_index_eq: "entry_index e = i \<Longrightarrow> e\<lparr>entry_index := i\<rparr> = e"
  by (cases e) simp

text \<open>Entries past the end of the log are appended.\<close>

lemma append_loop_extends:
  assumes "ls_inv l" "numbered (ls_LastIndex l) es"
  shows "\<exists>l'. append_entries_loop es l = (True, l') \<and> ls_inv l' \<and> ls_base l' = ls_base l \<and> ls_ents l' = ls_ents l @ es"
  using assms
proof (induction es arbitrary: l)
  case (Cons e es)
  obtain i l1 where a: "ls_Append e True l = (i, l1)" by fastforce
  have n: "entry_index e = ls_LastIndex l + 1" "numbered (ls_LastIndex l + 1) es" using Cons.prems(2) by (simp_all add: numbered_Cons)
  note app = ls.Append [OF Cons.prems(1) a] and new = ls.Append_Get_new [OF Cons.prems(1) a]
  have l1: "ls_inv l1" "ls_base l1 = ls_base l" "ls_ents l1 = ls_ents l @ [e]" "ls_LastIndex l1 = ls_LastIndex l + 1"
    using app new(2) n(1) entry_index_eq by simp_all
  then show ?case using Cons.IH [OF l1(1)] n a by (simp del: append_entries_loop.simps(2) add: append_entries_loop.simps(2))
qed simp

text \<open>A conflict: the log is cut before the entry, and the entry and the rest are appended.\<close>

lemma truncate_append:
  assumes "ls_inv l" "ls_base l < p \<or> ls_base l = 0" "ls_base l \<le> p" "p < ls_LastIndex l"
  shows "ls_inv (ls_TruncateFrom p l) \<and> ls_base (ls_TruncateFrom p l) = ls_base l
    \<and> ls_ents (ls_TruncateFrom p l) = take (p - ls_base l) (ls_ents l)"
proof (cases "ls_base l < p")
  case True
  then show ?thesis using ls.TruncateFrom [OF assms(1)] assms(4) by simp
next
  case False
  then have "p = 0" "ls_base l = 0" using assms(2,3) by simp_all
  then show ?thesis using ls.TruncateFrom_0 [OF assms(1)] by simp
qed

lemma append_loop_merges:
  assumes "ls_inv l" "ls_base l < p \<or> ls_base l = 0" "ls_base l \<le> p" "p \<le> ls_LastIndex l" "numbered p es"
  shows "\<exists>l' rest. append_entries_loop es l = (True, l') \<and> ls_inv l' \<and> ls_base l' = ls_base l
    \<and> ls_ents l' = take (p - ls_base l) (ls_ents l) @ merge_entries es (drop (p - ls_base l) (ls_ents l)) @ rest
    \<and> (rest = [] \<or> rest = drop (p - ls_base l + length es) (ls_ents l))"
  using assms
proof (induction es arbitrary: p)
  case Nil
  then show ?case by (auto intro!: exI [of _ "drop (p - ls_base l) (ls_ents l)"])
next
  case (Cons e es)
  let ?b = "ls_base l" and ?xs = "ls_ents l"
  have L: "ls_LastIndex l = ?b + length ?xs" using ls.LastIndex Cons.prems(1) by simp
  have e: "entry_index e = p + 1" "numbered (p + 1) es" using Cons.prems(5) by (simp_all add: numbered_Cons)
  show ?case
  proof (cases "p < ls_LastIndex l")
    case False
    then have p: "p = ls_LastIndex l" using Cons.prems(4) by simp
    then obtain l' where "append_entries_loop (e # es) l = (True, l')" "ls_inv l'" "ls_base l' = ?b" "ls_ents l' = ?xs @ e # es"
      using append_loop_extends [OF Cons.prems(1)] Cons.prems(5) by blast
    then show ?thesis using p L by simp
  next
    case True
    then have i: "p - ?b < length ?xs" using L Cons.prems(3) by simp
    define x where "x = ?xs ! (p - ?b)"
    have g: "ls_Get l (p + 1) = Some x"
      using ls.Get_present [OF Cons.prems(1), of "p + 1"] True Cons.prems(3) by (simp add: x_def)
    have d: "drop (p - ?b) ?xs = x # drop (p + 1 - ?b) ?xs"
      using Cons_nth_drop_Suc [OF i] Cons.prems(3) by (simp add: x_def Suc_diff_le)
    have tk: "take (p + 1 - ?b) ?xs = take (p - ?b) ?xs @ [x]"
      using take_Suc_conv_app_nth [OF i] Cons.prems(3) by (simp add: x_def Suc_diff_le)
    show ?thesis
    proof (cases "entry_term x = entry_term e")
      case same: True
      have "append_entries_loop (e # es) l = append_entries_loop es l" using e(1) True g same by simp
      moreover obtain l' rest where "append_entries_loop es l = (True, l')" "ls_inv l'" "ls_base l' = ?b"
        "ls_ents l' = take (p + 1 - ?b) ?xs @ merge_entries es (drop (p + 1 - ?b) ?xs) @ rest"
        "rest = [] \<or> rest = drop (p + 1 - ?b + length es) ?xs"
        using Cons.IH [OF Cons.prems(1) _ _ _ e(2)] Cons.prems(2,3) True by auto
      moreover have "p + 1 - ?b + length es = p - ?b + length (e # es)" using Cons.prems(3) by simp
      moreover have "take (p - ?b) ?xs @ merge_entries (e # es) (drop (p - ?b) ?xs) @ rest
          = take (p + 1 - ?b) ?xs @ merge_entries es (drop (p + 1 - ?b) ?xs) @ rest" using same d tk by simp
      ultimately show ?thesis by metis
    next
      case False
      define t where "t = ls_TruncateFrom p l"
      have t: "ls_inv t" "ls_base t = ?b" "ls_ents t = take (p - ?b) ?xs"
        using truncate_append [OF Cons.prems(1-3) True] by (simp_all add: t_def)
      then have Lt: "ls_LastIndex t = p" using ls.LastIndex [OF t(1)] i Cons.prems(3) by simp
      have "append_entries_loop (e # es) l = append_entries_loop es (snd (ls_Append e True t))"
        using e(1) True g False by (simp add: t_def)
      also have "\<dots> = append_entries_loop (e # es) t" using Lt e(1) by simp
      finally have "append_entries_loop (e # es) l = append_entries_loop (e # es) t" .
      moreover obtain l' where "append_entries_loop (e # es) t = (True, l')" "ls_inv l'" "ls_base l' = ls_base t"
        "ls_ents l' = ls_ents t @ e # es"
        using append_loop_extends [OF t(1), unfolded Lt, OF Cons.prems(5)] by blast
      moreover have "merge_entries (e # es) (drop (p - ?b) ?xs) = e # es" using d False by simp
      ultimately show ?thesis using t(2,3) by (intro exI [of _ l'] exI [of _ "[]"]) (simp del: append_entries_loop.simps)
    qed
  qed
qed

definition merged :: "LogIndex \<Rightarrow> LogEntry list \<Rightarrow> LogStore \<Rightarrow> LogStore \<Rightarrow> bool" where
  "merged p es l l' \<longleftrightarrow> ls_inv l' \<and> ls_base l' = ls_base l
     \<and> ls_ents l' = take (p - ls_base l) (ls_ents l) @ merge_entries es (drop (p - ls_base l) (ls_ents l))"

lemma append_truncate_merges:
  assumes "ls_inv l" "ls_base l < p \<or> ls_base l = 0" "ls_base l \<le> p" "p \<le> ls_LastIndex l" "numbered p es" "es \<noteq> []"
  obtains l1 where "append_entries_loop es l = (True, l1)" "merged p es l (truncate_tail es l1)"
    "ls_LastIndex (truncate_tail es l1) = p + length es"
proof -
  let ?b = "ls_base l" and ?xs = "ls_ents l"
  have L: "ls_LastIndex l = ?b + length ?xs" using ls.LastIndex assms(1) by simp
  obtain l1 rest where l1: "append_entries_loop es l = (True, l1)" "ls_inv l1" "ls_base l1 = ?b"
    "ls_ents l1 = take (p - ?b) ?xs @ merge_entries es (drop (p - ?b) ?xs) @ rest"
    using append_loop_merges [OF assms(1-5)] by blast
  have len: "length (take (p - ?b) ?xs @ merge_entries es (drop (p - ?b) ?xs)) = p + length es - ?b"
    using L assms(3,4) by simp
  then have L1: "ls_LastIndex l1 = p + length es + length rest" using ls.LastIndex [OF l1(2)] l1(3,4) assms(3) by simp
  have "length es - 1 < length es" using assms(6) by simp
  then have "entry_index (es ! (length es - 1)) = p + (length es - 1) + 1" using assms(5) unfolding numbered_def by blast
  then have "entry_index (last es) = p + (length es - 1) + 1" unfolding last_conv_nth [OF assms(6)] .
  then have li: "entry_index (last es) = p + length es" using assms(6) by (cases es) simp_all
  let ?t = "truncate_tail es l1"
  have "ls_inv ?t \<and> ls_base ?t = ?b \<and> ls_ents ?t = take (p + length es - ?b) (ls_ents l1)"
  proof (cases "rest = []")
    case True
    then have "?t = l1" using L1 li by (simp add: truncate_tail_def)
    then show ?thesis using l1 len True by simp
  next
    case False
    have "?b < p + length es" using assms(3,6) by (cases es) simp_all
    then show ?thesis
      using ls.TruncateFrom [OF l1(2), of "p + length es"] l1(3) L1 li assms(6) False by (simp add: truncate_tail_def)
  qed
  moreover have "take (p + length es - ?b) (ls_ents l1) = take (p - ?b) ?xs @ merge_entries es (drop (p - ?b) ?xs)"
    unfolding l1(4) append_assoc [symmetric] len [symmetric] by (metis append_eq_conv_conj)
  ultimately have m: "merged p es l ?t" by (simp add: merged_def)
  then have "ls_LastIndex ?t = p + length es" using ls.LastIndex [of ?t] len assms(3) by (simp add: merged_def)
  then show thesis using that l1(1) m by blast
qed

lemma OnAppendEntries_accepts:
  assumes "term_of n \<le> aq_term req" "rn_log n = Some l" "p = aq_prev_log_index req" "es = aq_entries req" "p \<le> ls_LastIndex l"
    and "p = 0 \<or> ls_GetTerm l p = aq_prev_log_term req" "length es \<le> kMaxAppendBatch"
    and "append_entries_loop es l = (True, l1)" "l2 = truncate_tail es l1"
  obtains m where "OnAppendEntries M clk req n = (append_rsp (snd (OnAppendEntries M clk req n)) True (ls_LastIndex l2),
      (if rn_commit_index n < aq_leader_commit req
       then snd (ApplyCommittedLogs M clk (m\<lparr>rn_commit_index := min (aq_leader_commit req) (ls_LastIndex l2)\<rparr>)) else m))"
    "rn_log m = Some l2" "rn_commit_index m = rn_commit_index n" "rn_sm m = rn_sm n" "rn_last_applied m = rn_last_applied n"
    "rn_crashed m = rn_crashed n" "rn_group_active m = rn_group_active n" "rn_group_waiters m = rn_group_waiters n"
    "term_of n < aq_term req \<Longrightarrow> rn_role m = Follower"
proof -
  define k where "k = (if term_of n < aq_term req then BecomeFollower (aq_term req) n
                 else if rn_role n \<noteq> Leader then reset_timer n else n)"
  have k: "rn_log k = Some l" "rn_commit_index k = rn_commit_index n" "rn_sm k = rn_sm n" "rn_last_applied k = rn_last_applied n"
    "rn_crashed k = rn_crashed n" "rn_group_active k = rn_group_active n" "rn_group_waiters k = rn_group_waiters n"
    "term_of n < aq_term req \<Longrightarrow> rn_role k = Follower"
    using assms(2) by (simp_all add: k_def reset_timer_def BecomeFollower_log BecomeFollower_fields)
  define m where "m = k\<lparr>rn_log := Some l2\<rparr>"
  have c: "\<not> aq_term req < term_of n" "\<not> ls_LastIndex l < aq_prev_log_index req"
    "(0 < aq_prev_log_index req \<and> ls_GetTerm l (aq_prev_log_index req) \<noteq> aq_prev_log_term req) = False"
    "take kMaxAppendBatch es = es" "aq_entries req = es"
    using assms(1,3-7) by auto
  have "OnAppendEntries M clk req n = (let n2 = (if rn_commit_index n < aq_leader_commit req
       then snd (ApplyCommittedLogs M clk (m\<lparr>rn_commit_index := min (aq_leader_commit req) (ls_LastIndex l2)\<rparr>)) else m)
      in (append_rsp n2 True (ls_LastIndex l2), n2))"
    unfolding OnAppendEntries_def k_def [symmetric] Let_def
    by (simp only: c k(1) assms(8,9) if_False option.case prod.case not_True_eq_False m_def) (simp add: k)
  then show thesis using that [of m] k by (simp add: m_def Let_def)
qed

lemma AppendEntries_merged:
  assumes "term_of n \<le> aq_term req" and "rn_log n = Some l" and "ls_inv l"
    and "p = aq_prev_log_index req" and "es = aq_entries req" and "es \<noteq> []" and "length es \<le> kMaxAppendBatch" and "numbered p es"
    and "ls_base l < p \<or> p = 0 \<and> ls_base l = 0" and "p \<le> ls_LastIndex l" and "p = 0 \<or> ls_GetTerm l p = aq_prev_log_term req"
    and "OnAppendEntries M clk req n = (rsp, n')"
  shows "rsp = append_rsp n' True (p + length es) \<and> (\<exists>l'. rn_log n' = Some l' \<and> merged p es l l')"
proof -
  have b: "ls_base l < p \<or> ls_base l = 0" "ls_base l \<le> p" using assms(9) by auto
  obtain l1 where l1: "append_entries_loop es l = (True, l1)" "merged p es l (truncate_tail es l1)"
    "ls_LastIndex (truncate_tail es l1) = p + length es"
    using append_truncate_merges [OF assms(3) b assms(10,8,6)] by blast
  let ?l2 = "truncate_tail es l1"
  obtain m where m: "OnAppendEntries M clk req n = (append_rsp (snd (OnAppendEntries M clk req n)) True (ls_LastIndex ?l2),
      (if rn_commit_index n < aq_leader_commit req
       then snd (ApplyCommittedLogs M clk (m\<lparr>rn_commit_index := min (aq_leader_commit req) (ls_LastIndex ?l2)\<rparr>)) else m))"
    "rn_log m = Some ?l2"
    using OnAppendEntries_accepts [OF assms(1,2,4,5,10,11,7) l1(1) refl] by metis
  have "log_kept m n'"
    using m(1) assms(12) log_kept_trans [OF log_kept_same ApplyCommittedLogs_kept, of _ m] by (auto split: if_splits)
  then have "same_log n' ?l2" using m(2) l1(2) by (simp add: log_kept_def merged_def)
  then have "\<exists>l'. rn_log n' = Some l' \<and> merged p es l l'" using l1(2) by (auto simp: same_log_def merged_def split: option.splits)
  moreover have "rsp = append_rsp n' True (p + length es)" using m(1) assms(12) l1(3) by auto
  ultimately show ?thesis by blast
qed

section \<open>Properties\<close>

text \<open>C11: AppendEntries merges. A request with a current term whose previous entry matches is accepted. Afterwards
  the log holds its old entries up to the previous index and then exactly as many entries as the request
  carries: the stored ones as long as the terms agree, the received ones from the first conflict on;
  the response reports the new end of the log. (The previous index is above the compaction point, or
  nothing was compacted.)\<close>

theorem AppendEntries_merges:
  assumes "term_of n \<le> aq_term req" and "rn_log n = Some l" and "ls_inv l"
    and "p = aq_prev_log_index req" and "es = aq_entries req" and "es \<noteq> []" and "length es \<le> kMaxAppendBatch" and "numbered p es"
    and "ls_base l < p \<or> p = 0 \<and> ls_base l = 0" and "p \<le> ls_LastIndex l" and "p = 0 \<or> ls_GetTerm l p = aq_prev_log_term req"
    and "OnAppendEntries M clk req n = (rsp, n')"
  shows "ar_success rsp \<and> ar_last_log_index rsp = p + length es
    \<and> (\<exists>l'. rn_log n' = Some l' \<and> ls_inv l' \<and> ls_base l' = ls_base l
          \<and> ls_ents l' = take (p - ls_base l) (ls_ents l) @ merge_entries es (drop (p - ls_base l) (ls_ents l)))"
  using AppendEntries_merged [OF assms] by (auto simp: append_rsp_def merged_def)

text \<open>C12: a request that ends before the log does cuts the log. Even when every entry of an accepted request is
  stored already, the entries behind the last of them are gone afterwards, whether they were committed or
  not: a delayed or repeated request undoes later ones.\<close>

theorem stale_append_cuts_log:
  assumes "term_of n \<le> aq_term req" and "rn_log n = Some l" and "ls_inv l" and "ls_base l = 0"
    and "aq_prev_log_index req = 0" and "aq_entries req = take k (ls_ents l)"
    and "0 < k" and "k < ls_LastIndex l" and "k \<le> kMaxAppendBatch"
  shows "log_last (snd (OnAppendEntries M clk req n)) = k"
proof -
  let ?es = "take k (ls_ents l)"
  have L: "ls_LastIndex l = length (ls_ents l)" using ls.LastIndex [OF assms(3)] assms(4) by simp
  then have len: "length ?es = k" "?es \<noteq> []" "length ?es \<le> kMaxAppendBatch" using assms(7-9) by auto
  have num: "numbered 0 ?es" using ls.inv_numbered [OF assms(3)] assms(4) by (simp add: numbered_take)
  have "ls_base l < 0 \<or> (0::nat) = 0 \<and> ls_base l = 0" "0 \<le> ls_LastIndex l" "(0::nat) = 0 \<or> ls_GetTerm l 0 = aq_prev_log_term req"
    using assms(4) by simp_all
  from AppendEntries_merged [OF assms(1-3) assms(5) [symmetric] assms(6) [symmetric] len(2,3) num this prod.collapse [symmetric], of M clk]
  obtain l' where "rn_log (snd (OnAppendEntries M clk req n)) = Some l'" "merged 0 ?es l l'" by auto
  then show ?thesis using ls.LastIndex [of l'] len(1) assms(4) by (simp add: merged_def log_last_def)
qed

text \<open>A follower with two entries, and the request that brought the first.\<close>

definition demo_log2 :: LogStore where
  "demo_log2 = snd (ls_Append demo_write True demo_log)"

definition demo_request :: AppendEntriesRequest where
  "demo_request = \<lparr>aq_group_id = 0, aq_term = 1, aq_leader_id = ''b'', aq_prev_log_index = 0, aq_prev_log_term = 0,
     aq_entries = [demo_write\<lparr>entry_index := 1\<rparr>], aq_leader_commit = 0\<rparr>"

lemma demo_log2_fields:
  "ls_inv demo_log2" "ls_base demo_log2 = 0" "ls_ents demo_log2 = [demo_write\<lparr>entry_index := 1\<rparr>, demo_write\<lparr>entry_index := 2\<rparr>]"
  "ls_LastIndex demo_log2 = 2"
proof -
  show d: "ls_inv demo_log2" "ls_base demo_log2 = 0"
    "ls_ents demo_log2 = [demo_write\<lparr>entry_index := 1\<rparr>, demo_write\<lparr>entry_index := 2\<rparr>]"
    using ls.Append [OF demo_log_fields(1) prod.collapse [symmetric], of demo_write True]
    by (simp_all add: demo_log2_def demo_log_fields numeral_2_eq_2)
  show "ls_LastIndex demo_log2 = 2" using ls.LastIndex [OF d(1)] d by simp
qed

theorem AppendEntries_merges_witness:
  "ar_success (fst (OnAppendEntries (kv_ops plain_env) \<lparr>steady_ms = 0, wall_ms = 0\<rparr> demo_request demo_follower))"
  using AppendEntries_merges [OF _ _ _ _ _ _ _ _ _ _ _ prod.collapse [symmetric], of demo_follower demo_request demo_log 0
      "[demo_write\<lparr>entry_index := 1\<rparr>]" "kv_ops plain_env" "\<lparr>steady_ms = 0, wall_ms = 0\<rparr>"]
  by (simp add: demo_log_fields demo_request_def kMaxAppendBatch_def numbered_def demo_follower_def rn_new_def rs_new_def)

theorem stale_append_cuts_log_witness:
  "log_last (snd (OnAppendEntries (kv_ops plain_env) \<lparr>steady_ms = 0, wall_ms = 0\<rparr> demo_request
     (demo_follower\<lparr>rn_log := Some demo_log2, rn_commit_index := 2\<rparr>))) = 1"
  using stale_append_cuts_log [of "demo_follower\<lparr>rn_log := Some demo_log2, rn_commit_index := 2\<rparr>" demo_request demo_log2 1
      "kv_ops plain_env" "\<lparr>steady_ms = 0, wall_ms = 0\<rparr>"]
  by (simp add: demo_log2_fields demo_request_def kMaxAppendBatch_def demo_follower_def rn_new_def rs_new_def)

section \<open>Writes that lose their entry\<close>

text \<open>Applying leaves the role and the group commit alone.\<close>

definition same_control :: "'sm RaftNode \<Rightarrow> 'sm RaftNode \<Rightarrow> bool" where
  "same_control n n' \<longleftrightarrow> rn_role n' = rn_role n \<and> rn_group_active n' = rn_group_active n
     \<and> rn_group_waiters n' = rn_group_waiters n"

lemma apply_one_control: "same_control (snd rn) (snd (apply_one M clk e rn))"
  by (auto simp: same_control_def apply_one_def apply_config_def on_storage_def Let_def case_prod_beta split: option.splits)

lemma apply_fold_control: "same_control (snd rn) (snd (fold (apply_one M clk) es rn))"
proof (induction es arbitrary: rn)
  case (Cons e es)
  show ?case using Cons.IH [of "apply_one M clk e rn"] apply_one_control [of rn M clk e] by (simp add: same_control_def)
qed (simp add: same_control_def)

lemma flush_progress_control: "same_control n (flush_progress clk n)"
  by (simp add: same_control_def flush_progress_def Let_def on_progress_def on_log_def case_prod_beta split: option.splits)

lemma apply_loop_control: "same_control (snd rn) (snd (apply_loop M clk k rn))"
proof (induction k arbitrary: rn)
  case (Suc k)
  obtain r n where rn: "rn = (r, n)" by (cases rn)
  show ?case
  proof (cases "rn_log n")
    case (Some l)
    let ?es = "ls_GetRange l (rn_last_applied n + 1) (min kBatchSize (rn_commit_index n - rn_last_applied n))"
    obtain r1 n1 where f: "fold (apply_one M clk) ?es (r, n) = (r1, n1)" by fastforce
    have g: "same_control n n1" using apply_fold_control [of "(r, n)" M clk ?es] f by simp
    let ?n2 = "if rn_crashed n1 then n1 else flush_progress clk n1"
    have "same_control n ?n2" using g flush_progress_control [of n1 clk] by (simp add: same_control_def)
    then have "same_control n (snd (apply_loop M clk k (r1, ?n2)))" using Suc.IH [of "(r1, ?n2)"] by (simp add: same_control_def)
    then show ?thesis using Some rn f by (simp add: Let_def same_control_def)
  qed (simp add: rn same_control_def)
qed (simp add: same_control_def)

lemma ApplyCommittedLogs_control: "same_control n (snd (ApplyCommittedLogs M clk n))"
  using apply_loop_control [of "(ok_result, n)"] by (simp add: ApplyCommittedLogs_def same_control_def)

lemma apply_nothing: "rn_commit_index n \<le> rn_last_applied n \<Longrightarrow> snd (ApplyCommittedLogs M clk n) = n"
  by (simp add: ApplyCommittedLogs_def)

lemma Append_GetTerm_old:
  assumes "ls_inv l" "ls_Append e fl l = (i, l1)" "ls_base l < j" "j \<le> ls_LastIndex l"
  shows "ls_GetTerm l1 j = ls_GetTerm l j"
proof -
  note app = ls.Append [OF assms(1,2)] and old = ls.Append_Get_old [OF assms(1,2,3,4)]
  show ?thesis
  proof (cases "j = anchor_index (ls_anchor l)")
    case True
    then show ?thesis using ls.GetTerm_anchor [of l j] ls.GetTerm_anchor [of l1 j] app assms(1,3) by simp
  next
    case False
    then show ?thesis using ls.GetTerm_entry [of l j] ls.GetTerm_entry [of l1 j] app old assms(1,3) by simp
  qed
qed

text \<open>A node that is not leader any more and has applied the index: its coordinator finds nothing to do and
  reports success.\<close>

lemma coordinator_of_follower:
  assumes "rn_role n \<noteq> Leader" "\<not> rn_crashed n" "rn_commit_index n \<le> rn_last_applied n" "i \<le> rn_last_applied n"
    and "\<forall>m. others m w = (m, w)" "\<not> rn_group_active n" "rn_group_waiters n = []"
  shows "submit_attempts M T others clk i (Suc k) n w
    = (Some (apply_result ApplyOp_OK 1), on_log ls_Persist (n\<lparr>rn_group_waiters := [], rn_group_active := False\<rparr>), w)"
proof -
  define m where "m = on_log ls_Persist (n\<lparr>rn_group_waiters := [], rn_group_active := False\<rparr>)"
  have m: "rn_role m \<noteq> Leader" "\<not> rn_crashed m" "rn_commit_index m \<le> rn_last_applied m" "i \<le> rn_last_applied m"
    using assms(1-4) by (simp_all add: m_def on_log_def split: option.splits)
  have b: "rep_begin m = (None, m)" using m(1) by (simp add: rep_begin_def split: option.splits)
  have "ReplicateLog M T others clk True m w = (ok_result, m, w)"
    by (simp add: ReplicateLog_def eval_nat_numeral b)
  then have "coordinator_rounds M T others clk [i] (Suc 15) 0 m w = (rn_last_applied m, m, w)"
    using m(2,4) apply_nothing [OF m(3)] assms(5) unfolding coordinator_rounds.simps by simp
  then have c: "coordinator_rounds M T others clk [i] 16 0 m w = (rn_last_applied m, m, w)"
    by (simp add: eval_nat_numeral del: coordinator_rounds.simps)
  have "CoordinatorCommit M T others clk (n\<lparr>rn_group_active := True, rn_group_waiters := [i]\<rparr>) w
      = ([(i, apply_result ApplyOp_OK 1)], m, w)"
    using c m(4) by (simp add: CoordinatorCommit_def group_take_def m_def waiter_result_def)
  then show ?thesis using assms(5-7) by (simp add: group_join_def m_def)
qed

text \<open>C4: a write whose entry has been overwritten is acknowledged. While SubmitEntry does not hold the lock, a
  leader of a later term sends its own entry for the same index, together with a commit index that covers
  it; the node becomes a follower, replaces the client's entry and applies the other one. The client still
  gets a success, because only the last applied index is compared, although its command is neither in the
  log nor was it given to the state machine.\<close>

theorem overwritten_write_acknowledged:
  assumes "rn_role n = Leader" and "rn_log n = Some l" and "ls_inv l" and "rn_sm n = Some s" and "\<not> rn_crashed n"
    and "\<not> rn_group_active n" and "rn_group_waiters n = []"
    and "p = ls_LastIndex l" and "ls_base l < p \<or> p = 0 \<and> ls_base l = 0"
    and "ls_base l \<le> rn_last_applied n" and "rn_last_applied n \<le> p" and "rn_commit_index n \<le> p"
    and "list_all (\<lambda>e. \<not> is_config e) (x # ls_ents l)"
    and "term_of n < aq_term req" and "aq_prev_log_index req = p" and "p = 0 \<or> ls_GetTerm l p = aq_prev_log_term req"
    and "aq_entries req = [x]" and "entry_index x = p + 1" and "entry_term x = aq_term req" and "p < aq_leader_commit req"
    and "\<forall>m. others m w = (snd (OnAppendEntries M clk req m), w1)" and "\<forall>m. others m w1 = (m, w1)"
  shows "\<exists>n' l'. SubmitEntry M T others clk e n w = (Some (apply_result ApplyOp_OK 1), n', w1)
    \<and> rn_log n' = Some l' \<and> ls_Get l' (p + 1) = Some x \<and> ls_LastIndex l' = p + 1
    \<and> rn_sm n' = Some (run_entries M clk (drop (rn_last_applied n - ls_base l) (ls_ents l) @ [x]) s)"
proof -
  let ?e = "e\<lparr>entry_term := term_of n, entry_index := 0\<rparr>" and ?b = "ls_base l"
  obtain i l1 where a: "ls_Append ?e False l = (i, l1)" by fastforce
  note app = ls.Append [OF assms(3) a] and new = ls.Append_Get_new [OF assms(3) a]
  have L: "p = ?b + length (ls_ents l)" "i = p + 1" "ls_LastIndex l1 = p + 1"
    using ls.LastIndex [OF assms(3)] app new(2) assms(8) by simp_all
  have inv1: "ls_inv l1" and base1: "ls_base l1 = ?b" using app by simp_all
  define n1 where "n1 = n\<lparr>rn_log := Some l1\<rparr>"
  have sub: "submit_append e n = (Some (p + 1), n1)"
    using assms(1,2) a L by (simp add: submit_append_def append_log_def on_log_def log_last_def Let_def n1_def)
  have n1: "term_of n1 \<le> aq_term req" "rn_log n1 = Some l1" "p \<le> ls_LastIndex l1" "p = 0 \<or> ls_GetTerm l1 p = aq_prev_log_term req"
    "length [x] \<le> kMaxAppendBatch" "numbered p [x]"
    using assms(14,16,18) L(3) Append_GetTerm_old [OF assms(3) a, of p] assms(8,9)
    by (auto simp: n1_def kMaxAppendBatch_def numbered_def)
  have b: "ls_base l1 < p \<or> ls_base l1 = 0" "ls_base l1 \<le> p" using assms(9) base1 L(1) by auto
  obtain l2 where l2: "append_entries_loop [x] l1 = (True, l2)" "merged p [x] l1 (truncate_tail [x] l2)"
    "ls_LastIndex (truncate_tail [x] l2) = p + length [x]"
    using append_truncate_merges [OF inv1 b n1(3,6)] by blast
  let ?l2 = "truncate_tail [x] l2"
  have ents: "ls_inv ?l2" "ls_base ?l2 = ?b" "ls_ents ?l2 = ls_ents l @ [x]" "ls_LastIndex ?l2 = p + 1"
    using l2(2,3) app L(1) assms(14,19) by (simp_all add: merged_def)
  obtain m where m0: "OnAppendEntries M clk req n1 = (append_rsp (snd (OnAppendEntries M clk req n1)) True (ls_LastIndex ?l2),
      (if rn_commit_index n1 < aq_leader_commit req
       then snd (ApplyCommittedLogs M clk (m\<lparr>rn_commit_index := min (aq_leader_commit req) (ls_LastIndex ?l2)\<rparr>)) else m))"
    and k: "rn_log m = Some ?l2" "rn_commit_index m = rn_commit_index n1" "rn_sm m = rn_sm n1" "rn_last_applied m = rn_last_applied n1"
    "rn_crashed m = rn_crashed n1" "rn_group_active m = rn_group_active n1" "rn_group_waiters m = rn_group_waiters n1"
    "term_of n1 < aq_term req \<Longrightarrow> rn_role m = Follower"
    by (rule OnAppendEntries_accepts [OF n1(1,2) assms(15) [symmetric] assms(17) [symmetric] n1(3-5) l2(1) refl, of M clk]) blast
  have mo: "snd (OnAppendEntries M clk req n1) = snd (ApplyCommittedLogs M clk (m\<lparr>rn_commit_index := p + 1\<rparr>))"
  proof -
    have "min (aq_leader_commit req) (ls_LastIndex ?l2) = p + 1" "rn_commit_index n1 < aq_leader_commit req"
      using assms(12,20) ents(4) by (simp_all add: n1_def)
    then show ?thesis using arg_cong [OF m0, of snd] by (simp only: snd_conv if_True)
  qed
  have m: "snd (OnAppendEntries M clk req n1) = snd (ApplyCommittedLogs M clk (m\<lparr>rn_commit_index := p + 1\<rparr>))"
    "rn_log m = Some ?l2" "rn_sm m = Some s" "rn_last_applied m = rn_last_applied n" "\<not> rn_crashed m"
    "\<not> rn_group_active m" "rn_group_waiters m = []" "rn_role m = Follower"
    using mo k assms(4-7,14) by (simp_all add: n1_def)
  define m1 where "m1 = m\<lparr>rn_commit_index := p + 1\<rparr>"
  define n2 where "n2 = snd (ApplyCommittedLogs M clk m1)"
  have g: "p + 1 = max (rn_last_applied m1) (min (rn_commit_index m1) (ls_LastIndex ?l2))"
    using m(4) assms(11) ents(4) by (simp add: m1_def)
  have "applied_to (p + 1) ?l2 (run_entries M clk (ents_between ?l2 (rn_last_applied m1) (p + 1)) s) m1 n2"
    unfolding n2_def using m(2-5) ents assms(10,13) by (intro ApplyCommittedLogs_applies g) (simp_all add: m1_def)
  moreover have "ents_between ?l2 (rn_last_applied m1) (p + 1) = drop (rn_last_applied n - ?b) (ls_ents l) @ [x]"
    using ents(2,3) m(4) L(1) assms(10,11) by (simp add: ents_between_def m1_def)
  ultimately have n2: "rn_last_applied n2 = p + 1" "rn_commit_index n2 = p + 1" "\<not> rn_crashed n2" "same_log n2 ?l2"
    "rn_sm n2 = Some (run_entries M clk (drop (rn_last_applied n - ?b) (ls_ents l) @ [x]) s)"
    by (simp_all add: applied_to_def m1_def)
  have c2: "rn_role n2 \<noteq> Leader" "\<not> rn_group_active n2" "rn_group_waiters n2 = []"
    using ApplyCommittedLogs_control [of m1 M clk] m(6-8) by (simp_all add: same_control_def n2_def m1_def)
  define n' where "n' = on_log ls_Persist (n2\<lparr>rn_group_waiters := [], rn_group_active := False\<rparr>)"
  have "submit_attempts M T others clk (p + 1) (Suc 7) n2 w1 = (Some (apply_result ApplyOp_OK 1), n', w1)"
    unfolding n'_def using c2 n2(1-3) assms(22) by (intro coordinator_of_follower) simp_all
  moreover have "others n1 w = (n2, w1)" using assms(21) m(1) by (simp add: n2_def m1_def)
  ultimately have S: "SubmitEntry M T others clk e n w = (Some (apply_result ApplyOp_OK 1), n', w1)"
    using sub by (simp add: SubmitEntry_def eval_nat_numeral del: submit_attempts.simps)
  obtain l3 where l3: "rn_log n2 = Some l3" "ls_inv l3" "ls_base l3 = ?b" "ls_ents l3 = ls_ents l @ [x]"
    using same_logD [OF n2(4) ents(1)] ents by metis
  note per = Persist_keeps [OF l3(2)]
  have "rn_log n' = Some (ls_Persist l3)" "rn_sm n' = rn_sm n2" using l3(1) by (simp_all add: n'_def on_log_def)
  moreover have last: "ls_LastIndex (ls_Persist l3) = p + 1" using ls.LastIndex [OF per(1)] per l3 L(1) by simp
  moreover have "ls_Get (ls_Persist l3) (p + 1) = Some x"
    using ls.Get_present [OF per(1), of "p + 1"] last per l3 L(1) by simp
  ultimately show ?thesis using S n2(5) by auto
qed

text \<open>The leader of two nodes again, and the node that replaced it.\<close>

definition demo_overwrite :: AppendEntriesRequest where
  "demo_overwrite = \<lparr>aq_group_id = 0, aq_term = 5, aq_leader_id = ''b'', aq_prev_log_index = 1, aq_prev_log_term = 1,
     aq_entries = [mk_entry 5 2 ''SET k other''], aq_leader_commit = 2\<rparr>"

definition demo_deposed :: "(KvState, bool) Others" where
  "demo_deposed n w = (if w then (n, w)
     else (snd (OnAppendEntries (kv_ops plain_env) \<lparr>steady_ms = 0, wall_ms = 0\<rparr> demo_overwrite n), True))"

lemma demo_log_anchor: "anchor_index (ls_anchor demo_log) = 0"
  using ls.Append [OF demo_single_fields(5) prod.collapse [symmetric], of demo_write True] demo_single_fields(12)
  by (simp add: demo_log_def)

lemma demo_log_term: "ls_GetTerm demo_log 1 = 1"
  using ls.GetTerm_entry [OF demo_log_fields(1), of 1] ls.Get_present [OF demo_log_fields(1), of 1]
  by (simp add: demo_log_fields demo_log_anchor demo_write_def mk_entry_def)

theorem overwritten_write_acknowledged_witness:
  "fst (SubmitEntry (kv_ops plain_env) yes_transport demo_deposed \<lparr>steady_ms = 0, wall_ms = 0\<rparr> demo_write demo_leader False)
     = Some (apply_result ApplyOp_OK 1)"
proof -
  have f: "rn_group_waiters demo_leader = []" "term_of demo_leader = 0"
    by (simp_all add: demo_leader_def demo_follower_def rn_new_def rs_new_def)
  have c: "list_all (\<lambda>e. \<not> is_config e) (mk_entry 5 2 ''SET k other'' # ls_ents demo_log)"
    by (simp add: demo_log_fields) (simp add: is_config_def mk_entry_def)
  have "\<exists>n' l'. SubmitEntry (kv_ops plain_env) yes_transport demo_deposed \<lparr>steady_ms = 0, wall_ms = 0\<rparr> demo_write demo_leader False
      = (Some (apply_result ApplyOp_OK 1), n', True) \<and> rn_log n' = Some l' \<and> ls_Get l' (1 + 1) = Some (mk_entry 5 2 ''SET k other'')
      \<and> ls_LastIndex l' = 1 + 1 \<and> rn_sm n' = Some (run_entries (kv_ops plain_env) \<lparr>steady_ms = 0, wall_ms = 0\<rparr>
          (drop (rn_last_applied demo_leader - ls_base demo_log) (ls_ents demo_log) @ [mk_entry 5 2 ''SET k other'']) (kv_init 1))"
    by (rule overwritten_write_acknowledged [where req = demo_overwrite])
       (use c in \<open>simp_all add: f demo_log_fields demo_log_term [unfolded One_nat_def] demo_overwrite_def demo_deposed_def mk_entry_def\<close>)
  then show ?thesis by auto
qed

end
