(* ===== verification/Raft_Commit.thy ===== *)
theory Raft_Commit
  imports Raft_Append
begin

text \<open>
  The commit index of a leader, its lease, and what a follower does after a snapshot.
\<close>

section \<open>Quorums\<close>

definition at_least :: "LogIndex \<Rightarrow> LogIndex list \<Rightarrow> nat" where
  "at_least c xs = length (filter (\<lambda>i. c \<le> i) xs)"

lemma at_least_sort [simp]: "at_least c (rev (sort xs)) = at_least c xs"
  by (simp add: at_least_def filter_sort flip: rev_filter)

lemma at_least_descending:
  assumes "sorted_wrt (\<ge>) xs" "k < length xs"
  shows "Suc k \<le> at_least (xs ! k) xs" "xs ! k < c \<Longrightarrow> at_least c xs \<le> k"
  using assms
proof (induction xs arbitrary: k)
  case (Cons x xs)
  {
    case 1
    then show ?case using Cons.IH(1) [of "k - 1"] by (cases k) (auto simp: at_least_def)
  next
    case 2
    have "at_least c xs \<le> k - 1" if "0 < k" using Cons.IH(2) [of "k - 1"] 2 that by (cases k) auto
    moreover have "at_least c (x # xs) = 0" if "k = 0"
      using 2 that by (fastforce simp: at_least_def filter_empty_conv)
    ultimately show ?case by (cases k) (auto simp: at_least_def)
  }
qed simp_all

text \<open>The index found is the largest one a majority has reached.\<close>

lemma quorum_index_spec:
  assumes "quorum_index majority xs = Some c" "0 < majority"
  shows "majority \<le> at_least c xs" "c < c' \<Longrightarrow> at_least c' xs < majority"
proof -
  let ?ys = "rev (sort xs)"
  have q: "majority - 1 < length ?ys" "c = ?ys ! (majority - 1)"
    using assms by (auto simp: quorum_index_def Let_def split: if_splits)
  have s: "sorted_wrt (\<ge>) ?ys" by (simp add: sorted_wrt_rev)
  show "majority \<le> at_least c xs" using at_least_descending(1) [OF s q(1)] q(2) assms(2) by simp
  show "c < c' \<Longrightarrow> at_least c' xs < majority" using at_least_descending(2) [OF s q(1), of c'] q(2) assms(2) by simp
qed

lemma commit_candidateD:
  assumes "rn_commit_index (commit_candidate l c n) \<noteq> rn_commit_index n"
  shows "rn_commit_index (commit_candidate l c n) = c" "rn_commit_index n < c" "ls_GetTerm l c = 0 \<or> term_of n \<le> ls_GetTerm l c"
  using assms by (auto simp: commit_candidate_def Let_def split: if_splits)

text \<open>C13: a leader commits by majority. When the commit index moves, the new index is the largest one that a
  majority of the cluster has reached, counting the leader's own log and the recorded progress of its
  peers, and the leader's entry there is not from an earlier term (a term of 0 stands for an entry the
  leader does not have).\<close>

theorem commit_by_majority:
  assumes "rn_log n = Some l" and "rn_config_state n = kStable" and "c = rn_commit_index (AdvanceCommitIndexLocked n)"
    and "c \<noteq> rn_commit_index n" and "majority = (length (voters (rn_config n)) + 1) div 2 + 1"
  shows "rn_commit_index n < c \<and> majority \<le> at_least c (ls_LastIndex l # pa_last (rn_peers n))
    \<and> (\<forall>c' > c. at_least c' (ls_LastIndex l # pa_last (rn_peers n)) < majority)
    \<and> (ls_GetTerm l c = 0 \<or> term_of n \<le> ls_GetTerm l c)"
proof -
  obtain q where q: "quorum_index majority (ls_LastIndex l # pa_last (rn_peers n)) = Some q"
    "AdvanceCommitIndexLocked n = commit_candidate l q n"
    using assms by (auto simp: AdvanceCommitIndexLocked_def split: option.splits)
  then have c: "c = q" "rn_commit_index n < q" "ls_GetTerm l q = 0 \<or> term_of n \<le> ls_GetTerm l q"
    using commit_candidateD [of l q n] assms(4) unfolding assms(3) by simp_all
  have "0 < majority" using assms(5) by simp
  note spec = quorum_index_spec [OF q(1) this]
  show ?thesis unfolding c(1) using c(2,3) spec(1) by (intro conjI allI impI spec(2)) simp_all
qed

definition demo_committing :: "KvState RaftNode" where
  "demo_committing = demo_leader\<lparr>rn_commit_index := 0,
     rn_peers := \<lparr>pa_ids = [''b''], pa_next = [2], pa_last = [1], pa_hb_ok = [True]\<rparr>\<rparr>"

lemma demo_committing_fields:
  "rn_log demo_committing = Some demo_log" "rn_config_state demo_committing = kStable" "rn_commit_index demo_committing = 0"
  "voters (rn_config demo_committing) = [''b'']" "pa_last (rn_peers demo_committing) = [1]" "pa_ids (rn_peers demo_committing) = [''b'']"
  "term_of demo_committing = 0"
  by (simp_all add: demo_committing_def) (simp add: demo_leader_def demo_follower_def rn_new_def rs_new_def)

lemma demo_commits: "rn_commit_index (AdvanceCommitIndexLocked demo_committing) = 1"
  by (simp add: AdvanceCommitIndexLocked_def demo_committing_fields quorum_index_def demo_log_fields commit_candidate_def Let_def)

theorem commit_by_majority_witness:
  "rn_commit_index demo_committing < rn_commit_index (AdvanceCommitIndexLocked demo_committing)
    \<and> 2 \<le> at_least (rn_commit_index (AdvanceCommitIndexLocked demo_committing)) (ls_LastIndex demo_log # pa_last (rn_peers demo_committing))"
  using commit_by_majority [OF demo_committing_fields(1,2) refl _ refl]
  by (simp add: demo_commits demo_committing_fields demo_log_fields)

definition voter_progress :: "LogStore \<Rightarrow> PeerArrays \<Rightarrow> ClusterConfig \<Rightarrow> LogIndex list" where
  "voter_progress l p c = ls_LastIndex l # map snd (filter (\<lambda>x. fst x \<in> set (voters c)) (zip (pa_ids p) (pa_last p)))"

lemma at_least_mono: "c \<le> c' \<Longrightarrow> at_least c' xs \<le> at_least c xs"
  by (induction xs) (auto simp: at_least_def)

lemma calc_config_commit_majority:
  assumes "0 < c" "c \<le> calc_config_commit l p cfg"
  shows "(length (voters cfg) + 1) div 2 + 1 \<le> at_least c (voter_progress l p cfg)"
proof -
  obtain q where q: "quorum_index ((length (voters cfg) + 1) div 2 + 1) (voter_progress l p cfg) = Some q" "c \<le> q"
    using assms by (auto simp: calc_config_commit_def voter_progress_def Let_def split: option.splits)
  show ?thesis using quorum_index_spec(1) [OF q(1)] at_least_mono [OF q(2), of "voter_progress l p cfg"] by simp
qed

text \<open>C14: during a membership change a commit needs both majorities: the new commit index is reached by a
  majority of the old and by a majority of the new configuration, each counted with the leader.\<close>

theorem joint_commit_by_both_majorities:
  assumes "rn_log n = Some l" and "rn_config_state n = kJoint" and "c = rn_commit_index (AdvanceCommitIndexLocked n)"
    and "c \<noteq> rn_commit_index n" and "cfg = old_config (rn_joint n) \<or> cfg = new_config (rn_joint n)"
  shows "rn_commit_index n < c \<and> (length (voters cfg) + 1) div 2 + 1 \<le> at_least c (voter_progress l (rn_peers n) cfg)"
proof -
  let ?q = "min (calc_config_commit l (rn_peers n) (old_config (rn_joint n))) (calc_config_commit l (rn_peers n) (new_config (rn_joint n)))"
  have a: "AdvanceCommitIndexLocked n = commit_candidate l ?q n"
    using assms(1,2) by (simp add: AdvanceCommitIndexLocked_def AdvanceCommitIndexJoint_def)
  then have c: "c = ?q" "rn_commit_index n < c" using commit_candidateD [of l ?q n] assms(4) unfolding assms(3) by simp_all
  then have "c \<le> calc_config_commit l (rn_peers n) cfg" using assms(5) by auto
  then show ?thesis using calc_config_commit_majority c(2) by (metis gr_zeroI not_less_zero)
qed

definition demo_joint :: "KvState RaftNode" where
  "demo_joint = demo_committing\<lparr>rn_config_state := kJoint,
     rn_joint := \<lparr>old_config = \<lparr>version = 0, voters = [], learners = []\<rparr>, new_config = \<lparr>version = 0, voters = [''b''], learners = []\<rparr>\<rparr>\<rparr>"

lemma demo_joint_fields:
  "rn_log demo_joint = Some demo_log" "rn_config_state demo_joint = kJoint" "rn_commit_index demo_joint = 0"
  "voters (old_config (rn_joint demo_joint)) = []" "voters (new_config (rn_joint demo_joint)) = [''b'']"
  "pa_last (rn_peers demo_joint) = [1]" "pa_ids (rn_peers demo_joint) = [''b'']" "term_of demo_joint = 0"
  by (simp_all add: demo_joint_def demo_committing_fields)

lemma demo_joint_commits: "rn_commit_index (AdvanceCommitIndexLocked demo_joint) = 1"
  by (simp add: AdvanceCommitIndexLocked_def AdvanceCommitIndexJoint_def calc_config_commit_def demo_joint_fields
      quorum_index_def demo_log_fields commit_candidate_def Let_def)

theorem joint_commit_by_both_majorities_witness:
  "2 \<le> at_least 1 (voter_progress demo_log (rn_peers demo_joint) (new_config (rn_joint demo_joint)))"
  using joint_commit_by_both_majorities [OF demo_joint_fields(1,2) refl, of "new_config (rn_joint demo_joint)"]
  by (simp add: demo_joint_commits demo_joint_fields)

section \<open>Heartbeats\<close>

lemma AdvanceCommitIndex_fields:
  "rn_role (AdvanceCommitIndexLocked n) = rn_role n" "rn_config (AdvanceCommitIndexLocked n) = rn_config n"
  "rn_config_state (AdvanceCommitIndexLocked n) = rn_config_state n" "rn_joint (AdvanceCommitIndexLocked n) = rn_joint n"
  "rn_last_majority_ack (AdvanceCommitIndexLocked n) = rn_last_majority_ack n"
  "rn_check_quorum (AdvanceCommitIndexLocked n) = rn_check_quorum n" "rn_transfer (AdvanceCommitIndexLocked n) = rn_transfer n"
  "rn_lease_ms (AdvanceCommitIndexLocked n) = rn_lease_ms n" "rn_storage (AdvanceCommitIndexLocked n) = rn_storage n"
  by (simp_all add: AdvanceCommitIndexLocked_def AdvanceCommitIndexJoint_def commit_candidate_def Let_def split: option.splits)

lemma hb_progress_fields:
  assumes "n1 = snd (hb_progress acks n)"
  shows "rn_role n1 = rn_role n" "hb_majority n1 = hb_majority n" "rn_last_majority_ack n1 = rn_last_majority_ack n"
    "rn_check_quorum n1 = rn_check_quorum n" "rn_transfer n1 = rn_transfer n" "rn_lease_ms n1 = rn_lease_ms n"
    "term_of n1 = term_of n"
  unfolding assms
  by (simp_all add: hb_progress_def case_prod_beta Let_def AdvanceCommitIndex_fields ResizePeerArrays_def hb_majority_def)

text \<open>The answers a heartbeat round gets.\<close>

fun hb_answers :: "'w Transport \<Rightarrow> HeartbeatRequest \<Rightarrow> NodeId list \<Rightarrow> 'w \<Rightarrow> HeartbeatResponse list" where
  "hb_answers T req [] w = []"
| "hb_answers T req (p # ps) w = (let (rsp, w1) = SendHeartbeat T p req w in rsp # hb_answers T req ps w1)"

definition acknowledges :: "Term \<Rightarrow> HeartbeatResponse \<Rightarrow> bool" where
  "acknowledges t rsp \<longleftrightarrow> hr_success rsp \<and> hr_term rsp = t"

lemma hb_poll_answers:
  assumes "answers = hb_answers T req ps w"
  shows "ha_count (fst (hb_poll T req ps a w)) = ha_count a + length (filter (acknowledges (hq_term req)) answers)"
    "ha_max_term (fst (hb_poll T req ps a w)) = foldl max (ha_max_term a) (map hr_term answers)"
  unfolding assms
  by (induction ps arbitrary: a w) (simp_all add: Let_def case_prod_beta acknowledges_def ack_add_def max_def)

lemma foldl_max_le: "(a :: nat) \<le> b \<Longrightarrow> list_all (\<lambda>x. x \<le> b) xs \<Longrightarrow> foldl max a xs \<le> b"
  by (induction xs arbitrary: a) simp_all

text \<open>What decides about leadership.\<close>

definition same_leadership :: "'sm RaftNode \<Rightarrow> 'sm RaftNode \<Rightarrow> bool" where
  "same_leadership n m \<longleftrightarrow> rn_role m = rn_role n \<and> term_of m = term_of n \<and> rn_config m = rn_config n
     \<and> rn_config_state m = rn_config_state n \<and> rn_last_majority_ack m = rn_last_majority_ack n
     \<and> rn_check_quorum m = rn_check_quorum n \<and> rn_heartbeat m = rn_heartbeat n"

definition hb_request :: "'sm RaftNode \<Rightarrow> HeartbeatRequest" where
  "hb_request n = \<lparr>hq_group_id = rn_group_id n, hq_term = term_of n, hq_leader_id = rn_node_id n, hq_leader_commit = rn_commit_index n\<rparr>"

lemma BecomeFollower_term: "term_of (BecomeFollower (term_of n) n) = term_of n"
  by (simp add: BecomeFollower_def SetRoleLocked_def Let_def StopHeartbeat_def CancelTransfer_def)

lemma hb_finish_steps_down:
  assumes "rn_role n = Leader" and "ha_max_term acks \<le> term_of n" and "\<not> is_loop \<or> hb_epoch (rn_heartbeat n) = epoch"
    and "ha_count acks < hb_majority n" and "rn_last_majority_ack n \<le> steady_ms clk"
    and "rn_check_quorum n < steady_ms clk - rn_last_majority_ack n"
  shows "hb_finish clk is_loop epoch acks n = (hb_stopped, BecomeFollower (term_of (snd (hb_progress acks n))) (snd (hb_progress acks n)))"
proof -
  define n1 where "n1 = snd (hb_progress acks n)"
  note f = hb_progress_fields [OF n1_def]
  have "hb_finish clk is_loop epoch acks n = (hb_stopped, StepDown n1)"
    using assms f by (auto simp: hb_finish_def case_prod_beta Let_def n1_def [symmetric])
  then show ?thesis using f(1) assms(1) by (simp add: StepDown_def n1_def)
qed

text \<open>C15: a leader that has lost contact steps down. Take a whole heartbeat round of a leader outside membership
  changes, in which fewer than half of the nodes of the cluster, the leader included, acknowledge its
  term and nobody reports a later one. If the last round that had enough acknowledgements is longer ago
  than the quorum check allows, the node is a follower afterwards, in the same term, and the loop of
  heartbeats stops; other fibers may run during the round as long as they leave the node's leadership
  alone. (In a cluster of odd size, fewer than half is the same as no majority; a leader that reaches
  exactly half of a cluster of even size stays.)\<close>

theorem lost_contact_steps_down:
  assumes "rn_role n = Leader" and "rn_config_state n = kStable" and "\<not> is_loop \<or> hb_epoch (rn_heartbeat n) = epoch"
    and "answers = hb_answers T (hb_request n) (if rn_transport n then GetPeerIds n else []) w"
    and "2 * (1 + length (filter (acknowledges (term_of n)) answers)) < length (voters (rn_config n)) + 1"
    and "list_all (\<lambda>a. hr_term a \<le> term_of n) answers"
    and "rn_last_majority_ack n \<le> steady_ms clk" and "rn_check_quorum n < steady_ms clk - rn_last_majority_ack n"
    and "\<forall>m v. same_leadership m (fst (others m v))"
    and "HeartbeatTick M T others clk is_loop epoch n w = (stop, n', w')"
  shows "stop \<and> rn_role n' = Follower \<and> term_of n' = term_of n"
proof -
  let ?ps = "if rn_transport n then GetPeerIds n else []"
  define acks where "acks = fst (hb_poll T (hb_request n) ?ps \<lparr>ha_count = 1, ha_max_term = hq_term (hb_request n), ha_last_log = []\<rparr> w)"
  obtain w1 where p: "hb_poll T (hb_request n) ?ps \<lparr>ha_count = 1, ha_max_term = hq_term (hb_request n), ha_last_log = []\<rparr> w = (acks, w1)"
    by (simp add: acks_def prod_eq_iff)
  obtain m v where o: "others n w1 = (m, v)" by fastforce
  have m: "rn_role m = Leader" "term_of m = term_of n" "rn_config m = rn_config n" "rn_config_state m = kStable"
    "rn_last_majority_ack m = rn_last_majority_ack n" "rn_check_quorum m = rn_check_quorum n" "rn_heartbeat m = rn_heartbeat n"
    using assms(9) [rule_format, of n w1] assms(1,2) o by (simp_all add: same_leadership_def)
  have t: "hq_term (hb_request n) = term_of n" by (simp add: hb_request_def)
  have a: "ha_count acks = 1 + length (filter (acknowledges (term_of n)) answers)" "ha_max_term acks \<le> term_of m"
    using hb_poll_answers [OF assms(4)] foldl_max_le [of "term_of n" "term_of n" "map hr_term answers"] assms(6) m(2)
    by (simp_all add: acks_def t list_all_iff)
  have "ha_count acks < hb_majority m" using a(1) assms(5) m(3,4) by (simp add: hb_majority_def)
  then have f: "hb_finish clk is_loop epoch acks m
      = (hb_stopped, BecomeFollower (term_of (snd (hb_progress acks m))) (snd (hb_progress acks m)))"
    using m a(2) assms(3,7,8) by (intro hb_finish_steps_down) simp_all
  have b: "hb_begin is_loop epoch n = Some (hb_request n, GetPeerIds n)"
    using assms(1,3) by (auto simp: hb_begin_def hb_request_def)
  have "HeartbeatTick M T others clk is_loop epoch n w = (True, snd (hb_finish clk is_loop epoch acks m), v)"
    unfolding HeartbeatTick_def b option.case prod.case p Let_def o f by (simp add: hb_stopped_def)
  moreover have "term_of (snd (hb_progress acks m)) = term_of m" by (rule hb_progress_fields(7) [OF refl])
  ultimately show ?thesis using assms(10) f m(2) BecomeFollower_term [of "snd (hb_progress acks m)"]
    by (simp add: BecomeFollower_fields)
qed

definition no_transport :: "unit Transport" where
  "no_transport = yes_transport\<lparr>SendHeartbeat := \<lambda>p r w. (\<lparr>hr_group_id = 0, hr_term = 0, hr_success = False, hr_last_log_index = 0\<rparr>, w)\<rparr>"

definition demo_cut_off :: "KvState RaftNode" where
  "demo_cut_off = demo_leader\<lparr>rn_config := \<lparr>version = 0, voters = [''b'', ''c''], learners = []\<rparr>\<rparr>"

theorem lost_contact_steps_down_witness:
  "rn_role (fst (snd (HeartbeatTick (kv_ops plain_env) no_transport quiet \<lparr>steady_ms = 601, wall_ms = 0\<rparr> False 0 demo_cut_off ()))) = Follower"
proof -
  have "stop \<and> rn_role n' = Follower \<and> term_of n' = term_of demo_cut_off"
    if "HeartbeatTick (kv_ops plain_env) no_transport quiet \<lparr>steady_ms = 601, wall_ms = 0\<rparr> False 0 demo_cut_off () = (stop, n', w')"
    for stop n' w'
    by (rule lost_contact_steps_down [OF _ _ _ refl _ _ _ _ _ that])
       (simp_all add: same_leadership_def demo_cut_off_def GetPeerIds_def no_transport_def acknowledges_def,
        simp_all add: demo_leader_def demo_follower_def rn_new_def)
  from this [OF prod_cases3_collapse] show ?thesis by blast
qed

text \<open>C17: with one peer a leader renews its lease alone. The majority of a heartbeat round is computed from
  the voters without the node itself, which is 1 for a cluster of two, so a leader that is cut off from its
  only peer extends its lease in every round and keeps answering reads from it.\<close>

theorem two_node_leader_renews_lease_alone:
  assumes "rn_role n = Leader" and "rn_config_state n = kStable" and "voters (rn_config n) = [peer]"
    and "\<not> IsActive (rn_transfer n)"
    and "\<forall>req w. \<not> hr_success (fst (SendHeartbeat T peer req w)) \<and> hr_term (fst (SendHeartbeat T peer req w)) \<le> term_of n"
    and "HeartbeatTick M T quiet clk False epoch n w = (stop, n', w')"
  shows "\<not> stop \<and> rn_role n' = Leader \<and> rn_lease_expire n' = steady_ms clk + rn_lease_ms n"
proof -
  define req where "req = \<lparr>hq_group_id = rn_group_id n, hq_term = term_of n, hq_leader_id = rn_node_id n,
                  hq_leader_commit = rn_commit_index n\<rparr>"
  define a0 where "a0 = \<lparr>ha_count = 1, ha_max_term = term_of n, ha_last_log = []\<rparr>"
  have a0: "ha_count a0 = 1" "ha_max_term a0 = term_of n" by (simp_all add: a0_def)
  have b: "hb_begin False epoch n = Some (req, GetPeerIds n)" using assms(1) by (simp add: hb_begin_def req_def)
  have t: "hq_term req = term_of n" by (simp add: req_def)
  have ids: "GetPeerIds n = [peer] \<or> GetPeerIds n = []" using assms(2,3) by (simp add: GetPeerIds_def)
  have "ack_add req peer (fst (SendHeartbeat T peer req w)) a0 = a0"
    using assms(5) by (simp add: ack_add_def a0_def Let_def leD)
  then have p: "fst (hb_poll T req (if rn_transport n then GetPeerIds n else []) a0 w) = a0"
    using ids by (auto simp: case_prod_beta)
  define n1 where "n1 = snd (hb_progress a0 n)"
  note f = hb_progress_fields [OF n1_def]
  have need: "fst (hb_progress a0 n) = False" by (simp add: hb_progress_def a0_def case_prod_beta Let_def)
  define n2 where "n2 = ExtendLeaderLease clk (n1\<lparr>rn_last_majority_ack := steady_ms clk\<rparr>)"
  have m: "hb_majority n1 = 1" using f(2) assms(2,3) by (simp add: hb_majority_def)
  have "hb_finish clk False epoch a0 n = hb_transfer clk False n2"
    using assms(1) m need a0 by (simp add: hb_finish_def case_prod_beta Let_def n1_def [symmetric] n2_def)
  then have h: "hb_finish clk False epoch a0 n = (\<lparr>ho_stop = False, ho_timeout_now = False, ho_replicate = False\<rparr>, n2)"
    using assms(4) f(5) by (simp add: hb_transfer_def n2_def ExtendLeaderLease_def)
  obtain w1 where w1: "hb_poll T req (if rn_transport n then GetPeerIds n else []) a0 w = (a0, w1)"
    using p by (metis prod.collapse)
  have e: "\<lparr>ha_count = 1, ha_max_term = hq_term req, ha_last_log = []\<rparr> = a0" by (simp add: a0_def t)
  have "HeartbeatTick M T quiet clk False epoch n w = (False, n2, w1)"
    unfolding HeartbeatTick_def b option.case prod.case e w1 Let_def h quiet_simps by (simp add: h)
  then show ?thesis using assms(1,6) f(1,6) by (simp add: n2_def ExtendLeaderLease_def)
qed

theorem two_node_leader_renews_lease_alone_witness:
  "rn_lease_expire (fst (snd (HeartbeatTick (kv_ops plain_env) no_transport quiet \<lparr>steady_ms = 900, wall_ms = 0\<rparr> False 0 demo_leader ()))) = 1000"
  using two_node_leader_renews_lease_alone [OF _ _ _ _ _ prod_cases3_collapse, of demo_leader "''b''" no_transport
      "kv_ops plain_env" "\<lparr>steady_ms = 900, wall_ms = 0\<rparr>" 0 "()"]
  by (simp add: no_transport_def) (simp add: demo_leader_def demo_follower_def rn_new_def IsActive_def)

text \<open>C16: the commit index of a leader can pass the end of its own log. The acknowledgements of a heartbeat
  round overwrite the progress recorded for the peers with the length of their logs, whether or not
  these match the leader's. When both peers of a leader hold more entries than the leader, the round
  commits indexes for which the leader has no entry.\<close>

theorem heartbeat_commits_beyond_log:
  assumes "rn_log n = Some l" and "ls_inv l" and "rn_config_state n = kStable" and "rn_node_id n \<notin> {a, b}" and "a \<noteq> b"
    and "voters (rn_config n) = [a, b]" and "ha_last_log acks = [(a, i), (b, j)]"
    and "ls_LastIndex l < min i j" and "rn_commit_index n < min i j" and "anchor_index (ls_anchor l) < min i j"
  shows "rn_commit_index (snd (hb_progress acks n)) = min i j"
proof -
  define n1 where "n1 = ResizePeerArrays 2 n"
  define arr where "arr = (rn_peers n1)\<lparr>pa_ids := [a, b], pa_hb_ok := map (\<lambda>_. False) (pa_hb_ok (rn_peers n1))\<rparr>"
  have ids: "GetPeerIds n = [a, b]" using assms(3,4,6) by (auto simp: GetPeerIds_def)
  have "length (pa_last arr) = 2" by (simp add: arr_def n1_def ResizePeerArrays_def vec_resize_def Let_def)
  then obtain x y where xy: "pa_last arr = [x, y]" by (metis length_0_conv length_Suc_conv numeral_2_eq_2)
  have ix: "index_of a [a, b] = Some 0" "index_of b [a, b] = Some 1" using assms(5) by (auto simp: index_of_def upt_rec)
  define arr2 where "arr2 = snd (fold (ack_progress (log_last n)) (ha_last_log acks) (False, arr))"
  have last: "pa_last arr2 = [i, j]"
    unfolding arr2_def using assms(7) ix xy by (simp add: ack_progress_def arr_def)
  have h: "snd (hb_progress acks n) = AdvanceCommitIndexLocked (n1\<lparr>rn_peers := arr2\<rparr>)"
    by (simp add: hb_progress_def ids case_prod_beta Let_def arr2_def arr_def n1_def numeral_2_eq_2)
  have n1: "rn_log n1 = Some l" "rn_config_state n1 = kStable" "voters (rn_config n1) = [a, b]" "rn_commit_index n1 = rn_commit_index n"
    using assms(1,3,6) by (simp_all add: n1_def ResizePeerArrays_def Let_def)
  have sort: "sort [ls_LastIndex l, i, j] = [ls_LastIndex l, min i j, max i j]"
    using assms(8) by (cases "i \<le> j") (simp_all add: min_def max_def)
  have q: "quorum_index 2 [ls_LastIndex l, i, j] = Some (min i j)"
    using sort by (simp add: quorum_index_def Let_def)
  have "ls_base l \<le> ls_LastIndex l" using ls.LastIndex assms(2) by simp
  then have "ls_GetTerm l (min i j) = 0"
    using ls.GetTerm_entry [OF assms(2), of "min i j"] ls.Get_absent [OF assms(2), of "min i j"] assms(8,10) by simp
  then show ?thesis
    unfolding h using n1 last q [unfolded numeral_2_eq_2] assms(9) by (simp add: AdvanceCommitIndexLocked_def commit_candidate_def Let_def)
qed

theorem heartbeat_commits_beyond_log_witness:
  "rn_commit_index (snd (hb_progress \<lparr>ha_count = 3, ha_max_term = 0, ha_last_log = [(''b'', 7), (''c'', 6)]\<rparr>
     (demo_leader\<lparr>rn_config := \<lparr>version = 0, voters = [''b'', ''c''], learners = []\<rparr>\<rparr>))) = 6"
  using heartbeat_commits_beyond_log [of "demo_leader\<lparr>rn_config := \<lparr>version = 0, voters = [''b'', ''c''], learners = []\<rparr>\<rparr>" demo_log
      "''b''" "''c''" "\<lparr>ha_count = 3, ha_max_term = 0, ha_last_log = [(''b'', 7), (''c'', 6)]\<rparr>" 7 6]
  by (simp add: demo_log_fields demo_log_anchor)

section \<open>Reads during a membership change\<close>

text \<open>In the joint state the confirmation round of a read asks the voters of both configurations, but the
  number of confirmations is compared with a majority of the current configuration only. Nodes that are
  new in the target configuration are enough to confirm a read: here every voter of the current
  configuration refuses, and the read index is returned.\<close>

lemma confirmations_of_new_nodes:
  assumes "\<forall>p w. confirms (rq_term req) (fst (SendReadIndex T p req w)) \<longleftrightarrow> p \<notin> V"
    and "\<forall>p w. rr_term (fst (SendReadIndex T p req w)) \<le> rq_term req"
  shows "length (filter (confirms (rq_term req)) (read_answers T req ps w)) = length (filter (\<lambda>p. p \<notin> V) ps)"
    and "foldl max (rq_term req) (map rr_term (read_answers T req ps w)) = rq_term req"
  using assms by (induction ps arbitrary: w) (simp_all add: Let_def case_prod_beta max_absorb1)

lemma joint_read_without_current_voters:
  assumes "rn_role n = Leader" and "rn_lease_expire n \<le> steady_ms clk" and "rn_config_state n = kJoint" and "rn_transport n"
    and "V = set (voters (rn_config n))"
    and "\<forall>p w. confirms (term_of n) (fst (SendReadIndex T p (read_request n) w)) \<longleftrightarrow> p \<notin> V"
    and "\<forall>p w. rr_term (fst (SendReadIndex T p (read_request n) w)) \<le> term_of n"
    and "(length (voters (rn_config n)) + 1) div 2 \<le> length (filter (\<lambda>p. p \<notin> V) (GetPeerIds n))"
    and "0 < rn_commit_index n" and "rn_commit_index n \<le> rn_last_applied n" and "\<not> rn_crashed n"
  shows "fst (ReadIndex M T quiet clk ((c, f) # turns) n w) = Some (rn_commit_index n)"
proof -
  define n1 where "n1 = n\<lparr>rn_next_read_id := rn_next_read_id n + 1\<rparr>"
  define k where "k = ExtendLeaderLease clk (n1\<lparr>rn_last_majority_ack := steady_ms clk\<rparr>)"
  have t: "rq_term (read_request n) = term_of n" by (simp add: read_request_def)
  have b: "read_begin clk n = (ReadSlow (read_request n) (GetPeerIds n), n1)"
    using assms(1,2) by (simp add: read_begin_def Let_def n1_def read_request_def GetPeerIds_def)
  obtain acc w1 where p: "read_poll T (read_request n) (GetPeerIds n) (1, term_of n) w = (acc, w1)" by fastforce
  have acc: "acc = (1 + length (filter (\<lambda>p. p \<notin> V) (GetPeerIds n)), term_of n)"
    using arg_cong [OF p, of fst] confirmations_of_new_nodes [of "read_request n" T V "GetPeerIds n" w] assms(6,7)
    by (simp add: read_poll_answers t)
  have "read_finish clk (read_request n) acc n1 = (Some (rn_commit_index n), k)"
    using assms(1,8) by (simp add: read_finish_def acc n1_def k_def read_request_def)
  moreover have "rn_commit_index k \<le> rn_last_applied k" "rn_commit_index n \<le> rn_last_applied k" "\<not> rn_crashed k"
    using assms(10,11) by (simp_all add: k_def n1_def ExtendLeaderLease_def)
  then have "WaitForApplied M clk (rn_commit_index n) ((c, f) # turns) k = (WaitApplied, k)"
    by (simp add: WaitForApplied_def Let_def apply_nothing)
  moreover have "rn_transport n1" using assms(4) by (simp add: n1_def)
  ultimately show ?thesis
    using assms(9) unfolding ReadIndex_def b prod.case ReadPlan.case t by (simp add: p [unfolded One_nat_def] read_wait_def)
qed

section \<open>After a snapshot\<close>

text \<open>C18: a follower that has installed a snapshot refuses what follows it. Its log is empty with last index 0, so an
  AppendEntries whose previous entry is the last one of the snapshot does not pass the consistency check.\<close>

theorem append_after_snapshot_refused:
  assumes "rn_log n = Some l" and "ls_inv l" and "n1 = install_complete req n" and "0 < iq_last_included_index req"
    and "aq_prev_log_index areq = iq_last_included_index req" and "aq_prev_log_term areq = iq_last_included_term req"
  shows "\<not> ar_success (fst (OnAppendEntries M clk areq n1)) \<and> log_last (snd (OnAppendEntries M clk areq n1)) = 0"
proof -
  let ?l = "ls_SetSnapshotAnchor (iq_last_included_index req) (iq_last_included_term req) (ls_Clear l)"
  have c: "ls_inv (ls_Clear l)" "ls_base (ls_Clear l) = 0" "ls_ents (ls_Clear l) = []" using ls.Clear [OF assms(2)] by simp_all
  have "ls_LastIndex ?l = 0" using ls.LastIndex ls.SetSnapshotAnchor(1-3) c by simp
  moreover have "rn_log n1 = Some ?l"
    using assms(1,3) by (simp add: install_complete_def on_log_def on_progress_def case_prod_beta Let_def)
  ultimately show ?thesis
    using assms(4,5) by (simp add: OnAppendEntries_def Let_def log_last_def append_rsp_def BecomeFollower_log reset_timer_def)
qed

definition demo_install :: InstallSnapshotRequest where
  "demo_install = \<lparr>iq_group_id = 0, iq_term = 1, iq_leader_id = ''b'', iq_last_included_index = 5, iq_last_included_term = 1,
     iq_offset = 0, iq_done = True, iq_data = []\<rparr>"

theorem append_after_snapshot_refused_witness:
  "\<not> ar_success (fst (OnAppendEntries (kv_ops plain_env) \<lparr>steady_ms = 0, wall_ms = 0\<rparr>
     (demo_request\<lparr>aq_prev_log_index := 5, aq_prev_log_term := 1\<rparr>) (install_complete demo_install demo_follower)))"
  using append_after_snapshot_refused [of demo_follower demo_log _ demo_install
      "demo_request\<lparr>aq_prev_log_index := 5, aq_prev_log_term := 1\<rparr>" "kv_ops plain_env" "\<lparr>steady_ms = 0, wall_ms = 0\<rparr>"]
  by (simp add: demo_log_fields demo_install_def)

end
