(* ===== verification/Redis_Parser.thy ===== *)
theory Redis_Parser
  imports Command_Codec
begin

text \<open>
  The parser of client commands, \<^verbatim>\<open>server/protocol/redis_parser.{h,cc}\<close> and \<^verbatim>\<open>resp_expr.{h,cc}\<close>: a state machine
  that is called with the bytes received so far, reports how many of them it consumed, and keeps an
  unfinished command between calls.

  A \<^verbatim>\<open>Buffer\<close> is the bytes it spans; \<^verbatim>\<open>has_support\<close> tells whether they lie in memory the parser owns or in
  the caller's buffer, which the caller may discard up to \<^verbatim>\<open>consumed\<close> after \<^verbatim>\<open>INPUT_PENDING\<close>. The vector the
  caller passes is the field \<open>rp_res\<close> (the same one in every call), and \<^verbatim>\<open>cached_expr_\<close> is a reference to it
  or to a stashed vector. \<open>None\<close> as a result stands for a failed assertion, a fatal log message, an
  exception or an access outside a buffer. \<open>atoi\<close> is \<^verbatim>\<open>absl::SimpleAtoi\<close> at 64 bits.
\<close>

section \<open>Expressions\<close>

datatype RespType = R_STRING | R_ARRAY | R_INT64 | R_NIL | R_NIL_ARRAY | R_ERROR

datatype RespExpr = RespExpr (re_type: RespType) (re_support: bool) (re_u: RespU)
  and RespU = U_Int int | U_Buf string | U_Vec "RespExpr list option"

definition TypeName :: "RespType \<Rightarrow> string" where
  "TypeName t =
     (case t of R_STRING \<Rightarrow> ''string'' | R_INT64 \<Rightarrow> ''int'' | R_ARRAY \<Rightarrow> ''array'' | R_NIL_ARRAY \<Rightarrow> ''nil-array''
      | R_NIL \<Rightarrow> ''nil'' | R_ERROR \<Rightarrow> ''error'')"

definition GetBuf :: "RespExpr \<Rightarrow> string option" where
  "GetBuf e = (case re_u e of U_Buf b \<Rightarrow> Some b | _ \<Rightarrow> None)"

section \<open>State\<close>

datatype ParseResult = P_OK | INPUT_PENDING | BAD_ARRAYLEN | BAD_BULKLEN | BAD_STRING | BAD_INT

datatype ParserState = INIT_S | INLINE_S | ARRAY_LEN_S | PARSE_ARG_S | BULK_STR_S | FINISH_ARG_S | CMD_COMPLETE_S

datatype VecRef = Res | Stash nat

text \<open>The top of \<^verbatim>\<open>parse_stack_\<close> is the head of the list.\<close>

record RedisParser =
  rp_state :: ParserState
  rp_last_result :: ParseResult
  rp_last_consumed :: nat
  rp_bulk_len :: nat
  rp_stashed_level :: nat
  rp_stashed_index :: nat
  rp_parse_stack :: "(nat \<times> VecRef option) list"
  rp_stash :: "RespExpr list list"
  rp_cached :: "VecRef option"
  rp_broken :: bool
  rp_res :: "RespExpr list"

definition rp_new :: RedisParser where
  "rp_new = \<lparr>rp_state = INIT_S, rp_last_result = P_OK, rp_last_consumed = 0, rp_bulk_len = 0, rp_stashed_level = 0,
     rp_stashed_index = 0, rp_parse_stack = [], rp_stash = [], rp_cached = None, rp_broken = False, rp_res = []\<rparr>"

definition kMaxArrayLen :: int where
  "kMaxArrayLen = 1024"

definition kMaxBulkLen :: int where
  "kMaxBulkLen = 64 * 2 ^ 20"

text \<open>The vector \<^verbatim>\<open>cached_expr_\<close> refers to.\<close>

definition vec :: "RedisParser \<Rightarrow> RespExpr list" where
  "vec p = (case rp_cached p of Some (Stash i) \<Rightarrow> rp_stash p ! i | _ \<Rightarrow> rp_res p)"

definition put_vec :: "RespExpr list \<Rightarrow> RedisParser \<Rightarrow> RedisParser" where
  "put_vec v p =
     (case rp_cached p of Some (Stash i) \<Rightarrow> p\<lparr>rp_stash := (rp_stash p)[i := v]\<rparr> | _ \<Rightarrow> p\<lparr>rp_res := v\<rparr>)"

definition push_expr :: "RespExpr \<Rightarrow> RedisParser \<Rightarrow> RedisParser" where
  "push_expr e p = put_vec (vec p @ [e]) p"

definition put_back :: "RespExpr \<Rightarrow> RedisParser \<Rightarrow> RedisParser" where
  "put_back e p = put_vec (butlast (vec p) @ [e]) p"

section \<open>Steps\<close>

definition InitStart :: "char \<Rightarrow> RedisParser \<Rightarrow> RedisParser" where
  "InitStart prefix_b p =
     (let p1 = p\<lparr>rp_stash := [], rp_cached := Some Res, rp_parse_stack := [], rp_stashed_level := 0, rp_stashed_index := 0\<rparr>
      in if prefix_b = CHR ''$'' then p1\<lparr>rp_state := PARSE_ARG_S, rp_parse_stack := [(1, rp_cached p1)]\<rparr>
         else if prefix_b = CHR ''*'' then p1\<lparr>rp_state := ARRAY_LEN_S\<rparr>
         else p1\<lparr>rp_state := INLINE_S\<rparr>)"

text \<open>Copying the strings from index \<open>i\<close> on into memory of the parser; the index reached and the vector.\<close>

function stash_from :: "nat \<Rightarrow> RespExpr list \<Rightarrow> nat \<times> RespExpr list" where
  "stash_from i cur =
     (if i < length cur then
        case cur ! i of RespExpr t s u \<Rightarrow>
          (if t = R_STRING then
             if u = U_Buf [] \<and> i + 1 = length cur then (i, cur)
             else stash_from (i + 1) (if u \<noteq> U_Buf [] \<and> \<not> s then cur[i := RespExpr t True u] else cur)
           else stash_from (i + 1) cur)
      else (i, cur))"
  by pat_completeness auto
termination
  by (relation "measure (\<lambda>(i, cur). length cur - i)") auto

declare stash_from.simps [simp del]

function stash_levels :: "nat \<Rightarrow> nat \<Rightarrow> RespExpr list list \<Rightarrow> nat \<times> nat \<times> RespExpr list list" where
  "stash_levels level i st =
     (let (j, cur) = stash_from i (st ! level); st1 = st[level := cur]
      in if length st \<le> level + 1 then (level, j, st1) else stash_levels (level + 1) 0 st1)"
  by pat_completeness auto
termination
  by (relation "measure (\<lambda>(level, i, st). length st - level)") auto

declare stash_levels.simps [simp del]

definition StashState :: "RedisParser \<Rightarrow> RedisParser option" where
  "StashState p =
     (if vec p = [] \<and> rp_stash p = [] then Some (p\<lparr>rp_cached := None\<rparr>)
      else
        let p1 = (if rp_cached p = Some Res
                  then p\<lparr>rp_stash := rp_stash p @ [rp_res p], rp_cached := Some (Stash (length (rp_stash p)))\<rparr> else p)
        in if length (rp_stash p1) \<le> rp_stashed_level p1 then None
           else
             let (level, i, st) = stash_levels (rp_stashed_level p1) (rp_stashed_index p1) (rp_stash p1)
             in Some (p1\<lparr>rp_stashed_level := level, rp_stashed_index := i, rp_stash := st\<rparr>))"

definition ExtendLastString :: "string \<Rightarrow> RedisParser \<Rightarrow> RedisParser option" where
  "ExtendLastString s p =
     (if vec p = [] then None
      else case last (vec p) of
        RespExpr R_STRING True (U_Buf b) \<Rightarrow> Some (put_back (RespExpr R_STRING True (U_Buf (b @ s))) p)
      | _ \<Rightarrow> None)"

definition visible :: "char \<Rightarrow> bool" where
  "visible c \<longleftrightarrow> 32 < (of_char c :: nat)"

lemma dropWhile_shorter: "length (dropWhile P xs) \<le> length xs"
  by (rule length_dropWhile_le)

lemma inline_step_shorter:
  assumes "r = dropWhile (\<lambda>c. c \<noteq> CHR 0x0A \<and> \<not> visible c) s" "r \<noteq> []" "hd r \<noteq> CHR 0x0A"
  shows "length (dropWhile visible r) < length s"
proof -
  have "visible (hd r)" using hd_dropWhile [of "\<lambda>c. c \<noteq> CHR 0x0A \<and> \<not> visible c" s] assms by auto
  then have "dropWhile visible r = dropWhile visible (tl r)" using assms(2) by (cases r) auto
  then have "length (dropWhile visible r) < length r"
    using dropWhile_shorter [of visible "tl r"] assms(2) by (cases r) auto
  then show ?thesis using dropWhile_shorter [of "\<lambda>c. c \<noteq> CHR 0x0A \<and> \<not> visible c" s] assms(1) by simp
qed

text \<open>The loop over tokens: the tokens, and the input from the end of the loop on.\<close>

function inline_tokens :: "string \<Rightarrow> RespExpr list \<times> string" where
  "inline_tokens s =
     (let r = dropWhile (\<lambda>c. c \<noteq> CHR 0x0A \<and> \<not> visible c) s
      in if r = [] \<or> hd r = CHR 0x0A then ([], r)
         else
           let (es, r') = inline_tokens (dropWhile visible r)
           in (RespExpr R_STRING False (U_Buf (takeWhile visible r)) # es, r'))"
  by pat_completeness auto

termination
  by (relation "measure length") (use inline_step_shorter [OF refl] in auto)

declare inline_tokens.simps [simp del]

definition ParseInline :: "string \<Rightarrow> RedisParser \<Rightarrow> (ParseResult \<times> RedisParser) option" where
  "ParseInline str p =
     (if str = [] then None
      else
        let rest = (if rp_broken p then dropWhile visible str else str);
            ext = (if rp_broken p
                   then map_option (\<lambda>p. if rest \<noteq> [] then p\<lparr>rp_broken := False\<rparr> else p)
                          (ExtendLastString (takeWhile visible str) p)
                   else Some p)
        in case ext of
             None \<Rightarrow> None
           | Some p1 \<Rightarrow>
               let (es, r) = inline_tokens rest;
                   p2 = put_vec (vec p1 @ es) p1;
                   used = length str - length r
               in if es \<noteq> [] \<and> rp_broken p1 then None
                  else if r = [] then
                    Some (INPUT_PENDING, p2\<lparr>rp_last_consumed := used, rp_broken := (visible (last str) \<or> rp_broken p2)\<rparr>)
                  else Some (P_OK, p2\<lparr>rp_last_consumed := used + 1, rp_state := CMD_COMPLETE_S\<rparr>))"

text \<open>The number behind the first byte: its value and the bytes of the header.\<close>

definition ParseNum :: "(string \<Rightarrow> int option) \<Rightarrow> string \<Rightarrow> (ParseResult \<times> int \<times> nat) option" where
  "ParseNum atoi str =
     (if length str < 4 then Some (INPUT_PENDING, 0, 0)
      else case find_sub [CHR 0x0A] (tl str) of
        None \<Rightarrow> Some (if length str < 32 then INPUT_PENDING else BAD_INT, 0, 0)
      | Some pos \<Rightarrow>
          if str ! pos \<noteq> CHR 0x0D then Some (BAD_INT, 0, 0)
          else if pos = 0 then None
          else case atoi (take (pos - 1) (tl str)) of
            None \<Rightarrow> Some (BAD_INT, 0, 0)
          | Some n \<Rightarrow> Some (P_OK, n, pos + 2))"

definition ConsumeArrayLen ::
  "(string \<Rightarrow> int option) \<Rightarrow> string \<Rightarrow> RedisParser \<Rightarrow> (ParseResult \<times> RedisParser) option" where
  "ConsumeArrayLen atoi str p0 =
     (case ParseNum atoi str of
        None \<Rightarrow> None
      | Some (r, len, k) \<Rightarrow>
          if r = INPUT_PENDING then Some (INPUT_PENDING, p0)
          else if r \<noteq> P_OK then Some (BAD_ARRAYLEN, p0)
          else
            let p = p0\<lparr>rp_last_consumed := k\<rparr> in
            if len < -1 \<or> kMaxArrayLen < len then Some (BAD_ARRAYLEN, p)
            else if rp_parse_stack p \<noteq> [] then Some (BAD_STRING, p)
            else if vec p \<noteq> [] then Some (BAD_STRING, p)
            else if len \<le> 0 then
              Some (P_OK, (push_expr (if len = -1 then RespExpr R_NIL_ARRAY False (U_Vec None)
                                      else RespExpr R_ARRAY False (U_Vec (Some []))) p)
                            \<lparr>rp_state := (if rp_parse_stack p = [] then CMD_COMPLETE_S else FINISH_ARG_S)\<rparr>)
            else Some (P_OK, p\<lparr>rp_parse_stack := (nat len, rp_cached p) # rp_parse_stack p, rp_state := PARSE_ARG_S\<rparr>))"

definition ParseArg ::
  "(string \<Rightarrow> int option) \<Rightarrow> string \<Rightarrow> RedisParser \<Rightarrow> (ParseResult \<times> RedisParser) option" where
  "ParseArg atoi str p0 =
     (if hd str = CHR ''$'' then
        case ParseNum atoi str of
          None \<Rightarrow> None
        | Some (r, len, k) \<Rightarrow>
            if r = INPUT_PENDING then Some (INPUT_PENDING, p0)
            else if r \<noteq> P_OK then Some (BAD_ARRAYLEN, p0)
            else
              let p = p0\<lparr>rp_last_consumed := k\<rparr> in
              if len < -1 \<or> kMaxBulkLen < len then Some (BAD_ARRAYLEN, p)
              else if len < 0 then Some (P_OK, push_expr (RespExpr R_NIL False (U_Buf [])) (p\<lparr>rp_state := FINISH_ARG_S\<rparr>))
              else Some (P_OK, push_expr (RespExpr R_STRING False (U_Buf [])) (p\<lparr>rp_bulk_len := nat len, rp_state := BULK_STR_S\<rparr>))
      else Some (BAD_BULKLEN, p0))"

definition ConsumeBulk :: "string \<Rightarrow> RedisParser \<Rightarrow> (ParseResult \<times> RedisParser) option" where
  "ConsumeBulk str p =
     (if vec p = [] then None
      else case last (vec p) of RespExpr t s u \<Rightarrow>
        (case u of
           U_Buf b \<Rightarrow>
             let n = rp_bulk_len p in
             if n + 2 \<le> length str then
               if str ! n \<noteq> CHR 0x0D \<or> str ! (n + 1) \<noteq> CHR 0x0A then Some (BAD_STRING, p)
               else
                 let b1 = (if n = 0 then b else if rp_broken p then b @ take n str else take n str)
                 in Some (P_OK, (put_back (RespExpr t s (U_Buf b1)) p)
                      \<lparr>rp_broken := False, rp_state := FINISH_ARG_S, rp_last_consumed := n + 2, rp_bulk_len := 0\<rparr>)
             else if 32 \<le> length str then
               if n = 0 then None
               else
                 let len = min (length str) n;
                     e = (if rp_broken p then RespExpr t s (U_Buf (b @ take len str))
                          else RespExpr t True (U_Buf (take len str)))
                 in Some (INPUT_PENDING, (put_back e p)\<lparr>rp_broken := True, rp_last_consumed := len, rp_bulk_len := n - len\<rparr>)
             else Some (INPUT_PENDING, p)
         | _ \<Rightarrow> None))"

fun HandleFinishArg :: "(nat \<times> VecRef option) list \<Rightarrow> RedisParser \<Rightarrow> RedisParser option" where
  "HandleFinishArg [] p = None"
| "HandleFinishArg ((n, r) # st) p =
     (if n = 0 then None
      else if n - 1 \<noteq> 0 then Some (p\<lparr>rp_state := PARSE_ARG_S, rp_parse_stack := (n - 1, r) # st\<rparr>)
      else case st of
        [] \<Rightarrow> Some (p\<lparr>rp_state := CMD_COMPLETE_S, rp_parse_stack := []\<rparr>)
      | (m, r') # st' \<Rightarrow> HandleFinishArg st (p\<lparr>rp_cached := r'\<rparr>))"

section \<open>The loop\<close>

text \<open>One turn: the result goes to \<^verbatim>\<open>last_result_\<close>, which \<^verbatim>\<open>FINISH_ARG_S\<close> leaves alone.\<close>

definition with_result :: "(ParseResult \<times> RedisParser) option \<Rightarrow> RedisParser option" where
  "with_result x = map_option (\<lambda>(r, p). p\<lparr>rp_last_result := r\<rparr>) x"

definition parse_step :: "(string \<Rightarrow> int option) \<Rightarrow> string \<Rightarrow> RedisParser \<Rightarrow> RedisParser option" where
  "parse_step atoi str p =
     (case rp_state p of
        ARRAY_LEN_S \<Rightarrow> with_result (ConsumeArrayLen atoi str p)
      | PARSE_ARG_S \<Rightarrow> with_result (if length str < 4 then Some (INPUT_PENDING, p) else ParseArg atoi str p)
      | INLINE_S \<Rightarrow> if rp_parse_stack p \<noteq> [] then None else with_result (ParseInline str p)
      | BULK_STR_S \<Rightarrow> with_result (ConsumeBulk str p)
      | FINISH_ARG_S \<Rightarrow> HandleFinishArg (rp_parse_stack p) p
      | _ \<Rightarrow> None)"

lemma ParseNum_consumed:
  "ParseNum atoi str = Some (P_OK, n, k) \<Longrightarrow> 2 \<le> k \<and> k \<le> length str"
  by (cases str) (auto simp: ParseNum_def split: if_splits option.splits dest: find_sub_bound)

lemma put_vec_fields [simp]:
  "rp_state (put_vec v p) = rp_state p" "rp_last_consumed (put_vec v p) = rp_last_consumed p"
  "rp_last_result (put_vec v p) = rp_last_result p" "rp_bulk_len (put_vec v p) = rp_bulk_len p"
  "rp_parse_stack (put_vec v p) = rp_parse_stack p" "rp_broken (put_vec v p) = rp_broken p"
  "rp_cached (put_vec v p) = rp_cached p" "rp_stashed_index (put_vec v p) = rp_stashed_index p"
  "rp_stashed_level (put_vec v p) = rp_stashed_level p" "length (rp_stash (put_vec v p)) = length (rp_stash p)"
  by (simp_all add: put_vec_def split: option.splits VecRef.splits)

lemma HandleFinishArg_fields:
  assumes "HandleFinishArg st p = Some p1"
  shows "rp_state p1 \<noteq> FINISH_ARG_S" "rp_last_consumed p1 = rp_last_consumed p"
  using assms by (induction st p rule: HandleFinishArg.induct) (auto split: if_splits list.splits)

abbreviation loop_size :: "string \<Rightarrow> RedisParser \<Rightarrow> nat" where
  "loop_size str p \<equiv> 2 * length str + (if rp_state p = FINISH_ARG_S then 1 else 0)"

lemma header_shrinks: "2 \<le> k \<Longrightarrow> k \<le> length str \<Longrightarrow> 2 * (length str - k) + 1 < 2 * length str"
  by linarith

lemma step_shrinks:
  assumes "parse_step atoi str p = Some p1" "rp_last_result p1 = P_OK" "rp_last_consumed p = 0"
  shows "loop_size (drop (rp_last_consumed p1) str) p1 < loop_size str p"
proof (cases "rp_state p")
  case ARRAY_LEN_S
  then obtain n k where "ParseNum atoi str = Some (P_OK, n, k)" "rp_last_consumed p1 = k"
    using assms by (auto simp: parse_step_def with_result_def ConsumeArrayLen_def Let_def push_expr_def split: option.splits if_splits)
  then show ?thesis using ParseNum_consumed header_shrinks [of k str] ARRAY_LEN_S by fastforce
next
  case PARSE_ARG_S
  then obtain n k where "ParseNum atoi str = Some (P_OK, n, k)" "rp_last_consumed p1 = k"
    using assms by (auto simp: parse_step_def with_result_def ParseArg_def Let_def push_expr_def split: option.splits if_splits)
  then show ?thesis using ParseNum_consumed header_shrinks [of k str] PARSE_ARG_S by fastforce
next
  case INLINE_S
  then have "str \<noteq> []" "0 < rp_last_consumed p1" "rp_state p1 = CMD_COMPLETE_S"
    using assms by (auto simp: parse_step_def with_result_def ParseInline_def Let_def case_prod_beta split: option.splits if_splits)
  then show ?thesis by (simp add: INLINE_S)
next
  case BULK_STR_S
  then have "2 \<le> rp_last_consumed p1" "rp_last_consumed p1 \<le> length str"
    using assms by (auto simp: parse_step_def with_result_def ConsumeBulk_def Let_def put_back_def
        split: option.splits if_splits RespExpr.splits RespU.splits)
  then show ?thesis using header_shrinks [of "rp_last_consumed p1" str] BULK_STR_S by fastforce
next
  case FINISH_ARG_S
  then show ?thesis using assms HandleFinishArg_fields [of "rp_parse_stack p" p p1] by (simp add: parse_step_def)
qed (use assms in \<open>simp_all add: parse_step_def\<close>)

function parse_loop :: "(string \<Rightarrow> int option) \<Rightarrow> string \<Rightarrow> nat \<Rightarrow> RedisParser \<Rightarrow> (nat \<times> RedisParser) option" where
  "parse_loop atoi str consumed p =
     (if rp_state p = CMD_COMPLETE_S then Some (consumed, p)
      else case parse_step atoi str (p\<lparr>rp_last_consumed := 0\<rparr>) of
        None \<Rightarrow> None
      | Some p1 \<Rightarrow>
          if rp_last_result p1 \<noteq> P_OK then Some (consumed + rp_last_consumed p1, p1)
          else parse_loop atoi (drop (rp_last_consumed p1) str) (consumed + rp_last_consumed p1) p1)"
  by pat_completeness auto
termination
proof (relation "measure (\<lambda>(atoi, str, consumed, p). loop_size str p)", simp)
  fix atoi str consumed p p1
  assume "parse_step atoi str (p\<lparr>rp_last_consumed := 0\<rparr>) = Some p1" "\<not> rp_last_result p1 \<noteq> P_OK"
  then show "((atoi, drop (rp_last_consumed p1) str, consumed + rp_last_consumed p1, p1), atoi, str, consumed, p)
      \<in> measure (\<lambda>(atoi, str, consumed, p). loop_size str p)"
    using step_shrinks [of atoi str "p\<lparr>rp_last_consumed := 0\<rparr>" p1] by simp
qed

declare parse_loop.simps [simp del]

definition parse_begin :: "char \<Rightarrow> RedisParser \<Rightarrow> RedisParser" where
  "parse_begin c p =
     (let p1 = (if rp_state p = CMD_COMPLETE_S then p\<lparr>rp_state := INIT_S\<rparr> else p);
          p2 = (if rp_state p1 = INIT_S then InitStart c p1 else p1)
      in if rp_cached p2 = None then p2\<lparr>rp_cached := Some Res\<rparr> else p2)"

definition parse_end :: "nat \<Rightarrow> RedisParser \<Rightarrow> (ParseResult \<times> nat \<times> RedisParser) option" where
  "parse_end consumed p =
     (if rp_last_result p = INPUT_PENDING then map_option (\<lambda>q. (INPUT_PENDING, consumed, q)) (StashState p)
      else if rp_last_result p = P_OK \<and> rp_cached p \<noteq> Some Res then
        if rp_stash p = [] then None else Some (P_OK, consumed, p\<lparr>rp_res := vec p\<rparr>)
      else Some (rp_last_result p, consumed, p))"

definition Parse :: "(string \<Rightarrow> int option) \<Rightarrow> string \<Rightarrow> RedisParser \<Rightarrow> (ParseResult \<times> nat \<times> RedisParser) option" where
  "Parse atoi str p0 =
     (let p = p0\<lparr>rp_res := []\<rparr> in
      if length str < 2 then Some (INPUT_PENDING, 0, p)
      else case parse_loop atoi str 0 (parse_begin (hd str) p) of
        None \<Rightarrow> None
      | Some (consumed, p1) \<Rightarrow> parse_end consumed p1)"

text \<open>A connection: it appends what it receives to what the parser has not consumed, until the parser has a
  command or an error. The bytes left over come second.\<close>

fun feed :: "(string \<Rightarrow> int option) \<Rightarrow> string list \<Rightarrow> string \<Rightarrow> RedisParser \<Rightarrow> (ParseResult \<times> string \<times> RedisParser) option" where
  "feed atoi [] buf p = Some (INPUT_PENDING, buf, p)"
| "feed atoi (chunk # chunks) buf p =
     (case Parse atoi (buf @ chunk) p of
        None \<Rightarrow> None
      | Some (r, consumed, p1) \<Rightarrow>
          if r = INPUT_PENDING then feed atoi chunks (drop consumed (buf @ chunk)) p1
          else Some (r, drop consumed (buf @ chunk), p1))"

end
