(* ===== verification/Redis_Stream.thy ===== *)
theory Redis_Stream
  imports Redis_Parser Kv_Spec
begin

text \<open>
  The client parser on a stream: a command arrives in pieces of any size, and the parser finds its
  arguments whatever the pieces are.
\<close>

section \<open>Input so far against input expected\<close>

definition fits :: "string \<Rightarrow> string \<Rightarrow> bool" where
  "fits str R \<longleftrightarrow> prefix str R \<or> prefix R str"

lemma fits_long:
  assumes "fits str (h @ rest)" "length h \<le> length str"
  obtains r where "str = h @ r" "fits r rest"
proof -
  have "prefix h str" using assms prefix_length_prefix [of h "h @ rest" str] unfolding fits_def
    by (metis append_prefixD prefixI)
  then obtain r where "str = h @ r" by (auto elim: prefixE)
  then show thesis using that assms(1) by (simp add: fits_def)
qed

lemma fits_short:
  assumes "fits str (h @ rest)" "length str < length h"
  obtains t where "h = str @ t" "t \<noteq> []"
proof -
  have "prefix str (h @ rest)" using assms by (auto simp: fits_def prefix_def)
  then have "prefix str h" using assms(2) prefix_length_prefix [of str "h @ rest" h] by simp
  then show thesis using that assms(2) by (auto elim!: prefixE)
qed

lemma fits_hd: "fits str (c # R) \<Longrightarrow> 0 < length str \<Longrightarrow> hd str = c"
  by (cases str) (auto simp: fits_def)

lemma fits_drop: "fits str R \<Longrightarrow> c \<le> length str \<Longrightarrow> c \<le> length R \<Longrightarrow> fits (drop c str) (drop c R)"
  by (auto simp: fits_def prefix_def)

section \<open>Numbers\<close>

lemma length_to_string: "n < 10 ^ Suc k \<Longrightarrow> length (to_string n) \<le> Suc k"
proof (induction k arbitrary: n)
  case (Suc k)
  show ?case
  proof (cases "n < 10")
    case False
    have "n div 10 < 10 ^ Suc k" using Suc.prems by (simp add: less_mult_imp_div_less)
    then show ?thesis using Suc.IH False by (simp add: to_string_eval(2))
  qed (simp add: to_string_eval(1))
qed (simp add: to_string_eval(1))

lemma LF_free: "CHR 0x0A \<notin> set (to_string n @ [CHR 0x0D])"
  using to_string_digits [of "CHR 0x0A" n] by (auto simp: is_digit_def)

lemma ParseNum_header:
  assumes "fits str (c # to_string n @ crlf @ rest)" "atoi (to_string n) = Some (int n)" "length (to_string n) \<le> 20"
  shows "ParseNum atoi str = (if length (to_string n) + 3 \<le> length str
    then Some (P_OK, int n, length (to_string n) + 3) else Some (INPUT_PENDING, 0, 0))"
proof (cases "length (to_string n) + 3 \<le> length str")
  case True
  obtain r where str: "str = (c # to_string n @ crlf) @ r"
    using fits_long [of str "c # to_string n @ crlf" rest] assms(1) True by auto
  have ne: "to_string n \<noteq> []" by simp
  have f: "find_sub [CHR 0x0A] (tl str) = Some (length (to_string n) + 1)"
    using find_sub_first [OF LF_free [of n], of "[]" r] by (simp add: str)
  have "str ! (length (to_string n) + 1) = CHR 0x0D" by (simp add: str nth_append)
  moreover have "take (length (to_string n)) (tl str) = to_string n" by (simp add: str)
  moreover have "4 \<le> length str" using True ne by (cases "to_string n") auto
  ultimately show ?thesis using f True assms(2) by (simp add: ParseNum_def)
next
  case False
  then obtain t where t: "c # to_string n @ crlf = str @ t" "t \<noteq> []"
    using fits_short [of str "c # to_string n @ crlf" rest] assms(1) by auto
  have len: "length str < 32" using False assms(3) by simp
  have "CHR 0x0A \<notin> set (tl str)"
  proof (cases str)
    case (Cons x xs)
    then have "to_string n @ crlf = xs @ t" using t(1) by simp
    then have "(to_string n @ [CHR 0x0D]) @ [CHR 0x0A] = xs @ butlast t @ [last t]" using t(2) by simp
    then have "to_string n @ [CHR 0x0D] = xs @ butlast t" by (metis append_assoc butlast_snoc)
    then have "set xs \<subseteq> set (to_string n @ [CHR 0x0D])" by (metis set_append sup_ge1)
    then show ?thesis using LF_free Cons by auto
  qed simp
  then have "find_sub [CHR 0x0A] (tl str) = None" by (rule find_sub_absent)
  then show ?thesis using False len by (simp add: ParseNum_def)
qed

lemma drop_header: "drop (length t + 3) (c # t @ crlf @ rest) = rest"
  using drop_length_append [of "c # t @ crlf" rest] by (simp add: numeral_3_eq_3)

section \<open>Where the parser is in a command\<close>

definition str_of :: "RespExpr \<Rightarrow> string option" where
  "str_of e = (if re_type e = R_STRING then GetBuf e else None)"

definition texts :: "RedisParser \<Rightarrow> string option list" where
  "texts p = map str_of (vec p)"

definition cur :: "RedisParser \<Rightarrow> bool" where
  "cur p \<longleftrightarrow> rp_stashed_level p = 0
     \<and> (rp_cached p = Some Res \<and> rp_stash p = [] \<or> rp_cached p = Some (Stash 0) \<and> length (rp_stash p) = 1)"

lemma cur_vec [simp]: "cur p \<Longrightarrow> vec (put_vec v p) = v"
  by (auto simp: cur_def vec_def put_vec_def)

lemma cur_put [simp]: "cur (put_vec v p) = cur p"
  by (auto simp: cur_def put_vec_def split: option.splits VecRef.splits)

lemma cur_fields [simp]:
  "cur (p\<lparr>rp_state := s\<rparr>) = cur p" "cur (p\<lparr>rp_last_result := r\<rparr>) = cur p" "cur (p\<lparr>rp_last_consumed := k\<rparr>) = cur p"
  "cur (p\<lparr>rp_bulk_len := b\<rparr>) = cur p" "cur (p\<lparr>rp_parse_stack := st\<rparr>) = cur p" "cur (p\<lparr>rp_broken := x\<rparr>) = cur p"
  by (simp_all add: cur_def)

lemma vec_fields [simp]:
  "vec (p\<lparr>rp_state := s\<rparr>) = vec p" "vec (p\<lparr>rp_last_result := r\<rparr>) = vec p" "vec (p\<lparr>rp_last_consumed := k\<rparr>) = vec p"
  "vec (p\<lparr>rp_bulk_len := b\<rparr>) = vec p" "vec (p\<lparr>rp_parse_stack := st\<rparr>) = vec p" "vec (p\<lparr>rp_broken := x\<rparr>) = vec p"
  by (simp_all add: vec_def split: option.splits VecRef.splits)

definition encoding :: "string list \<Rightarrow> string" where
  "encoding args = concat (map encode_arg args)"

lemma encoding_simps [simp]: "encoding [] = []" "encoding (a # as) = encode_arg a @ encoding as"
  by (simp_all add: encoding_def)

text \<open>\<open>R\<close> is the part of the encoding of \<open>args\<close> that is still to come.\<close>

definition at_arg :: "string list \<Rightarrow> RedisParser \<Rightarrow> string list \<Rightarrow> string \<Rightarrow> string list \<Rightarrow> bool" where
  "at_arg args p done a todo \<longleftrightarrow> args = done @ a # todo \<and> (\<exists>r. rp_parse_stack p = [(Suc (length todo), r)])"

definition reading :: "string list \<Rightarrow> RedisParser \<Rightarrow> string \<Rightarrow> bool" where
  "reading args p R =
     (case rp_state p of
        ARRAY_LEN_S \<Rightarrow> rp_parse_stack p = [] \<and> texts p = [] \<and> \<not> rp_broken p \<and> R = EncodeRespArray args
      | PARSE_ARG_S \<Rightarrow> \<exists>done a todo. at_arg args p done a todo \<and> \<not> rp_broken p \<and> texts p = map Some done
          \<and> R = encode_arg a @ encoding todo
      | BULK_STR_S \<Rightarrow> \<exists>done todo g h. at_arg args p done (g @ h) todo \<and> rp_bulk_len p = length h \<and> (\<not> rp_broken p \<longrightarrow> g = [])
          \<and> texts p = map Some (done @ [g]) \<and> R = h @ crlf @ encoding todo
      | FINISH_ARG_S \<Rightarrow> \<exists>done a todo. at_arg args p done a todo \<and> \<not> rp_broken p \<and> rp_last_result p = P_OK
          \<and> texts p = map Some (done @ [a]) \<and> R = encoding todo
      | CMD_COMPLETE_S \<Rightarrow> texts p = map Some args \<and> rp_last_result p = P_OK \<and> \<not> rp_broken p \<and> R = []
      | _ \<Rightarrow> False)"

lemma reading_argI:
  "rp_state p = PARSE_ARG_S \<Longrightarrow> at_arg args p d a todo \<Longrightarrow> \<not> rp_broken p \<Longrightarrow> texts p = map Some d
    \<Longrightarrow> reading args p (encode_arg a @ encoding todo)"
  unfolding reading_def by auto

lemma reading_bulkI:
  "rp_state p = BULK_STR_S \<Longrightarrow> at_arg args p d (g @ h) todo \<Longrightarrow> rp_bulk_len p = length h \<Longrightarrow> (\<not> rp_broken p \<Longrightarrow> g = [])
    \<Longrightarrow> texts p = map Some (d @ [g]) \<Longrightarrow> reading args p (h @ crlf @ encoding todo)"
  unfolding reading_def by auto

lemma reading_finishI:
  "rp_state p = FINISH_ARG_S \<Longrightarrow> at_arg args p d a todo \<Longrightarrow> \<not> rp_broken p \<Longrightarrow> rp_last_result p = P_OK
    \<Longrightarrow> texts p = map Some (d @ [a]) \<Longrightarrow> reading args p (encoding todo)"
  unfolding reading_def by auto

definition stepped :: "string list \<Rightarrow> string \<Rightarrow> string \<Rightarrow> RedisParser \<Rightarrow> bool" where
  "stepped args str R p1 \<longleftrightarrow> cur p1 \<and> rp_last_consumed p1 \<le> length str \<and> rp_last_consumed p1 \<le> length R
     \<and> reading args p1 (drop (rp_last_consumed p1) R)
     \<and> (rp_last_result p1 = P_OK \<or> rp_last_result p1 = INPUT_PENDING \<and> length str < length R \<and> rp_state p1 \<noteq> CMD_COMPLETE_S)"

definition atoi_ok :: "(string \<Rightarrow> int option) \<Rightarrow> bool" where
  "atoi_ok atoi \<longleftrightarrow> (\<forall>n \<le> 64 * 2 ^ 20. atoi (to_string n) = Some (int n))"

definition args_ok :: "string list \<Rightarrow> bool" where
  "args_ok args \<longleftrightarrow> args \<noteq> [] \<and> length args \<le> 1024 \<and> list_all (\<lambda>a. length a \<le> 64 * 2 ^ 20) args"

lemma atoi_okD: "atoi_ok atoi \<Longrightarrow> n \<le> 64 * 2 ^ 20 \<Longrightarrow> atoi (to_string n) = Some (int n) \<and> length (to_string n) \<le> 20"
  using length_to_string [of n 8] by (simp add: atoi_ok_def)

lemma vec_Nil_texts: "texts p = [] \<longleftrightarrow> vec p = []"
  by (simp add: texts_def)

lemma texts_put [simp]: "cur p \<Longrightarrow> texts (put_vec v p) = map str_of v"
  by (simp add: texts_def)

lemma texts_fields [simp]:
  "texts (p\<lparr>rp_state := s\<rparr>) = texts p" "texts (p\<lparr>rp_last_result := r\<rparr>) = texts p" "texts (p\<lparr>rp_last_consumed := k\<rparr>) = texts p"
  "texts (p\<lparr>rp_bulk_len := b\<rparr>) = texts p" "texts (p\<lparr>rp_parse_stack := st\<rparr>) = texts p" "texts (p\<lparr>rp_broken := x\<rparr>) = texts p"
  by (simp_all add: texts_def)

lemma str_of_string [simp]: "str_of (RespExpr R_STRING s (U_Buf b)) = Some b"
  by (simp add: str_of_def GetBuf_def)

lemma str_of_SomeD: "str_of e = Some b \<Longrightarrow> \<exists>s. e = RespExpr R_STRING s (U_Buf b)"
  by (cases e) (auto simp: str_of_def GetBuf_def split: if_splits RespU.splits)

lemma texts_snoc:
  assumes "texts p = xs @ [Some b]"
  obtains s where "vec p \<noteq> []" "last (vec p) = RespExpr R_STRING s (U_Buf b)" "map str_of (butlast (vec p)) = xs"
proof -
  have m: "map str_of (vec p) = xs @ [Some b]" using assms by (simp add: texts_def)
  then have ne: "vec p \<noteq> []" by auto
  have "map str_of (butlast (vec p) @ [last (vec p)]) = xs @ [Some b]" using m ne by simp
  then have l: "map str_of (butlast (vec p)) = xs" "str_of (last (vec p)) = Some b" by simp_all
  then show thesis using that ne str_of_SomeD [OF l(2)] by blast
qed

section \<open>Steps\<close>

lemma step_array_len:
  assumes "atoi_ok atoi" "args_ok args" "cur p" "rp_state p = ARRAY_LEN_S" "rp_last_consumed p = 0" "reading args p R" "fits str R"
  shows "\<exists>p1. parse_step atoi str p = Some p1 \<and> stepped args str R p1"
proof -
  let ?n = "length args"
  have r: "rp_parse_stack p = []" "vec p = []" "\<not> rp_broken p" "R = CHR ''*'' # to_string ?n @ crlf @ encoding args"
    using assms(4,6) by (simp_all add: reading_def EncodeRespArray_def encoding_def vec_Nil_texts)
  have n: "?n \<le> 1024" "0 < ?n" using assms(2) by (auto simp: args_ok_def)
  have a: "atoi (to_string ?n) = Some (int ?n)" "length (to_string ?n) \<le> 20" using atoi_okD [OF assms(1), of ?n] n by auto
  note P = ParseNum_header [where atoi = atoi, OF assms(7) [unfolded r(4)] a]
  have lenR: "length R = length (to_string ?n) + 3 + length (encoding args)" by (simp add: r(4))
  show ?thesis
  proof (cases "length (to_string ?n) + 3 \<le> length str")
    case True
    let ?k = "length (to_string ?n) + 3"
    define p1 where "p1 = p\<lparr>rp_last_consumed := ?k, rp_parse_stack := [(?n, rp_cached p)], rp_state := PARSE_ARG_S, rp_last_result := P_OK\<rparr>"
    have s: "parse_step atoi str p = Some p1"
      using P True assms(4) r n
      by (simp add: parse_step_def with_result_def ConsumeArrayLen_def kMaxArrayLen_def Let_def p1_def)
    obtain a todo where at: "args = a # todo" using n by (cases args) auto
    have "drop ?k R = encode_arg a @ encoding todo" unfolding r(4) drop_header by (simp add: at)
    then have "reading args p1 (drop ?k R)"
      using r at by (auto simp: reading_def p1_def at_arg_def texts_def intro!: exI [of _ "[]"])
    then show ?thesis using s assms(3) True lenR by (simp add: stepped_def p1_def)
  next
    case False
    have "parse_step atoi str p = Some (p\<lparr>rp_last_result := INPUT_PENDING\<rparr>)"
      using P False assms(4) by (simp add: parse_step_def with_result_def ConsumeArrayLen_def)
    then show ?thesis using assms(3-6) False lenR by (simp add: stepped_def reading_def)
  qed
qed

lemma at_arg_fields [simp]:
  "at_arg args (p\<lparr>rp_state := s\<rparr>) d a t = at_arg args p d a t" "at_arg args (p\<lparr>rp_last_result := x\<rparr>) d a t = at_arg args p d a t"
  "at_arg args (p\<lparr>rp_last_consumed := k\<rparr>) d a t = at_arg args p d a t" "at_arg args (p\<lparr>rp_bulk_len := b\<rparr>) d a t = at_arg args p d a t"
  "at_arg args (p\<lparr>rp_broken := y\<rparr>) d a t = at_arg args p d a t" "at_arg args (put_vec v p) d a t = at_arg args p d a t"
  by (simp_all add: at_arg_def)

lemma step_arg:
  assumes "atoi_ok atoi" "args_ok args" "cur p" "rp_state p = PARSE_ARG_S" "rp_last_consumed p = 0" "reading args p R" "fits str R"
  shows "\<exists>p1. parse_step atoi str p = Some p1 \<and> stepped args str R p1"
proof -
  obtain d a todo where r: "at_arg args p d a todo" "\<not> rp_broken p" "texts p = map Some d" "R = encode_arg a @ encoding todo"
    using assms(4,6) by (auto simp: reading_def)
  let ?n = "length a"
  have R: "R = CHR ''$'' # to_string ?n @ crlf @ a @ crlf @ encoding todo" by (simp add: r(4) encode_arg_def)
  have n: "?n \<le> 64 * 2 ^ 20" using assms(2) r(1) by (auto simp: args_ok_def at_arg_def)
  have ao: "atoi (to_string ?n) = Some (int ?n)" "length (to_string ?n) \<le> 20" using atoi_okD [OF assms(1) n] by auto
  note P = ParseNum_header [where atoi = atoi, OF assms(7) [unfolded R] ao]
  have lenR: "length R = length (to_string ?n) + 3 + ?n + 2 + length (encoding todo)" by (simp add: R)
  have pos: "0 < length (to_string ?n)" by simp
  show ?thesis
  proof (cases "length (to_string ?n) + 3 \<le> length str")
    case True
    let ?k = "length (to_string ?n) + 3"
    have hd: "hd str = CHR ''$''" "\<not> length str < 4"
      using fits_hd [OF assms(7) [unfolded R]] True pos by linarith+
    define p0 where "p0 = p\<lparr>rp_last_consumed := ?k, rp_bulk_len := ?n, rp_state := BULK_STR_S\<rparr>"
    define p1 where "p1 = (push_expr (RespExpr R_STRING False (U_Buf [])) p0)\<lparr>rp_last_result := P_OK\<rparr>"
    have s: "parse_step atoi str p = Some p1"
      using P True assms(4) n hd
      by (simp add: parse_step_def with_result_def ParseArg_def kMaxBulkLen_def Let_def p1_def p0_def)
    have c: "cur p0" using assms(3) by (simp add: p0_def)
    have "drop ?k R = a @ crlf @ encoding todo" unfolding R drop_header ..
    moreover have "texts p1 = map Some (d @ [[]])"
      using c r(3) by (simp add: p1_def push_expr_def) (simp add: p0_def texts_def)
    ultimately have "reading args p1 (drop ?k R)"
      using reading_bulkI [of p1 args d "[]" a todo] r(1,2) by (simp add: p1_def push_expr_def p0_def)
    moreover have "cur p1" "rp_last_consumed p1 = ?k" "rp_last_result p1 = P_OK" using c by (simp_all add: p1_def push_expr_def p0_def)
    ultimately show ?thesis using s True lenR by (simp add: stepped_def)
  next
    case False
    have "parse_step atoi str p = Some (p\<lparr>rp_last_result := INPUT_PENDING\<rparr>)"
    proof (cases "length str < 4")
      case l: False
      then have "hd str = CHR ''$''"
        using fits_hd [OF assms(7) [unfolded R]] by linarith
      then show ?thesis using P False assms(4) l by (simp add: parse_step_def with_result_def ParseArg_def)
    qed (simp add: assms(4) parse_step_def with_result_def)
    then show ?thesis using assms(3-6) False lenR by (auto simp: stepped_def reading_def)
  qed
qed

lemma step_finish:
  assumes "cur p" "rp_state p = FINISH_ARG_S" "rp_last_consumed p = 0" "reading args p R"
  shows "\<exists>p1. parse_step atoi str p = Some p1 \<and> stepped args str R p1"
proof -
  obtain d a todo r where r: "args = d @ a # todo" "rp_parse_stack p = [(Suc (length todo), r)]" "\<not> rp_broken p"
    "rp_last_result p = P_OK" "texts p = map Some (d @ [a])" "R = encoding todo"
    using assms(2,4) by (auto simp: reading_def at_arg_def)
  show ?thesis
  proof (cases todo)
    case Nil
    then show ?thesis using r assms by (simp add: parse_step_def stepped_def reading_def)
  next
    case (Cons b todo')
    define p1 where "p1 = p\<lparr>rp_state := PARSE_ARG_S, rp_parse_stack := [(length todo, r)]\<rparr>"
    have "parse_step atoi str p = Some p1" using r(2) Cons assms(2) by (simp add: parse_step_def p1_def)
    moreover have "reading args p1 R"
      using reading_argI [of p1 args "d @ [a]" b todo'] r Cons by (simp add: p1_def at_arg_def)
    ultimately show ?thesis using assms(1,3) r(4) by (simp add: stepped_def p1_def)
  qed
qed

lemma step_bulk:
  assumes "cur p" "rp_state p = BULK_STR_S" "rp_last_consumed p = 0" "reading args p R" "fits str R"
  shows "\<exists>p1. parse_step atoi str p = Some p1 \<and> stepped args str R p1"
proof -
  obtain d todo g h where r: "at_arg args p d (g @ h) todo" "rp_bulk_len p = length h" "\<not> rp_broken p \<longrightarrow> g = []"
    "texts p = map Some (d @ [g])" "R = h @ crlf @ encoding todo"
    using assms(2,4) by (auto simp: reading_def)
  obtain s where v: "vec p \<noteq> []" "last (vec p) = RespExpr R_STRING s (U_Buf g)" "map str_of (butlast (vec p)) = map Some d"
    using texts_snoc [of p "map Some d" g] r(4) by auto
  have lenR: "length R = length h + 2 + length (encoding todo)" by (simp add: r(5))
  consider (whole) "length h + 2 \<le> length str" | (part) "length str < length h + 2" "32 \<le> length str" | (short) "length str < length h + 2" "length str < 32"
    by linarith
  then show ?thesis
  proof cases
    case whole
    obtain x where x: "str = (h @ crlf) @ x" using fits_long [of str "h @ crlf" "encoding todo"] assms(5) whole r(5) by auto
    define p1 where "p1 = (put_back (RespExpr R_STRING s (U_Buf (g @ h))) p)
      \<lparr>rp_broken := False, rp_state := FINISH_ARG_S, rp_last_consumed := length h + 2, rp_bulk_len := 0, rp_last_result := P_OK\<rparr>"
    have b: "(if length h = 0 then g else if rp_broken p then g @ take (length h) str else take (length h) str) = g @ h"
      using r(3) by (auto simp: x)
    have "str ! length h = CHR 0x0D" "str ! (length h + 1) = CHR 0x0A" by (simp_all add: x nth_append)
    then have "parse_step atoi str p = Some p1"
      using v(1,2) whole assms(2) r(2) b by (simp add: parse_step_def with_result_def ConsumeBulk_def Let_def p1_def)
    moreover have "reading args p1 (encoding todo)"
      by (rule reading_finishI [of _ _ d "g @ h"]) (use r(1) v(3) assms(1) in \<open>simp_all add: p1_def put_back_def\<close>)
    moreover have "drop (length h + 2) R = encoding todo"
      using drop_length_append [of "h @ crlf" "encoding todo"] by (simp add: r(5))
    ultimately show ?thesis using assms(1) whole lenR by (simp add: stepped_def p1_def put_back_def)
  next
    case part
    define len where "len = min (length str) (length h)"
    obtain t where t: "h @ crlf = str @ t" using fits_short [of str "h @ crlf" "encoding todo"] assms(5) part r(5) by auto
    have tk: "take len str = take len h" using arg_cong [OF t, of "take len"] by (simp add: len_def)
    define e where "e = (if rp_broken p then RespExpr R_STRING s (U_Buf (g @ take len h)) else RespExpr R_STRING True (U_Buf (take len h)))"
    define p1 where "p1 = (put_back e p)
      \<lparr>rp_broken := True, rp_last_consumed := len, rp_bulk_len := length h - len, rp_last_result := INPUT_PENDING\<rparr>"
    have "parse_step atoi str p = Some p1"
      using v(1,2) part assms(2) r(2) tk by (auto simp: parse_step_def with_result_def ConsumeBulk_def Let_def p1_def len_def e_def)
    moreover have "str_of e = Some (g @ take len h)" using r(3) by (simp add: e_def)
    then have "reading args p1 (drop len h @ crlf @ encoding todo)"
      by (intro reading_bulkI [of _ _ d "g @ take len h"]) (use r(1) v(3) assms(1,2) in \<open>simp_all add: p1_def put_back_def\<close>)
    moreover have "drop len R = drop len h @ crlf @ encoding todo" by (simp add: r(5) len_def)
    ultimately show ?thesis using assms(1,2) part lenR by (simp add: stepped_def p1_def put_back_def len_def)
  next
    case short
    have "parse_step atoi str p = Some (p\<lparr>rp_last_result := INPUT_PENDING\<rparr>)"
      using v(1,2) short assms(2) r(2) by (simp add: parse_step_def with_result_def ConsumeBulk_def Let_def)
    moreover have "reading args (p\<lparr>rp_last_result := INPUT_PENDING\<rparr>) R"
      unfolding r(5) by (rule reading_bulkI [of _ _ d g]) (use r assms(2) in simp_all)
    ultimately show ?thesis using assms(1-3) short lenR by (simp add: stepped_def)
  qed
qed

section \<open>The loop\<close>

lemma reading_cong:
  assumes "rp_state q = rp_state p" "rp_parse_stack q = rp_parse_stack p" "rp_broken q = rp_broken p" "rp_bulk_len q = rp_bulk_len p"
    "texts q = texts p" "rp_last_result q = rp_last_result p \<or> rp_state p \<notin> {FINISH_ARG_S, CMD_COMPLETE_S}"
  shows "reading args q R = reading args p R"
  using assms by (cases "rp_state p") (auto simp: reading_def at_arg_def)

lemma reading_consumed [simp]: "reading args (p\<lparr>rp_last_consumed := k\<rparr>) R = reading args p R"
  by (rule reading_cong) simp_all

lemma reading_step:
  assumes "atoi_ok atoi" "args_ok args" "cur p" "reading args p R" "fits str R" "rp_state p \<noteq> CMD_COMPLETE_S" "rp_last_consumed p = 0"
  shows "\<exists>p1. parse_step atoi str p = Some p1 \<and> stepped args str R p1"
proof (cases "rp_state p")
  case ARRAY_LEN_S
  show ?thesis by (rule step_array_len [OF assms(1-3) ARRAY_LEN_S assms(7,4,5)])
next
  case PARSE_ARG_S
  show ?thesis by (rule step_arg [OF assms(1-3) PARSE_ARG_S assms(7,4,5)])
next
  case BULK_STR_S
  show ?thesis by (rule step_bulk [OF assms(3) BULK_STR_S assms(7,4,5)])
next
  case FINISH_ARG_S
  show ?thesis by (rule step_finish [OF assms(3) FINISH_ARG_S assms(7,4)])
qed (use assms(4,6) in \<open>simp_all add: reading_def\<close>)

definition looped :: "string list \<Rightarrow> string \<Rightarrow> string \<Rightarrow> nat \<Rightarrow> RedisParser \<Rightarrow> bool" where
  "looped args str R c p \<longleftrightarrow> cur p \<and> c \<le> length str \<and> c \<le> length R \<and> reading args p (drop c R)
     \<and> (if length R \<le> length str then rp_last_result p = P_OK \<and> rp_state p = CMD_COMPLETE_S \<and> c = length R
        else rp_last_result p = INPUT_PENDING \<and> rp_state p \<noteq> CMD_COMPLETE_S)"

lemma parse_loop_reads:
  assumes "atoi_ok atoi" "args_ok args"
  shows "cur p \<Longrightarrow> reading args p R \<Longrightarrow> fits str R
    \<Longrightarrow> \<exists>c p'. parse_loop atoi str c0 p = Some (c0 + c, p') \<and> looped args str R c p'"
proof (induction "loop_size str p" arbitrary: str p R c0 rule: less_induct)
  case less
  show ?case
  proof (cases "rp_state p = CMD_COMPLETE_S")
    case True
    then show ?thesis using less.prems by (intro exI [of _ 0] exI [of _ p]) (simp add: parse_loop.simps looped_def reading_def)
  next
    case False
    obtain p1 where p1: "parse_step atoi str (p\<lparr>rp_last_consumed := 0\<rparr>) = Some p1" "stepped args str R p1"
      using reading_step [OF assms, of "p\<lparr>rp_last_consumed := 0\<rparr>" R str] less.prems False by auto
    let ?c = "rp_last_consumed p1"
    have st: "cur p1" "?c \<le> length str" "?c \<le> length R" "reading args p1 (drop ?c R)" using p1(2) by (simp_all add: stepped_def)
    show ?thesis
    proof (cases "rp_last_result p1 = P_OK")
      case ok: True
      have sm: "loop_size (drop ?c str) p1 < loop_size str p"
        using step_shrinks [OF p1(1) ok] by simp
      have "fits (drop ?c str) (drop ?c R)" using fits_drop less.prems(3) st(2,3) by blast
      from less.hyps [OF sm st(1,4) this, of "c0 + ?c"] obtain c p' where
        r: "parse_loop atoi (drop ?c str) (c0 + ?c) p1 = Some (c0 + ?c + c, p')" "looped args (drop ?c str) (drop ?c R) c p'" by blast
      have "looped args str R (?c + c) p'"
        using r(2) st(2,3) by (auto simp: looped_def add.commute split: if_splits)
      moreover have "parse_loop atoi str c0 p = Some (c0 + (?c + c), p')"
        using r(1) p1(1) ok False by (simp add: parse_loop.simps [of atoi str] add.assoc)
      ultimately show ?thesis by blast
    next
      case bad: False
      then have "rp_last_result p1 = INPUT_PENDING" "length str < length R" "rp_state p1 \<noteq> CMD_COMPLETE_S"
        using p1(2) by (auto simp: stepped_def)
      then have "looped args str R ?c p1" using st by (simp add: looped_def)
      moreover have "parse_loop atoi str c0 p = Some (c0 + ?c, p1)" using p1(1) bad False by (simp add: parse_loop.simps)
      ultimately show ?thesis by blast
    qed
  qed
qed

section \<open>Between calls\<close>

lemma stash_from_texts: "map str_of (snd (stash_from i v)) = map str_of v"
proof (induction i v rule: stash_from.induct)
  case (1 i v)
  show ?case
  proof (cases "i < length v")
    case True
    obtain t s u where e: "v ! i = RespExpr t s u" by (cases "v ! i") auto
    have "(map str_of v)[i := str_of (v ! i)] = map str_of v" by (metis list_update_id map_update)
    moreover have "str_of (RespExpr t True u) = str_of (v ! i)" by (simp add: e str_of_def GetBuf_def)
    ultimately have "map str_of (v[i := RespExpr t True u]) = map str_of v" by (simp add: map_update)
    then show ?thesis using 1 True e by (subst stash_from.simps) auto
  next
    case False
    then show ?thesis by (subst stash_from.simps) simp
  qed
qed

definition idle :: "RedisParser \<Rightarrow> bool" where
  "idle p \<longleftrightarrow> rp_stashed_level p = 0
     \<and> (rp_cached p = None \<and> rp_stash p = [] \<or> rp_cached p = Some (Stash 0) \<and> length (rp_stash p) = 1)"

text \<open>What \<^verbatim>\<open>Parse\<close> does before the loop when a command is under way.\<close>

definition resume :: "RedisParser \<Rightarrow> RedisParser" where
  "resume p = (let q = p\<lparr>rp_res := []\<rparr> in if rp_cached q = None then q\<lparr>rp_cached := Some Res\<rparr> else q)"

lemma resume_cur: "idle p \<Longrightarrow> cur (resume p)"
  by (auto simp: idle_def cur_def resume_def Let_def)

lemma StashState_keeps:
  assumes "cur p"
  obtains q where "StashState p = Some q" "idle q" "texts (resume q) = texts p" "rp_state (resume q) = rp_state p"
    "rp_parse_stack (resume q) = rp_parse_stack p" "rp_broken (resume q) = rp_broken p" "rp_bulk_len (resume q) = rp_bulk_len p"
proof (cases "vec p = [] \<and> rp_stash p = []")
  case True
  then show thesis using assms
    by (intro that [of "p\<lparr>rp_cached := None\<rparr>"]) (auto simp: StashState_def idle_def cur_def resume_def texts_def vec_def Let_def)
next
  case False
  define p1 where "p1 = (if rp_cached p = Some Res
                  then p\<lparr>rp_stash := rp_stash p @ [rp_res p], rp_cached := Some (Stash (length (rp_stash p)))\<rparr> else p)"
  have p1: "rp_cached p1 = Some (Stash 0)" "rp_stash p1 = [vec p]" "rp_stashed_level p1 = 0"
    using assms by (auto simp: p1_def cur_def vec_def length_Suc_conv)
  obtain i v where f: "stash_from (rp_stashed_index p1) (vec p) = (i, v)" by fastforce
  define q where "q = p1\<lparr>rp_stashed_level := 0, rp_stashed_index := i, rp_stash := [v]\<rparr>"
  have "StashState p = Some q"
    unfolding StashState_def p1_def [symmetric] if_not_P [OF False] Let_def
    using p1 f by (simp add: stash_levels.simps [of 0] q_def)
  moreover have "texts (resume q) = texts p"
    using stash_from_texts [of "rp_stashed_index p1" "vec p"] f p1(1) by (simp add: q_def resume_def texts_def vec_def Let_def)
  ultimately show thesis using p1 by (intro that [of q]) (simp_all add: q_def idle_def resume_def Let_def p1_def)
qed

definition waiting :: "string list \<Rightarrow> RedisParser \<Rightarrow> string \<Rightarrow> bool" where
  "waiting args p R \<longleftrightarrow> (rp_state p = INIT_S \<or> rp_state p = CMD_COMPLETE_S) \<and> \<not> rp_broken p \<and> R = EncodeRespArray args
     \<or> idle p \<and> rp_state p \<noteq> INIT_S \<and> rp_state p \<noteq> CMD_COMPLETE_S \<and> rp_state p \<noteq> FINISH_ARG_S \<and> reading args (resume p) R"

text \<open>The state in which the loop starts.\<close>

lemma waiting_start:
  assumes "waiting args p R" "fits str R" "2 \<le> length str" "q = parse_begin (hd str) (p\<lparr>rp_res := []\<rparr>)"
  shows "cur q \<and> reading args q R"
proof (cases "rp_state p = INIT_S \<or> rp_state p = CMD_COMPLETE_S")
  case True
  then have R: "\<not> rp_broken p" "R = EncodeRespArray args" using assms(1) by (auto simp: waiting_def)
  have "fits str (CHR ''*'' # to_string (length args) @ crlf @ encoding args)"
    using assms(2) by (simp add: R(2) EncodeRespArray_def encoding_def)
  then have hd: "hd str = CHR ''*''" using fits_hd assms(3) by fastforce
  show ?thesis
    using R True by (auto simp: assms(4) hd parse_begin_def InitStart_def cur_def reading_def texts_def vec_def Let_def)
next
  case False
  then have w: "idle p" "reading args (resume p) R" using assms(1) by (auto simp: waiting_def)
  have "q = resume p" using False by (simp add: assms(4) parse_begin_def resume_def Let_def)
  then show ?thesis using resume_cur [OF w(1)] w(2) by simp
qed

lemma reading_pending_state:
  "reading args p R \<Longrightarrow> rp_last_result p = INPUT_PENDING \<Longrightarrow> rp_state p \<notin> {INIT_S, FINISH_ARG_S, CMD_COMPLETE_S, INLINE_S}"
  by (auto simp: reading_def)

lemma Parse_reads:
  assumes "atoi_ok atoi" "args_ok args" "waiting args p R" "fits str R" "2 \<le> length R"
  shows "if length R \<le> length str then \<exists>q. Parse atoi str p = Some (P_OK, length R, q) \<and> map str_of (rp_res q) = map Some args
    else \<exists>c q. Parse atoi str p = Some (INPUT_PENDING, c, q) \<and> c \<le> length str \<and> waiting args q (drop c R)"
proof (cases "2 \<le> length str")
  case False
  then have "Parse atoi str p = Some (INPUT_PENDING, 0, p\<lparr>rp_res := []\<rparr>)" by (simp add: Parse_def)
  moreover have "waiting args (p\<lparr>rp_res := []\<rparr>) R" using assms(3) by (auto simp: waiting_def idle_def resume_def Let_def)
  ultimately show ?thesis using False assms(5) by auto
next
  case True
  define q where "q = parse_begin (hd str) (p\<lparr>rp_res := []\<rparr>)"
  have q: "cur q" "reading args q R" using waiting_start [OF assms(3,4) True q_def] by simp_all
  obtain c p4 where l: "parse_loop atoi str 0 q = Some (c, p4)" "looped args str R c p4"
    using parse_loop_reads [OF assms(1,2) q(1,2) assms(4), of 0] by auto
  have P: "Parse atoi str p = parse_end c p4" using l(1) True by (simp add: Parse_def q_def Let_def)
  show ?thesis
  proof (cases "length R \<le> length str")
    case whole: True
    then have f: "cur p4" "rp_last_result p4 = P_OK" "c = length R" "texts p4 = map Some args"
      using l(2) by (auto simp: looped_def reading_def)
    show ?thesis
    proof (cases "rp_cached p4 = Some Res")
      case True
      then show ?thesis using P f whole by (simp add: parse_end_def texts_def vec_def)
    next
      case False
      then have "rp_stash p4 \<noteq> []" using f(1) by (auto simp: cur_def)
      then show ?thesis using P f whole False by (simp add: parse_end_def texts_def)
    qed
  next
    case False
    then have f: "cur p4" "rp_last_result p4 = INPUT_PENDING" "c \<le> length str" "reading args p4 (drop c R)"
      using l(2) by (auto simp: looped_def)
    note ps = reading_pending_state [OF f(4,2)]
    obtain s where s: "StashState p4 = Some s" "idle s" "texts (resume s) = texts p4" "rp_state (resume s) = rp_state p4"
      "rp_parse_stack (resume s) = rp_parse_stack p4" "rp_broken (resume s) = rp_broken p4" "rp_bulk_len (resume s) = rp_bulk_len p4"
      using StashState_keeps [OF f(1)] by blast
    have "reading args (resume s) (drop c R)" using reading_cong [of "resume s" p4 args "drop c R"] s f(4) ps by simp
    moreover have "rp_state s = rp_state (resume s)" by (simp add: resume_def Let_def)
    ultimately have "waiting args s (drop c R)" using s(2,4) ps by (simp add: waiting_def)
    then show ?thesis using P f s(1) False by (simp add: parse_end_def)
  qed
qed

section \<open>Properties\<close>

lemma waiting_long: "waiting args p R \<Longrightarrow> 2 \<le> length R"
  by (auto simp: waiting_def reading_def EncodeRespArray_def encode_arg_def resume_def Let_def split: ParserState.splits if_splits)

lemma feed_reads:
  assumes "atoi_ok atoi" "args_ok args"
  shows "waiting args p R \<Longrightarrow> length buf < length R \<Longrightarrow> buf @ concat chunks = R @ rest
    \<Longrightarrow> \<exists>left q. feed atoi chunks buf p = Some (P_OK, left, q) \<and> prefix left rest \<and> map str_of (rp_res q) = map Some args"
proof (induction chunks arbitrary: buf p R)
  case Nil
  then have "length buf = length R + length rest" by (metis append_Nil2 concat.simps(1) length_append)
  then show ?case using Nil.prems(2) by simp
next
  case (Cons chunk chunks)
  let ?str = "buf @ chunk"
  have e: "?str @ concat chunks = R @ rest" using Cons.prems(3) by simp
  then have f: "fits ?str R" unfolding fits_def by (metis prefixI prefix_same_cases)
  note P = Parse_reads [OF assms Cons.prems(1) f waiting_long [OF Cons.prems(1)]]
  show ?case
  proof (cases "length R \<le> length ?str")
    case True
    then obtain q where q: "Parse atoi ?str p = Some (P_OK, length R, q)" "map str_of (rp_res q) = map Some args" using P by auto
    have "drop (length R) ?str @ concat chunks = rest" using arg_cong [OF e, of "drop (length R)"] True by simp
    then have "prefix (drop (length R) ?str) rest" by (metis prefixI)
    then show ?thesis using q by simp
  next
    case False
    then obtain c q where q: "Parse atoi ?str p = Some (INPUT_PENDING, c, q)" "c \<le> length ?str" "waiting args q (drop c R)" using P by auto
    have "drop c ?str @ concat chunks = drop c R @ rest" using arg_cong [OF e, of "drop c"] q(2) False by simp
    moreover have "length (drop c ?str) < length (drop c R)" using False q(2) by simp
    ultimately show ?thesis using Cons.IH [OF q(3)] q(1) by simp
  qed
qed

text \<open>C21: the client parser does not depend on how a command is cut into pieces. When the bytes of an encoded command
  arrive in any sequence of chunks, of any sizes and with anything behind them, and the connection
  presents what was not consumed again in front of the next chunk, the parser reports a command
  exactly when the bytes are complete, with the arguments of the command, and leaves what follows them.\<close>

theorem any_fragmentation_parses:
  assumes "\<forall>n \<le> 64 * 2 ^ 20. atoi (to_string n) = Some (int n)"
    and "args \<noteq> []" and "length args \<le> 1024" and "list_all (\<lambda>a. length a \<le> 64 * 2 ^ 20) args"
    and "rp_state p = INIT_S \<or> rp_state p = CMD_COMPLETE_S" and "\<not> rp_broken p"
    and "concat chunks = EncodeRespArray args @ rest"
  shows "\<exists>left q. feed atoi chunks [] p = Some (P_OK, left, q) \<and> prefix left rest
    \<and> map (\<lambda>e. (re_type e, GetBuf e)) (rp_res q) = map (\<lambda>a. (R_STRING, Some a)) args"
proof -
  have ok: "atoi_ok atoi" "args_ok args" using assms(1-4) by (simp_all add: atoi_ok_def args_ok_def)
  have w: "waiting args p (EncodeRespArray args)" using assms(5,6) by (simp add: waiting_def)
  have "length [] < length (EncodeRespArray args)" by (simp add: EncodeRespArray_def)
  then obtain left q where "feed atoi chunks [] p = Some (P_OK, left, q)" "prefix left rest" "map str_of (rp_res q) = map Some args"
    using feed_reads [OF ok w, of "[]" chunks rest] assms(7) by auto
  moreover have "map (\<lambda>e. (re_type e, GetBuf e)) es = map (\<lambda>a. (R_STRING, Some a)) as"
    if "map str_of es = map Some as" for es as
    using that by (induction as arbitrary: es) (auto simp: str_of_def Cons_eq_map_conv split: if_splits)
  ultimately show ?thesis by blast
qed

lemma digit_1_3: "digit_char (Suc 0) = CHR ''1''" "digit_char (Suc (Suc (Suc 0))) = CHR ''3''"
  by code_simp+

theorem any_fragmentation_parses_witness:
  "\<exists>left q. feed (SimpleAtoi plain_env) [''*1'', crlf @ ''$'', ''3'' @ crlf @ ''GE'', ''T'' @ crlf @ ''*''] [] rp_new = Some (P_OK, left, q)
    \<and> prefix left ''*'' \<and> map (\<lambda>e. (re_type e, GetBuf e)) (rp_res q) = [(R_STRING, Some ''GET'')]"
proof -
  have "SimpleAtoi plain_env (to_string n) = Some (int n)" for n by (simp add: plain_env_def)
  then have a: "\<forall>n \<le> 64 * 2 ^ 20. SimpleAtoi plain_env (to_string n) = Some (int n)" by blast
  have c: "concat [''*1'', crlf @ ''$'', ''3'' @ crlf @ ''GE'', ''T'' @ crlf @ ''*''] = EncodeRespArray [''GET''] @ ''*''"
    using digit_1_3 by (simp add: EncodeRespArray_def encode_arg_def to_string_eval(1))
  have i: "rp_state rp_new = INIT_S \<or> rp_state rp_new = CMD_COMPLETE_S" "\<not> rp_broken rp_new" by (simp_all add: rp_new_def)
  show ?thesis using any_fragmentation_parses [OF a _ _ _ i c] by (simp del: feed.simps)
qed

end
