(* ===== verification/Spec2Isabelle.thy ===== *)
theory Spec2Isabelle
  imports Command_Codec Wal_Recovery Kv_Spec Raft_Cluster Raft_Commit Redis_Stream
begin

text \<open>
  A verification library for maxredis, a replicated key-value server
  (\<^verbatim>\<open>src/server\<close>). File names below are relative to that directory.

  \<^bold>\<open>The program.\<close> A client command becomes a log entry (\<^verbatim>\<open>raft/command_encoder.cc\<close>). The leader
  of a Raft group appends it to its log storage, sends it to its peers, advances the commit index when a
  majority holds it, and applies committed entries to the key-value state machine; followers do the
  same from the messages they receive (\<^verbatim>\<open>raft/raft_node.cc\<close>). Term and vote, the log, the apply
  progress and the snapshots are files; a restart rebuilds the node from them.

  \<^bold>\<open>Common ground.\<close>
  \<^item> \<open>Prelude\<close>: lists, options, little-endian bytes, 64-bit counters (\<open>add64\<close>, \<open>sub64\<close>, \<open>mul64\<close>), string
    search, association lists.
  \<^item> \<open>Raft_Types\<close>, \<open>Raft_Rpc\<close>: the structs of \<^verbatim>\<open>raft_types.h\<close> and of the RPC headers; the transport
    as a record of functions on an arbitrary world.
  \<^item> \<open>File_System\<close>: a directory of files, each with the prefix that has reached the disk. A power failure
    keeps the synced prefix and any part of the rest; renaming is atomic. System calls succeed.

  \<^bold>\<open>Commands and data.\<close>
  \<^item> \<open>Command_Registry\<close> (\<^verbatim>\<open>service/command_registry\<close>) and \<open>Command_Codec\<close>
    (\<^verbatim>\<open>raft/command_encoder.cc\<close>, \<^verbatim>\<open>replicated_command.h\<close>): the RESP array codec at 64-bit offsets,
    the replicated commands, the membership commands. Round trips, and what a failed parse leaves behind.
  \<^item> \<open>Kv_Store\<close> (\<^verbatim>\<open>storage/\<close>, \<^verbatim>\<open>state_machine/kv_state_machine.cc\<close>): shards as association lists with
    expiry; \<open>State_Machine\<close> is the interface (locale \<open>state_machine\<close>); \<open>Kv_Spec\<close> shows that the sharded
    store refines one finite map of keys to values and deadlines, whatever the sharding, and that
    replicas which apply the same entries agree. The hash function and the number parser of the libraries
    are the parameters of \<open>KvEnv\<close>.

  \<^bold>\<open>Files.\<close>
  \<^item> \<open>Crc32\<close> (\<^verbatim>\<open>raft/crc32.h\<close>): the table-driven checksum is the bit-serial CRC-32C and detects every
    burst of up to four bytes.
  \<^item> \<open>Log_Storage\<close>: the contract of \<^verbatim>\<open>ILogStorage\<close> as a locale. \<open>Command_Log\<close>, \<open>Segment_Log\<close> (over \<open>Wal\<close>:
    \<^verbatim>\<open>wal_writer\<close>, \<^verbatim>\<open>wal_index.h\<close>, \<^verbatim>\<open>manifest.cc\<close>) and \<open>Log_Store\<close>, the pointer to either, are
    its interpretations.
  \<^item> \<open>Wal_Recovery\<close>: what reopening a segmented log finds after a power failure.
  \<^item> \<open>Raft_Storage\<close>, \<open>Meta_Files\<close>: term, vote and configuration; apply progress and snapshot metadata.
  \<^item> \<open>Snapshot_Files\<close>: writer, loader, sender and receiver of snapshots; locale \<open>local_snapshots\<close>.

  \<^bold>\<open>The node.\<close> A node is the record \<open>RaftNode\<close>. Every section of the code that holds \<^verbatim>\<open>mutex_\<close> is one
  function of the record; a method that releases the lock around its RPCs is split in a \<open>_begin\<close>, a
  \<open>_poll\<close> or \<open>send\<close> and a \<open>_finish\<close> part, which the method composes and between which the cluster model
  lets other sections run.
  \<^item> \<open>Election_Timer\<close>: the fiber of the timer as a step relation.
  \<^item> \<open>Raft_Node\<close>: configuration, roles, votes, elections. \<open>Raft_Replication\<close>: applying, the handlers of
    followers, the commit index, replication and heartbeat rounds, leader transfer. \<open>Raft_Client\<close>: reads,
    waiting, group commit, snapshots, recovery.
  \<^item> \<open>Raft_Votes\<close>: each locked section keeps the rules on term and vote (\<open>disciplined\<close>), and recovery
    restores them. \<open>Raft_Cluster\<close>: any number of nodes with a fixed set of voters, messages that may be
    lost, repeated or reordered, and restarts; election safety.

  \<^bold>\<open>Fuel and bounds.\<close> The apply loop gets as much fuel as there are entries to apply, and each turn
  applies at least one. \<^verbatim>\<open>ReplicateLog\<close> has the eight rounds of the code. Loops that wait on other fibers
  (\<^verbatim>\<open>WaitForApplied\<close>, group commit) consume a list of turns, each with a clock reading and what the other
  fibers did meanwhile. The record scanner consumes at least its header per record. Log indexes, terms and
  times are natural numbers; where the code subtracts or adds in a way that can wrap, the wrap is written.

  \<^bold>\<open>Not modelled.\<close> Memory ordering and preemption inside a locked section; failing system calls; log
  messages; the sockets, fibers and thread pool of the vendored helio library and what sits directly on
  them (connections, listener, TCP transport, shard threads); the protobuf classes the build generates;
  the older \<^verbatim>\<open>file_log_storage.cc\<close>, which the server does not install; persistence without Raft; the
  client protocol and the service layer; the string set, which the server does not use.
\<close>

end
